(* ===== verification/Prelude.thy ===== *)
theory Prelude
  imports Main "HOL-Library.Word" "HOL-Library.Monad_Syntax"
begin

text \<open>
  The prelude of the development: the types every component shares, the part of Go and of its
  standard library \<^verbatim>\<open>math/big\<close> that the sources use, and the generic lemmas on lists, bytes and
  words that carry the component proofs.

  Conventions.
  \<^item> A Go \<^verbatim>\<open>byte\<close> is an \<open>8 word\<close> and a \<^verbatim>\<open>uint64\<close> is a \<open>64 word\<close>, so arithmetic wraps as in Go.
  \<^item> A \<^verbatim>\<open>*big.Int\<close> is a HOL \<open>int\<close> (unbounded, signed).
  \<^item> A \<^verbatim>\<open>[]byte\<close> is a list of bytes; the nil slice and the empty slice are both \<open>[]\<close>, except where
    the source tests for nil, where the model has an \<open>option\<close>.
  \<^item> A run-time panic (index out of range, explicit \<^verbatim>\<open>panic\<close>, nil dereference) is \<open>None\<close> in an
    \<open>option\<close>-valued definition; a Go \<^verbatim>\<open>error\<close> value is data of the result.
\<close>

unbundle bit_operations_syntax

named_theorems go_simps \<open>evaluation rules of the Go primitives\<close>
named_theorems len_simps \<open>lengths of the byte strings the operations build\<close>

type_synonym byte = "8 word"
type_synonym u64 = "64 word"
type_synonym bytes = "byte list"

abbreviation MaxUint64 :: u64 where
  "MaxUint64 \<equiv> 0xFFFFFFFFFFFFFFFF"

text \<open>
  A computation that the model may cut off: \<open>OutOfFuel\<close> is the model's own marker that the
  recursion bound was reached, and is never a value of the program.
\<close>

datatype 'a outcome = Done 'a | OutOfFuel

text \<open>Sequencing after a computation that may be cut off.\<close>

definition and_then :: "'a outcome option \<Rightarrow> ('a \<Rightarrow> 'b outcome option) \<Rightarrow> 'b outcome option" where
  "and_then m k = (case m of None \<Rightarrow> None | Some OutOfFuel \<Rightarrow> Some OutOfFuel | Some (Done x) \<Rightarrow> k x)"

lemma and_then_simps [simp]:
  "and_then None k = None" "and_then (Some OutOfFuel) k = Some OutOfFuel" "and_then (Some (Done x)) k = k x"
  by (simp_all add: and_then_def)

subsection \<open>Slices\<close>

text \<open>
  Go's slice expression \<^verbatim>\<open>s[i:j]\<close> panics unless \<^verbatim>\<open>i <= j <= len(s)\<close> (a slice whose capacity is
  larger than its length may be extended by it; the model does not allow that and panics). The
  built-in \<^verbatim>\<open>copy(dst[i:], src)\<close> overwrites as many elements as both sides have.
\<close>

definition go_slice :: "'a list \<Rightarrow> nat \<Rightarrow> nat \<Rightarrow> 'a list option" where
  "go_slice xs i j = (if i \<le> j \<and> j \<le> length xs then Some (take (j - i) (drop i xs)) else None)"

definition go_copy :: "'a list \<Rightarrow> nat \<Rightarrow> 'a list \<Rightarrow> 'a list" where
  "go_copy dst i src =
     (let n = min (length src) (length dst - i)
      in take i dst @ take n src @ drop (i + n) dst)"

definition go_index :: "'a list \<Rightarrow> nat \<Rightarrow> 'a option" where
  "go_index xs i = (if i < length xs then Some (xs ! i) else None)"

lemma go_slice_Some_iff:
  "go_slice xs i j = Some ys \<longleftrightarrow> i \<le> j \<and> j \<le> length xs \<and> ys = take (j - i) (drop i xs)"
  by (auto simp: go_slice_def)

lemma length_go_slice [len_simps]:
  "go_slice xs i j = Some ys \<Longrightarrow> length ys = j - i"
  by (auto simp: go_slice_def split: if_splits)

lemma length_go_copy [len_simps, simp]:
  "i \<le> length dst \<Longrightarrow> length (go_copy dst i src) = length dst"
  by (auto simp: go_copy_def Let_def min_def)

lemma nth_go_copy_in:
  assumes "i \<le> length dst" "k < length src" "i + k < length dst"
  shows "go_copy dst i src ! (i + k) = src ! k"
  using assms by (auto simp: go_copy_def Let_def nth_append min_def)

lemma nth_go_copy_out:
  assumes "i \<le> length dst" "k < length dst" "k < i \<or> i + length src \<le> k"
  shows "go_copy dst i src ! k = dst ! k"
  using assms by (auto simp: go_copy_def Let_def nth_append min_def)

lemma go_copy_within:
  "i + length src \<le> length dst \<Longrightarrow>
   go_copy dst i src = take i dst @ src @ drop (i + length src) dst"
  by (auto simp: go_copy_def Let_def min_def)

subsection \<open>Big integers: bytes\<close>

text \<open>
  \<^verbatim>\<open>SetBytes\<close> reads a big-endian byte string as a non-negative number, \<^verbatim>\<open>Bytes\<close> writes the absolute
  value with no leading zero byte.
\<close>

definition SetBytes :: "bytes \<Rightarrow> int" where
  "SetBytes bs = foldl (\<lambda>a b. a * 256 + uint b) 0 bs"

fun nat_bytes :: "nat \<Rightarrow> bytes" where
  "nat_bytes n = (if n = 0 then [] else nat_bytes (n div 256) @ [word_of_nat (n mod 256)])"

declare nat_bytes.simps [simp del]

definition Bytes :: "int \<Rightarrow> bytes" where
  "Bytes x = nat_bytes (nat \<bar>x\<bar>)"

lemma SetBytes_Nil [simp]: "SetBytes [] = 0"
  by (simp add: SetBytes_def)

lemma SetBytes_snoc [simp]: "SetBytes (bs @ [b]) = SetBytes bs * 256 + uint b"
  by (simp add: SetBytes_def)

lemma SetBytes_append:
  "SetBytes (xs @ ys) = SetBytes xs * 256 ^ length ys + SetBytes ys"
proof (induction ys rule: rev_induct)
  case (snoc y ys)
  then show ?case
    by (simp flip: append_assoc add: algebra_simps)
qed simp

lemma SetBytes_Cons: "SetBytes (b # bs) = uint b * 256 ^ length bs + SetBytes bs"
  using SetBytes_append [of "[b]" bs] by (simp add: SetBytes_def)

lemma SetBytes_nonneg [simp]: "0 \<le> SetBytes bs"
  by (induction bs rule: rev_induct) auto

lemma SetBytes_replicate_zero [simp]: "SetBytes (replicate n 0) = 0"
  by (induction n) (simp_all add: SetBytes_Cons)

lemma byte_uint_lt [simp]: "uint (b :: byte) < 256"
  using uint_lt2p [of b] by simp

lemma SetBytes_less: "SetBytes bs < 256 ^ length bs"
proof (induction bs rule: rev_induct)
  case (snoc b bs)
  have "SetBytes bs * 256 + uint b < (SetBytes bs + 1) * 256"
    using byte_uint_lt [of b] by simp
  also have "\<dots> \<le> 256 ^ length bs * 256"
    using snoc by simp
  finally show ?case by (simp add: algebra_simps)
qed simp

lemma SetBytes_nat_bytes [simp]: "SetBytes (nat_bytes n) = int n"
proof (induction n rule: nat_bytes.induct)
  case (1 n)
  show ?case
  proof (cases "n = 0")
    case False
    have "uint (word_of_nat (n mod 256) :: byte) = int (n mod 256)"
      by (simp add: unsigned_of_nat take_bit_eq_mod)
    with 1 False have "SetBytes (nat_bytes n) = int (n div 256) * 256 + int (n mod 256)"
      by (subst nat_bytes.simps) simp
    also have "\<dots> = int n"
      by (metis mult_of_nat_commute of_nat_add of_nat_mult of_nat_numeral mult_div_mod_eq)
    finally show ?thesis .
  qed (simp add: nat_bytes.simps)
qed

lemma SetBytes_Bytes [simp]: "SetBytes (Bytes x) = \<bar>x\<bar>"
  by (simp add: Bytes_def)

lemma Bytes_zero [simp]: "Bytes 0 = []"
  by (simp add: Bytes_def nat_bytes.simps)

lemma length_nat_bytes_le: "n < 256 ^ k \<Longrightarrow> length (nat_bytes n) \<le> k"
proof (induction n arbitrary: k rule: nat_bytes.induct)
  case (1 n)
  show ?case
  proof (cases "n = 0")
    case False
    with "1.prems" obtain j where k: "k = Suc j"
      by (cases k) auto
    from "1.prems" k have "n div 256 < 256 ^ j"
      by (simp add: less_mult_imp_div_less mult.commute)
    with "1.IH" False have "length (nat_bytes (n div 256)) \<le> j" by simp
    with False k show ?thesis by (subst nat_bytes.simps) simp
  qed (simp add: nat_bytes.simps)
qed

lemma length_Bytes_le: "0 \<le> x \<Longrightarrow> x < 256 ^ k \<Longrightarrow> length (Bytes x) \<le> k"
  unfolding Bytes_def by (rule length_nat_bytes_le) (simp add: nat_less_iff)

text \<open>Two byte strings of one length that denote the same number are equal.\<close>

lemma SetBytes_inject:
  "length xs = length ys \<Longrightarrow> SetBytes xs = SetBytes ys \<Longrightarrow> xs = ys"
proof (induction xs arbitrary: ys rule: rev_induct)
  case (snoc x xs)
  then obtain y zs where ys: "ys = zs @ [y]" and len: "length xs = length zs"
    by (cases ys rule: rev_cases) auto
  from snoc.prems ys have eq: "SetBytes xs * 256 + uint x = SetBytes zs * 256 + uint y"
    by simp
  have "uint x = (SetBytes xs * 256 + uint x) mod 256" "uint y = (SetBytes zs * 256 + uint y) mod 256"
    by simp_all
  with eq have xy: "uint x = uint y" by metis
  with eq have "SetBytes xs = SetBytes zs" by simp
  with snoc.IH [OF len] have "xs = zs" by simp
  with xy ys show ?case by (simp add: word_uint_eq_iff)
qed simp

subsection \<open>Big integers: machine conversions\<close>

text \<open>
  \<^verbatim>\<open>x.Uint64()\<close> and \<^verbatim>\<open>x.Int64()\<close> keep the low 64 bits (two's complement for a negative number),
  \<^verbatim>\<open>x.IsUint64()\<close> tells whether that loses anything, \<^verbatim>\<open>x.BitLen()\<close> is the length of the absolute
  value in bits, \<^verbatim>\<open>x.Bits()\<close> its little-endian words (64 bits each on the amd64 target).
\<close>

definition Uint64 :: "int \<Rightarrow> u64" where
  "Uint64 x = word_of_int x"

definition Int64 :: "int \<Rightarrow> int" where
  "Int64 x = sint (word_of_int x :: u64)"

definition IsUint64 :: "int \<Rightarrow> bool" where
  "IsUint64 x \<longleftrightarrow> 0 \<le> x \<and> x < 2 ^ 64"

fun nat_bit_len :: "nat \<Rightarrow> nat" where
  "nat_bit_len n = (if n = 0 then 0 else Suc (nat_bit_len (n div 2)))"

declare nat_bit_len.simps [simp del]

definition BitLen :: "int \<Rightarrow> nat" where
  "BitLen x = nat_bit_len (nat \<bar>x\<bar>)"

function nat_words :: "nat \<Rightarrow> u64 list" where
  "nat_words n = (if n = 0 then [] else word_of_nat n # nat_words (n div 2 ^ 64))"
  by pat_completeness auto
termination
proof (relation "measure id")
  fix n :: nat
  assume "n \<noteq> 0"
  then have "n div 2 ^ 64 < n" by (intro div_less_dividend) simp_all
  then show "(n div 2 ^ 64, n) \<in> measure id" by (simp del: power_numeral)
qed simp

declare nat_words.simps [simp del]

definition Bits :: "int \<Rightarrow> u64 list" where
  "Bits x = nat_words (nat \<bar>x\<bar>)"

lemma uint_Uint64: "IsUint64 x \<Longrightarrow> uint (Uint64 x) = x"
  by (simp add: IsUint64_def Uint64_def unsigned_of_int take_bit_eq_mod)

lemma unat_Uint64: "IsUint64 x \<Longrightarrow> unat (Uint64 x) = nat x"
  by (metis uint_Uint64 unat_eq_nat_uint)

lemma IsUint64_uint [simp]: "IsUint64 (uint (w :: u64))"
  using uint_lt2p [of w] by (simp add: IsUint64_def)

lemma Uint64_uint [simp]: "Uint64 (uint w) = w"
  by (simp add: Uint64_def)

lemma Int64_small: "0 \<le> x \<Longrightarrow> x < 2 ^ 63 \<Longrightarrow> Int64 x = x"
  by (simp add: Int64_def signed_take_bit_int_eq_self_iff signed_of_int)

lemma nat_bit_len_le_iff: "nat_bit_len n \<le> k \<longleftrightarrow> n < 2 ^ k"
proof (induction n arbitrary: k rule: nat_bit_len.induct)
  case (1 n)
  show ?case
  proof (cases "n = 0")
    case False
    show ?thesis
    proof (cases k)
      case 0
      with False show ?thesis by (subst nat_bit_len.simps) simp
    next
      case (Suc j)
      have "n div 2 < 2 ^ j \<longleftrightarrow> n < 2 ^ Suc j"
        by (simp add: div_less_iff_less_mult mult.commute)
      with 1 False Suc show ?thesis by (subst nat_bit_len.simps) simp
    qed
  qed (simp add: nat_bit_len.simps)
qed

lemma BitLen_le_iff: "BitLen x \<le> k \<longleftrightarrow> \<bar>x\<bar> < 2 ^ k"
  by (simp add: BitLen_def nat_bit_len_le_iff nat_less_iff)

lemma BitLen_less_iff: "0 < k \<Longrightarrow> BitLen x < k \<longleftrightarrow> \<bar>x\<bar> < 2 ^ (k - 1)"
  using BitLen_le_iff [of x "k - 1"] by auto

lemma BitLen_zero [simp]: "BitLen 0 = 0"
  by (simp add: BitLen_def nat_bit_len.simps)

subsection \<open>Words of 64 bits as numbers\<close>

lemma unat_u64_less: "unat (w :: u64) < 18446744073709551616"
  using unsigned_less [of w, where ?'a = nat] by simp

lemma unat_u64_of_nat: "n < 2 ^ 64 \<Longrightarrow> unat (word_of_nat n :: u64) = n"
  by (simp add: unsigned_of_nat take_bit_nat_eq_self)

lemma unat_add_u64: "unat a + unat b < 2 ^ 64 \<Longrightarrow> unat (a + b :: u64) = unat a + unat b"
  by (simp add: unat_word_ariths)

lemma unat_add_wrap_u64:
  "2 ^ 64 \<le> unat a + unat b \<Longrightarrow> unat (a + b :: u64) + 2 ^ 64 = unat a + unat b"
proof -
  assume le: "2 ^ 64 \<le> unat a + unat b"
  then have "unat (a + b) = (unat a + unat b - 2 ^ 64) mod 2 ^ 64"
    by (simp add: unat_word_ariths le_mod_geq)
  also have "\<dots> = unat a + unat b - 2 ^ 64"
    using unat_u64_less [of a] unat_u64_less [of b] by (intro mod_less) simp
  finally show ?thesis using le by simp
qed

lemma add_less_iff_wrap_u64: "(a + b :: u64) < a \<longleftrightarrow> 2 ^ 64 \<le> unat a + unat b"
proof (cases "2 ^ 64 \<le> unat a + unat b")
  case True
  with unat_add_wrap_u64 [of a b] unat_u64_less [of b] show ?thesis
    by (simp add: word_less_nat_alt)
next
  case False
  with unat_add_u64 [of a b] show ?thesis by (simp add: word_less_nat_alt)
qed

lemma unat_mult_u64: "unat a * unat b < 2 ^ 64 \<Longrightarrow> unat (a * b :: u64) = unat a * unat b"
  by (simp add: unat_word_ariths)

lemma unat_sub_u64: "b \<le> a \<Longrightarrow> unat (a - b :: u64) = unat a - unat b"
  by (rule unat_sub)

end
