(* ===== verification/Go_Math.thy ===== *)
theory Go_Math
  imports Prelude
begin

text \<open>
  Package \<^verbatim>\<open>Out/common/math\<close>: the 256-bit helpers on big integers (\<^verbatim>\<open>big.go\<close>) and the
  overflow-checked operations on \<^verbatim>\<open>uint64\<close> (\<^verbatim>\<open>integer.go\<close>). Shown here: the truncation and the
  two's-complement reading agree with 256-bit words, exponentiation by squaring computes the
  power modulo \<open>2 ^ 256\<close>, the byte writers are the big-endian encoding, and the overflow flags
  are exact.
\<close>

section \<open>Limits\<close>

definition BigPow :: "int \<Rightarrow> nat \<Rightarrow> int" where
  "BigPow a b = a ^ b"

definition tt255 :: int where "tt255 = BigPow 2 255"
definition tt256 :: int where "tt256 = BigPow 2 256"
definition tt256m1 :: int where "tt256m1 = tt256 - 1"
definition tt63 :: int where "tt63 = BigPow 2 63"
definition MaxBig256 :: int where "MaxBig256 = tt256m1"
definition MaxBig63 :: int where "MaxBig63 = tt63 - 1"

definition wordBits :: nat where "wordBits = 64"
definition wordBytes :: nat where "wordBytes = wordBits div 8"

definition BigMax :: "int \<Rightarrow> int \<Rightarrow> int" where
  "BigMax x y = (if x < y then y else x)"

definition BigMin :: "int \<Rightarrow> int \<Rightarrow> int" where
  "BigMin x y = (if x > y then y else x)"

text \<open>\<^verbatim>\<open>FirstBitSet\<close> scans from the least significant bit; the loop index is the accumulator.\<close>

fun first_bit_from :: "int \<Rightarrow> nat \<Rightarrow> nat \<Rightarrow> nat" where
  "first_bit_from v i 0 = BitLen v"
| "first_bit_from v i (Suc k) = (if bit v i then i else first_bit_from v (Suc i) k)"

definition FirstBitSet :: "int \<Rightarrow> nat" where
  "FirstBitSet v = first_bit_from v 0 (BitLen v)"

section \<open>Byte access\<close>

definition bigEndianByteAt :: "int \<Rightarrow> nat \<Rightarrow> byte" where
  "bigEndianByteAt bigint n =
     (let words = Bits bigint; i = n div wordBytes
      in if i \<ge> length words then 0
         else ucast (drop_bit (8 * (n mod wordBytes)) (words ! i)))"

definition Byte :: "int \<Rightarrow> nat \<Rightarrow> nat \<Rightarrow> byte" where
  "Byte bigint padlength n =
     (if n \<ge> padlength then 0 else bigEndianByteAt bigint (padlength - 1 - n))"

text \<open>
  \<^verbatim>\<open>ReadBits\<close>: the inner loop writes at most \<^verbatim>\<open>wordBytes\<close> bytes of one word, going left from
  index \<open>i\<close>; the outer loop goes through the words. The buffer is returned.
\<close>

fun read_word :: "nat \<Rightarrow> u64 \<Rightarrow> nat \<Rightarrow> bytes \<Rightarrow> nat \<times> bytes" where
  "read_word 0 d i buf = (i, buf)"
| "read_word (Suc j) d i buf =
     (if i > 0 then read_word j (drop_bit 8 d) (i - 1) (buf[i - 1 := ucast d]) else (i, buf))"

fun read_words :: "u64 list \<Rightarrow> nat \<Rightarrow> bytes \<Rightarrow> bytes" where
  "read_words [] i buf = buf"
| "read_words (d # ds) i buf = (case read_word wordBytes d i buf of (i', buf') \<Rightarrow> read_words ds i' buf')"

definition ReadBits :: "int \<Rightarrow> bytes \<Rightarrow> bytes" where
  "ReadBits bigint buf = read_words (Bits bigint) (length buf) buf"

definition PaddedBigBytes :: "int \<Rightarrow> nat \<Rightarrow> bytes" where
  "PaddedBigBytes bigint n =
     (if BitLen bigint div 8 \<ge> n then Bytes bigint else ReadBits bigint (replicate n 0))"

section \<open>Two's complement\<close>

definition U256 :: "int \<Rightarrow> int" where
  "U256 x = x AND tt256m1"

definition S256 :: "int \<Rightarrow> int" where
  "S256 x = (if x < tt255 then x else x - tt256)"

text \<open>
  \<^verbatim>\<open>Exp\<close> squares \<^verbatim>\<open>base\<close> in place, so the final value of \<^verbatim>\<open>base\<close> is returned beside the result.
\<close>

fun exp_word :: "nat \<Rightarrow> u64 \<Rightarrow> int \<Rightarrow> int \<Rightarrow> int \<times> int" where
  "exp_word 0 word result base = (result, base)"
| "exp_word (Suc i) word result base =
     (let result' = (if word AND 1 = 1 then U256 (result * base) else result)
      in exp_word i (drop_bit 1 word) result' (U256 (base * base)))"

fun exp_words :: "u64 list \<Rightarrow> int \<Rightarrow> int \<Rightarrow> int \<times> int" where
  "exp_words [] result base = (result, base)"
| "exp_words (w # ws) result base =
     (case exp_word wordBits w result base of (r, b) \<Rightarrow> exp_words ws r b)"

definition Exp :: "int \<Rightarrow> int \<Rightarrow> int \<times> int" where
  "Exp base exponent = exp_words (Bits exponent) 1 base"

section \<open>Checked 64-bit arithmetic\<close>

definition SafeSub :: "u64 \<Rightarrow> u64 \<Rightarrow> u64 \<times> bool" where
  "SafeSub x y = (x - y, x < y)"

definition SafeAdd :: "u64 \<Rightarrow> u64 \<Rightarrow> u64 \<times> bool" where
  "SafeAdd x y = (x + y, y > MaxUint64 - x)"

definition SafeMul :: "u64 \<Rightarrow> u64 \<Rightarrow> u64 \<times> bool" where
  "SafeMul x y = (if x = 0 \<or> y = 0 then (0, False) else (x * y, y > MaxUint64 div x))"

section \<open>Lemmas: limits and two's complement\<close>

lemma tt255_eq: "tt255 = 2 ^ 255" and tt256_eq: "tt256 = 2 ^ 256"
  and tt256m1_eq: "tt256m1 = 2 ^ 256 - 1"
  by (simp_all only: tt255_def tt256_def tt256m1_def BigPow_def)

lemma U256_mod: "U256 x = x mod 2 ^ 256"
  by (metis U256_def tt256m1_eq and.commute mask_eq_exp_minus_1 take_bit_eq_mask take_bit_eq_mod)

definition word256 :: "int \<Rightarrow> bool" where
  "word256 x \<longleftrightarrow> 0 \<le> x \<and> x < 2 ^ 256"

lemma U256_word256 [simp, intro]: "word256 (U256 x)"
  by (simp add: word256_def U256_mod)

lemma U256_id: "word256 x \<Longrightarrow> U256 x = x"
  by (simp add: word256_def U256_mod del: power_numeral)

lemma uint_word256 [simp, intro]: "word256 (uint (w :: 256 word))"
  unfolding word256_def using uint_lt2p [of w] by simp

lemma U256_uint: "U256 x = uint (word_of_int x :: 256 word)"
  by (simp add: U256_mod unsigned_of_int take_bit_eq_mod)

lemma uint_of_word256: "word256 x \<Longrightarrow> uint (word_of_int x :: 256 word) = x"
  by (metis U256_id U256_uint)

section \<open>Lemmas: exponentiation by squaring\<close>

fun words_val :: "u64 list \<Rightarrow> nat" where
  "words_val [] = 0"
| "words_val (w # ws) = unat w + 2 ^ 64 * words_val ws"

lemma words_val_nat_words [simp]: "words_val (nat_words n) = n"
proof (induction n rule: nat_words.induct)
  case (1 n)
  show ?case
  proof (cases "n = 0")
    case False
    have "unat (word_of_nat n :: u64) = n mod 2 ^ 64"
      by (simp add: unsigned_of_nat take_bit_eq_mod)
    with 1 False have "words_val (nat_words n) = n mod 2 ^ 64 + 2 ^ 64 * (n div 2 ^ 64)"
      by (subst nat_words.simps) (simp only: words_val.simps if_False simp_thms)
    then show ?thesis by (simp only: mod_mult_div_eq)
  qed (simp add: nat_words.simps)
qed

lemma U256_mult_left: "U256 (U256 x * y) = U256 (x * y)"
  by (simp only: U256_mod mod_mult_left_eq)

lemma U256_mult_right: "U256 (x * U256 y) = U256 (x * y)"
  by (simp only: U256_mod mod_mult_right_eq)

lemma U256_power: "U256 (U256 x ^ n) = U256 (x ^ n)"
  by (simp only: U256_mod power_mod)

lemma odd_word_and_1: "(w AND 1 = (1 :: u64)) \<longleftrightarrow> odd (unat w)"
proof -
  have "(w AND 1 = 1) \<longleftrightarrow> unat (w mod 2) = unat (1 :: u64)"
    by (simp add: and_one_eq word_unat_eq_iff)
  then show ?thesis by (simp add: unat_mod_distrib odd_iff_mod_2_eq_one)
qed

lemma unat_drop_bit_1: "unat (drop_bit 1 w :: u64) = unat w div 2"
  unfolding unat_drop_bit_eq by (simp add: drop_bit_eq_div)

lemma exp_word_base: "U256 (snd (exp_word k w r b)) = U256 (b ^ 2 ^ k)"
proof (induction k arbitrary: w r b)
  case (Suc k)
  have "U256 (snd (exp_word (Suc k) w r b)) = U256 (U256 (b * b) ^ 2 ^ k)"
    using Suc by (simp add: Let_def)
  also have "\<dots> = U256 ((b * b) ^ 2 ^ k)" by (rule U256_power)
  also have "(b * b) ^ 2 ^ k = b ^ 2 ^ Suc k"
    by (simp add: power_mult_distrib flip: power_add mult_2)
  finally show ?case .
qed simp

lemma exp_word_result:
  "unat w < 2 ^ k \<Longrightarrow> U256 (fst (exp_word k w r b)) = U256 (r * b ^ unat w)"
proof (induction k arbitrary: w r b)
  case (Suc k)
  define r' where "r' = (if odd (unat w) then U256 (r * b) else r)"
  have lt: "unat (drop_bit 1 w) < 2 ^ k"
    using Suc.prems unfolding unat_drop_bit_1 by simp
  have "U256 (fst (exp_word (Suc k) w r b)) = U256 (r' * U256 (b * b) ^ (unat w div 2))"
    using Suc.IH [OF lt, of r' "U256 (b * b)"]
    unfolding unat_drop_bit_1 by (simp add: Let_def odd_word_and_1 r'_def)
  also have "\<dots> = U256 (r' * (b * b) ^ (unat w div 2))"
    by (metis U256_mult_right U256_power)
  also have "\<dots> = U256 (r * b ^ unat w)"
  proof (cases "odd (unat w)")
    case True
    then have "b ^ unat w = b * (b * b) ^ (unat w div 2)"
      by (metis odd_two_times_div_two_succ power_Suc power_mult power2_eq_square Suc_eq_plus1)
    with True show ?thesis
      by (simp add: r'_def U256_mult_left mult.assoc)
  next
    case False
    then have "b ^ unat w = (b * b) ^ (unat w div 2)"
      by (metis dvd_mult_div_cancel power_mult power2_eq_square)
    with False show ?thesis by (simp add: r'_def)
  qed
  finally show ?case .
qed simp

lemma exp_word_word256: "word256 r \<Longrightarrow> word256 (fst (exp_word k w r b))"
  by (induction k arbitrary: w r b) (simp_all add: Let_def)

lemma exp_words_word256: "word256 r \<Longrightarrow> word256 (fst (exp_words ws r b))"
proof (induction ws arbitrary: r b)
  case (Cons w ws)
  then show ?case
    using exp_word_word256 [OF Cons.prems, of wordBits w b]
    by (cases "exp_word wordBits w r b") simp
qed simp

lemma exp_words_result: "U256 (fst (exp_words ws r b)) = U256 (r * b ^ words_val ws)"
proof (induction ws arbitrary: r b)
  case (Cons w ws)
  obtain r' b' where rb: "exp_word wordBits w r b = (r', b')"
    by (cases "exp_word wordBits w r b")
  have "unat w < 2 ^ wordBits" using unat_u64_less [of w] by (simp add: wordBits_def)
  from exp_word_result [OF this, of r b] rb have r': "U256 r' = U256 (r * b ^ unat w)" by simp
  from exp_word_base [of wordBits w r b] rb have b': "U256 b' = U256 (b ^ 2 ^ 64)"
    by (simp add: wordBits_def)
  have "U256 (fst (exp_words (w # ws) r b)) = U256 (r' * b' ^ words_val ws)"
    using Cons rb by simp
  also have "\<dots> = U256 (U256 r' * U256 (b' ^ words_val ws))"
    by (simp only: U256_mult_left U256_mult_right)
  also have "U256 (b' ^ words_val ws) = U256 ((b ^ 2 ^ 64) ^ words_val ws)"
    by (metis U256_power b')
  also have "U256 (U256 r' * \<dots>) = U256 (r * b ^ unat w * (b ^ 2 ^ 64) ^ words_val ws)"
    by (simp only: r' U256_mult_left U256_mult_right)
  also have "r * b ^ unat w * (b ^ 2 ^ 64) ^ words_val ws = r * b ^ words_val (w # ws)"
    by (simp only: words_val.simps power_add power_mult mult.assoc)
  finally show ?case .
qed simp

lemma Exp_value:
  assumes "0 \<le> e"
  shows "fst (Exp b e) = U256 (b ^ nat e)"
proof -
  have "word256 (fst (Exp b e))"
    unfolding Exp_def by (rule exp_words_word256) (simp add: word256_def)
  then have "fst (Exp b e) = U256 (fst (Exp b e))" by (simp add: U256_id)
  also have "\<dots> = U256 (b ^ nat e)"
    using assms by (simp add: Exp_def exp_words_result Bits_def)
  finally show ?thesis .
qed

text \<open>The base that is left: squared 64 times for every word of the exponent.\<close>

lemma exp_word_base_word256: "word256 b \<or> 0 < k \<Longrightarrow> word256 (snd (exp_word k w r b))"
  by (induction k arbitrary: w r b) (auto simp: Let_def)

lemma exp_words_base:
  "U256 (snd (exp_words ws r b)) = U256 (b ^ 2 ^ (64 * length ws)) \<and> (word256 b \<or> ws \<noteq> [] \<longrightarrow> word256 (snd (exp_words ws r b)))"
proof (induction ws arbitrary: r b)
  case (Cons w ws)
  obtain r' b' where rb: "exp_word wordBits w r b = (r', b')" by (cases "exp_word wordBits w r b")
  have b': "U256 b' = U256 (b ^ 2 ^ 64)" "word256 b'"
    using exp_word_base [of wordBits w r b] exp_word_base_word256 [of b wordBits w r] rb by (simp_all add: wordBits_def)
  have "U256 (b' ^ 2 ^ (64 * length ws)) = U256 ((b ^ 2 ^ 64) ^ 2 ^ (64 * length ws))" by (metis U256_power b'(1))
  also have "(b ^ 2 ^ 64) ^ 2 ^ (64 * length ws) = b ^ 2 ^ (64 * length (w # ws))"
    by (simp add: power_add flip: power_mult)
  finally show ?case using Cons [of r' b'] rb b'(2) by simp
qed simp

text \<open>
  (C16) \<^verbatim>\<open>math.Exp\<close> computes the power modulo \<open>2 ^ 256\<close> for every base and every non-negative exponent, whatever their
  size. It overwrites the base: what it leaves there is the base squared 64 times for every word of the
  exponent, reduced modulo \<open>2 ^ 256\<close>.
\<close>

theorem Exp_correct:
  assumes "0 \<le> e"
  shows "Exp b e = (b ^ nat e mod 2 ^ 256, if Bits e = [] then b else b ^ 2 ^ (64 * length (Bits e)) mod 2 ^ 256)"
proof -
  have "snd (Exp b e) = U256 (b ^ 2 ^ (64 * length (Bits e)))" if "Bits e \<noteq> []"
    using exp_words_base [of "Bits e" 1 b] that unfolding Exp_def by (metis U256_id)
  moreover have "snd (Exp b e) = b" if "Bits e = []" using that by (simp add: Exp_def)
  ultimately show ?thesis using Exp_value [OF assms, of b] by (simp add: prod_eq_iff U256_mod)
qed

theorem Exp_correct_witness: "fst (Exp 3 5) = 243 \<and> 0 \<le> snd (Exp 3 5) \<and> snd (Exp 3 5) < 2 ^ 256"
proof -
  have "Bits 5 \<noteq> []" by (simp add: Bits_def nat_words.simps)
  then show ?thesis unfolding Exp_correct [of 5 3, simplified] by simp
qed

section \<open>Lemmas: big-endian encoding\<close>

text \<open>The reference encoding: the low \<open>n\<close> bytes of a number, most significant first.\<close>

fun be_enc :: "nat \<Rightarrow> nat \<Rightarrow> bytes" where
  "be_enc 0 v = []"
| "be_enc (Suc n) v = be_enc n (v div 256) @ [word_of_nat v]"

lemma length_be_enc [simp, len_simps]: "length (be_enc n v) = n"
  by (induction n arbitrary: v) auto

lemma uint_byte_of_nat: "uint (word_of_nat v :: byte) = int (v mod 256)"
  by (simp add: unsigned_of_nat take_bit_eq_mod)

lemma SetBytes_be_enc: "SetBytes (be_enc n v) = int (v mod 256 ^ n)"
proof (induction n arbitrary: v)
  case (Suc n)
  have "SetBytes (be_enc (Suc n) v) = int (256 * (v div 256 mod 256 ^ n) + v mod 256)"
    using Suc by (simp add: uint_byte_of_nat)
  also have "256 * (v div 256 mod 256 ^ n) + v mod 256 = v mod 256 ^ Suc n"
    by (simp add: mod_mult2_eq)
  finally show ?case .
qed simp

lemma be_enc_zero [simp]: "be_enc n 0 = replicate n 0"
  by (induction n) (simp_all add: replicate_append_same)

lemma be_enc_split: "k \<le> n \<Longrightarrow> be_enc n v = be_enc (n - k) (v div 256 ^ k) @ be_enc k v"
proof (induction k arbitrary: n v)
  case (Suc k)
  then obtain m where n: "n = Suc m" by (cases n) auto
  have "be_enc n v = be_enc (m - k) (v div 256 div 256 ^ k) @ be_enc k (v div 256) @ [word_of_nat v]"
    using Suc.IH [of m "v div 256"] Suc.prems n by simp
  then show ?case using n by (simp add: div_mult2_eq)
qed simp

lemma be_enc_mod: "k \<le> n \<Longrightarrow> be_enc k (v mod 256 ^ n) = be_enc k v"
proof (induction k arbitrary: n v)
  case (Suc k)
  then obtain m where n: "n = Suc m" by (cases n) auto
  have "(v mod 256 ^ n) div 256 = v div 256 mod 256 ^ m"
    using n by (simp add: mod_mult2_eq)
  moreover have "word_of_nat (v mod 256 ^ n) = (word_of_nat v :: byte)"
  proof -
    have "v mod 256 ^ n mod 256 = v mod 256"
      by (rule mod_mod_cancel) (simp add: n)
    then show ?thesis by (simp only: word_uint_eq_iff uint_byte_of_nat)
  qed
  ultimately show ?case using Suc n by simp
qed simp

lemma unat_drop_bit_8: "unat (drop_bit 8 w :: u64) = unat w div 256"
  unfolding unat_drop_bit_eq by (simp add: drop_bit_eq_div)

lemma ucast_byte_of_nat: "(ucast w :: byte) = word_of_nat (unat (w :: u64))"
  by simp

lemma read_word_spec:
  "i \<le> length buf \<Longrightarrow>
   read_word j d i buf =
     (i - min j i, take (i - min j i) buf @ be_enc (min j i) (unat d) @ drop i buf)"
proof (induction j arbitrary: d i buf)
  case (Suc j)
  show ?case
  proof (cases i)
    case (Suc k)
    let ?b = "buf[k := word_of_nat (unat d)]"
    have "read_word (Suc j) d i buf = read_word j (drop_bit 8 d) k ?b"
      using Suc by simp
    also have "\<dots> = (k - min j k, take (k - min j k) ?b @ be_enc (min j k) (unat d div 256) @ drop k ?b)"
      using Suc.IH [of k ?b "drop_bit 8 d"] Suc.prems Suc by (simp add: unat_drop_bit_8)
    also have "take (k - min j k) ?b = take (k - min j k) buf" by simp
    also have "drop k ?b = word_of_nat (unat d) # drop i buf"
      using Suc.prems Suc by (simp add: drop_update_swap Cons_nth_drop_Suc [symmetric])
    finally show ?thesis using Suc by simp
  qed simp
qed simp

lemma read_words_spec:
  "i \<le> length buf \<Longrightarrow> take i buf = replicate i 0 \<Longrightarrow>
   read_words ds i buf = be_enc i (words_val ds) @ drop i buf"
proof (induction ds arbitrary: i buf)
  case Nil
  then show ?case by (metis append_take_drop_id be_enc_zero read_words.simps(1) words_val.simps(1))
next
  case (Cons d ds)
  define k where "k = min 8 i"
  define buf' where "buf' = take (i - k) buf @ be_enc k (unat d) @ drop i buf"
  have k: "k \<le> i" by (simp add: k_def)
  have "read_word wordBytes d i buf = (i - k, buf')"
    using read_word_spec [OF Cons.prems(1), of wordBytes d]
    by (simp add: k_def buf'_def wordBytes_def wordBits_def)
  moreover have "take (i - k) buf = replicate (i - k) 0"
    using Cons.prems(2) by (metis diff_le_self min.absorb1 take_replicate take_take)
  then have "take (i - k) buf' = replicate (i - k) 0"
    using Cons.prems(1) by (simp add: buf'_def)
  moreover have "i - k \<le> length buf'" "drop (i - k) buf' = be_enc k (unat d) @ drop i buf"
    using Cons.prems(1) by (simp_all add: buf'_def)
  ultimately have "read_words (d # ds) i buf
      = be_enc (i - k) (words_val ds) @ be_enc k (unat d) @ drop i buf"
    using Cons.IH by simp
  also have "\<dots> = be_enc i (words_val (d # ds)) @ drop i buf"
  proof (cases "8 \<le> i")
    case True
    then have k8: "k = 8" by (simp add: k_def)
    let ?v = "words_val (d # ds)"
    have "?v div 256 ^ 8 = words_val ds" "?v mod 256 ^ 8 = unat d"
      using unat_u64_less [of d] by (simp_all add: div_mult2_eq [symmetric])
    then show ?thesis
      using be_enc_split [OF k, of ?v] be_enc_mod [of k 8 ?v] k8 by simp
  next
    case False
    then have ki: "k = i" by (simp add: k_def)
    have "words_val (d # ds) mod 256 ^ 8 = unat d mod 256 ^ 8" by simp
    with be_enc_mod [of i 8] False have "be_enc i (words_val (d # ds)) = be_enc i (unat d)"
      by (metis le_cases)
    with ki show ?thesis by simp
  qed
  finally show ?case .
qed

lemma ReadBits_be_enc: "ReadBits x (replicate n 0) = be_enc n (nat \<bar>x\<bar>)"
  unfolding ReadBits_def by (simp add: read_words_spec Bits_def)

lemma nat_words_0 [simp]: "nat_words 0 = []"
  by (simp add: nat_words.simps)

lemma unat_u64_of_nat_mod: "unat (word_of_nat u :: u64) = u mod 2 ^ 64"
  by (simp add: unsigned_of_nat take_bit_eq_mod)

lemma ucast_drop_bit_u64:
  "(ucast (drop_bit k (w :: u64)) :: byte) = word_of_nat (unat w div 2 ^ k)"
proof -
  have "unat (drop_bit k w) = unat w div 2 ^ k"
    unfolding unat_drop_bit_eq by (rule drop_bit_eq_div)
  then show ?thesis by (simp only: ucast_byte_of_nat)
qed

lemma nat_words_nth:
  "i < length (nat_words n) \<Longrightarrow> nat_words n ! i = word_of_nat (n div 2 ^ (64 * i))"
proof (induction n arbitrary: i rule: nat_words.induct)
  case (1 n)
  then have n: "n \<noteq> 0" by (cases "n = 0") simp_all
  show ?case
  proof (cases i)
    case 0
    with n show ?thesis by (subst nat_words.simps) simp
  next
    case (Suc j)
    have eq: "nat_words n = word_of_nat n # nat_words (n div 2 ^ 64)"
      using n by (subst nat_words.simps) (simp only: if_False)
    have "j < length (nat_words (n div 2 ^ 64))"
      using "1.prems" unfolding eq Suc by simp
    from "1.IH" [OF n this] have "nat_words n ! i = word_of_nat (n div 2 ^ 64 div 2 ^ (64 * j))"
      unfolding eq Suc by simp
    also have "n div 2 ^ 64 div 2 ^ (64 * j) = n div 2 ^ (64 * i)"
      unfolding Suc by (simp only: div_mult2_eq [symmetric] power_add [symmetric] mult_Suc_right)
    finally show ?thesis .
  qed
qed

lemma nat_words_length: "length (nat_words n) \<le> i \<Longrightarrow> n div 2 ^ (64 * i) = 0"
proof (induction n arbitrary: i rule: nat_words.induct)
  case (1 n)
  show ?case
  proof (cases "n = 0")
    case False
    have eq: "nat_words n = word_of_nat n # nat_words (n div 2 ^ 64)"
      using False by (subst nat_words.simps) (simp only: if_False)
    with "1.prems" obtain j where i: "i = Suc j" by (cases i) auto
    from "1.prems" i eq have "length (nat_words (n div 2 ^ 64)) \<le> j" by simp
    from "1.IH" [OF False this] have "n div 2 ^ 64 div 2 ^ (64 * j) = 0" .
    then show ?thesis
      unfolding i by (simp only: div_mult2_eq [symmetric] power_add [symmetric] mult_Suc_right)
  qed simp
qed

lemma word_of_nat_byte_eqI: "a mod 256 = b mod 256 \<Longrightarrow> (word_of_nat a :: byte) = word_of_nat b"
  by (simp add: word_uint_eq_iff uint_byte_of_nat)

lemma bigEndianByteAt_eq: "bigEndianByteAt x n = word_of_nat (nat \<bar>x\<bar> div 256 ^ n)"
proof -
  define v where "v = nat \<bar>x\<bar>"
  define i r where "i = n div 8" and "r = n mod 8"
  have n: "n = 8 * i + r" "r < 8" by (simp_all add: i_def r_def)
  have pow: "(256::nat) ^ n = 2 ^ (64 * i) * 2 ^ (8 * r)"
    by (simp add: n power_add power_mult)
  show ?thesis
  proof (cases "i < length (nat_words v)")
    case True
    have "bigEndianByteAt x n = ucast (drop_bit (8 * r) (word_of_nat (v div 2 ^ (64 * i)) :: u64))"
      using True
      by (simp add: bigEndianByteAt_def Bits_def v_def [symmetric] Let_def wordBytes_def wordBits_def
          i_def [symmetric] r_def [symmetric] nat_words_nth)
    also have "\<dots> = word_of_nat (v div 2 ^ (64 * i) mod 2 ^ 64 div 2 ^ (8 * r))"
      by (simp only: ucast_drop_bit_u64 unat_u64_of_nat_mod)
    also have "\<dots> = word_of_nat (v div 256 ^ n)"
    proof (rule word_of_nat_byte_eqI)
      let ?u = "v div 2 ^ (64 * i)"
      have "64 - 8 * r \<ge> (8::nat)" using n(2) by simp
      have "(?u mod 2 ^ 64 div 2 ^ (8 * r)) mod 2 ^ 8 = (?u div 2 ^ (8 * r)) mod 2 ^ 8"
        using n(2) by (simp only: take_bit_eq_mod [symmetric] drop_bit_eq_div [symmetric]
            drop_bit_take_bit take_bit_take_bit)
      also have "?u div 2 ^ (8 * r) = v div 256 ^ n"
        by (simp add: pow div_mult2_eq)
      finally show "(?u mod 2 ^ 64 div 2 ^ (8 * r)) mod 256 = (v div 256 ^ n) mod 256" by simp
    qed
    finally show ?thesis by (simp add: v_def)
  next
    case False
    have "v div 256 ^ n = 0"
      using nat_words_length [of v i] False by (simp add: pow div_mult2_eq)
    with False show ?thesis
      by (simp add: bigEndianByteAt_def Bits_def v_def [symmetric] Let_def wordBytes_def wordBits_def
          i_def [symmetric])
  qed
qed

lemma be_enc_nth: "i < n \<Longrightarrow> be_enc n v ! i = word_of_nat (v div 256 ^ (n - 1 - i))"
proof (induction n arbitrary: v)
  case (Suc n)
  show ?case
  proof (cases "i = n")
    case False
    with Suc.prems have i: "i < n" by simp
    then have "Suc (n - 1 - i) = n - i" by simp
    then have "(256::nat) * 256 ^ (n - 1 - i) = 256 ^ (n - i)" by (metis power_Suc)
    with Suc.IH [OF i, of "v div 256"] i show ?thesis
      by (simp add: nth_append div_mult2_eq [symmetric])
  qed (simp add: nth_append)
qed simp

lemma Byte_nth: "n < padlength \<Longrightarrow> Byte x padlength n = be_enc padlength (nat \<bar>x\<bar>) ! n"
  by (simp add: Byte_def bigEndianByteAt_eq be_enc_nth)

lemma PaddedBigBytes_length: "n \<le> length (PaddedBigBytes x n)"
proof (cases "BitLen x div 8 \<ge> n \<and> n > 0")
  case True
  then have "8 * n \<le> BitLen x" by linarith
  then have "\<not> BitLen x \<le> 8 * n - 1" using True by linarith
  then have "2 ^ (8 * n - 1) \<le> \<bar>x\<bar>" by (simp add: BitLen_le_iff)
  moreover have "\<bar>x\<bar> < 256 ^ length (Bytes x)"
    using SetBytes_less [of "Bytes x"] by simp
  then have "\<bar>x\<bar> < 2 ^ (8 * length (Bytes x))" by (simp add: power_mult)
  ultimately have "(2 :: int) ^ (8 * n - 1) < 2 ^ (8 * length (Bytes x))" by linarith
  then have "8 * n - 1 < 8 * length (Bytes x)" by simp
  with True show ?thesis by (simp add: PaddedBigBytes_def)
qed (auto simp: PaddedBigBytes_def ReadBits_be_enc)

lemma PaddedBigBytes_value: "SetBytes (PaddedBigBytes x n) = \<bar>x\<bar>"
proof (cases "BitLen x div 8 \<ge> n")
  case False
  then have "BitLen x \<le> 8 * n" by linarith
  then have "\<bar>x\<bar> < 256 ^ n" by (simp add: BitLen_le_iff power_mult)
  then have "nat \<bar>x\<bar> < 256 ^ n" by (simp add: nat_less_iff)
  with False show ?thesis
    by (simp add: PaddedBigBytes_def ReadBits_be_enc SetBytes_be_enc)
qed (simp add: PaddedBigBytes_def)

section \<open>Lemmas: overflow flags\<close>

lemma unat_MaxUint64: "unat MaxUint64 = 2 ^ 64 - 1"
  by simp

lemma nat_diff_less_iff: "(a::nat) \<le> m \<Longrightarrow> m - a < b \<longleftrightarrow> Suc m \<le> a + b"
  by arith

lemma SafeAdd_overflow_iff: "snd (SafeAdd x y) \<longleftrightarrow> 2 ^ 64 \<le> unat x + unat y"
proof -
  have "x \<le> MaxUint64" using unat_u64_less [of x] by (simp add: word_le_nat_alt)
  then have "unat (MaxUint64 - x) = 2 ^ 64 - 1 - unat x"
    by (simp only: unat_sub unat_MaxUint64)
  then show ?thesis
    using nat_diff_less_iff [of "unat x" "2 ^ 64 - 1" "unat y"] unat_u64_less [of x]
    by (simp add: SafeAdd_def word_less_nat_alt)
qed

lemma SafeAdd_exact: "\<not> snd (SafeAdd x y) \<Longrightarrow> unat (fst (SafeAdd x y)) = unat x + unat y"
  using unat_add_u64 [of x y] unfolding SafeAdd_overflow_iff by (simp add: SafeAdd_def)

lemma SafeSub_overflow_iff: "snd (SafeSub x y) \<longleftrightarrow> unat x < unat y"
  by (simp add: SafeSub_def word_less_nat_alt)

lemma SafeSub_exact: "\<not> snd (SafeSub x y) \<Longrightarrow> unat (fst (SafeSub x y)) = unat x - unat y"
  unfolding SafeSub_def snd_conv fst_conv by (rule unat_sub) simp

lemma SafeMul_overflow_iff: "snd (SafeMul x y) \<longleftrightarrow> 2 ^ 64 \<le> unat x * unat y"
proof (cases "x = 0 \<or> y = 0")
  case False
  then have x: "unat x > 0" by (simp add: unat_gt_0)
  have "MaxUint64 div x < y \<longleftrightarrow> (2 ^ 64 - 1) div unat x < unat y"
    by (simp only: word_less_nat_alt unat_div unat_MaxUint64)
  also have "\<dots> \<longleftrightarrow> 2 ^ 64 - 1 < unat y * unat x"
    using x by (simp only: div_less_iff_less_mult)
  also have "\<dots> \<longleftrightarrow> 2 ^ 64 \<le> unat x * unat y" by (auto simp: mult.commute)
  finally show ?thesis using False by (simp add: SafeMul_def)
qed (auto simp: SafeMul_def)

lemma SafeMul_exact: "\<not> snd (SafeMul x y) \<Longrightarrow> unat (fst (SafeMul x y)) = unat x * unat y"
  using unat_mult_u64 [of x y] unfolding SafeMul_overflow_iff by (auto simp: SafeMul_def)

section \<open>Lemmas: signed reading\<close>

lemma S256_sint: "word256 x \<Longrightarrow> S256 x = sint (word_of_int x :: 256 word)"
proof -
  assume x: "word256 x"
  have "sint (word_of_int x :: 256 word) = signed_take_bit 255 x"
    by (simp add: signed_of_int)
  also have "\<dots> = (x + 2 ^ 255) mod 2 ^ 256 - 2 ^ 255"
    by (simp add: signed_take_bit_eq_take_bit_shift take_bit_eq_mod)
  also have "\<dots> = S256 x"
  proof (cases "x < 2 ^ 255")
    case True
    with x have "(x + 2 ^ 255) mod 2 ^ 256 = x + 2 ^ 255"
      by (intro mod_pos_pos_trivial) (simp_all add: word256_def)
    with True show ?thesis by (simp add: S256_def tt255_eq)
  next
    case False
    with x have "(x + 2 ^ 255) mod 2 ^ 256 = x + 2 ^ 255 - 2 ^ 256"
      by (simp add: word256_def mod_pos_geq)
    with False show ?thesis by (simp add: S256_def tt255_eq tt256_eq)
  qed
  finally show ?thesis by simp
qed

lemma S256_bounds: "word256 x \<Longrightarrow> - (2 ^ 255) \<le> S256 x \<and> S256 x < 2 ^ 255"
  by (simp add: word256_def S256_def tt255_eq tt256_eq)

lemma U256_S256: "word256 x \<Longrightarrow> U256 (S256 x) = x"
  by (simp add: U256_mod S256_def tt256_eq word256_def mod_pos_pos_trivial)

end
