(* ===== verification/Go_Common.thy ===== *)
theory Go_Common
  imports Go_Math
begin

text \<open>
  Byte-string helpers: package \<^verbatim>\<open>Out/common\<close> (\<^verbatim>\<open>bytes.go\<close>, \<^verbatim>\<open>types.go\<close>) and the helpers of the
  virtual machine in \<^verbatim>\<open>common.go\<close>. A \<^verbatim>\<open>common.Hash\<close> ([32]byte) and a \<^verbatim>\<open>common.Address\<close> ([20]byte)
  are byte lists; every function that builds one returns a list of that length. Shown here: the
  conversions between numbers, hashes and addresses, that data windows read past the end as
  zeros and have the requested length, and that the memory-size computations are exact.
\<close>

section \<open>Padding (\<^verbatim>\<open>bytes.go\<close>)\<close>

definition RightPadBytes :: "bytes \<Rightarrow> int \<Rightarrow> bytes" where
  "RightPadBytes bs l =
     (if l \<le> int (length bs) then bs else go_copy (replicate (nat l) 0) 0 bs)"

definition LeftPadBytes :: "bytes \<Rightarrow> int \<Rightarrow> bytes" where
  "LeftPadBytes bs l =
     (if l \<le> int (length bs) then bs
      else go_copy (replicate (nat l) 0) (nat l - length bs) bs)"

section \<open>Hexadecimal strings (\<^verbatim>\<open>bytes.go\<close>)\<close>

text \<open>
  \<^verbatim>\<open>encoding/hex\<close>: \<^verbatim>\<open>EncodeToString\<close> writes two lower-case digits per byte; \<^verbatim>\<open>DecodeString\<close> returns
  the bytes decoded before the first bad digit (its error is dropped by the callers here).
\<close>

definition hextable :: string where
  "hextable = ''0123456789abcdef''"

fun hex_EncodeToString :: "bytes \<Rightarrow> string" where
  "hex_EncodeToString [] = []"
| "hex_EncodeToString (b # bs) =
     hextable ! (unat b div 16) # hextable ! (unat b mod 16) # hex_EncodeToString bs"

definition fromHexChar :: "char \<Rightarrow> nat option" where
  "fromHexChar c =
     (let n = (of_char c :: nat)
      in if 48 \<le> n \<and> n \<le> 57 then Some (n - 48)
         else if 97 \<le> n \<and> n \<le> 102 then Some (n - 97 + 10)
         else if 65 \<le> n \<and> n \<le> 70 then Some (n - 65 + 10)
         else None)"

fun hex_DecodeString :: "string \<Rightarrow> bytes" where
  "hex_DecodeString (c # d # cs) =
     (case (fromHexChar c, fromHexChar d) of
        (Some a, Some b) \<Rightarrow> word_of_nat (16 * a + b) # hex_DecodeString cs
      | _ \<Rightarrow> [])"
| "hex_DecodeString _ = []"

definition Bytes2Hex :: "bytes \<Rightarrow> string" where
  "Bytes2Hex d = hex_EncodeToString d"

definition Hex2Bytes :: "string \<Rightarrow> bytes" where
  "Hex2Bytes str = hex_DecodeString str"

definition ToHex :: "bytes \<Rightarrow> string" where
  "ToHex b = (let hex = Bytes2Hex b; hex' = (if length hex = 0 then ''0'' else hex) in ''0x'' @ hex')"

definition FromHex :: "string \<Rightarrow> bytes" where
  "FromHex s =
     (let s = (if length s > 1 \<and> (take 2 s = ''0x'' \<or> take 2 s = ''0X'') then drop 2 s else s);
          s = (if length s mod 2 = 1 then ''0'' @ s else s)
      in Hex2Bytes s)"

definition hasHexPrefix :: "string \<Rightarrow> bool" where
  "hasHexPrefix str \<longleftrightarrow>
     length str \<ge> 2 \<and> str ! 0 = CHR ''0'' \<and> (str ! 1 = CHR ''x'' \<or> str ! 1 = CHR ''X'')"

definition isHexCharacter :: "char \<Rightarrow> bool" where
  "isHexCharacter c \<longleftrightarrow>
     (let n = (of_char c :: nat)
      in (48 \<le> n \<and> n \<le> 57) \<or> (97 \<le> n \<and> n \<le> 102) \<or> (65 \<le> n \<and> n \<le> 70))"

definition isHex :: "string \<Rightarrow> bool" where
  "isHex str \<longleftrightarrow> length str mod 2 = 0 \<and> list_all isHexCharacter str"

definition Hex2BytesFixed :: "string \<Rightarrow> nat \<Rightarrow> bytes" where
  "Hex2BytesFixed str flen =
     (let h = hex_DecodeString str
      in if length h = flen then h
         else if length h > flen then drop (length h - flen) h
         else go_copy (replicate flen 0) (flen - length h) h)"

section \<open>Hashes and addresses (\<^verbatim>\<open>types.go\<close>)\<close>

type_synonym Hash = bytes
type_synonym Address = bytes

definition HashLength :: nat where "HashLength = 32"
definition AddressLength :: nat where "AddressLength = 20"

definition zeroHash :: Hash where "zeroHash = replicate HashLength 0"
definition zeroAddress :: Address where "zeroAddress = replicate AddressLength 0"

definition Hash_SetBytes :: "bytes \<Rightarrow> Hash" where
  "Hash_SetBytes b =
     (let b = (if length b > HashLength then drop (length b - HashLength) b else b)
      in go_copy zeroHash (HashLength - length b) b)"

definition BytesToHash :: "bytes \<Rightarrow> Hash" where
  "BytesToHash b = Hash_SetBytes b"

definition BigToHash :: "int \<Rightarrow> Hash" where
  "BigToHash b = BytesToHash (Bytes b)"

definition HexToHash :: "string \<Rightarrow> Hash" where
  "HexToHash s = BytesToHash (FromHex s)"

definition Hash_Big :: "Hash \<Rightarrow> int" where
  "Hash_Big h = SetBytes h"

definition Address_SetBytes :: "bytes \<Rightarrow> Address" where
  "Address_SetBytes b =
     (let b = (if length b > AddressLength then drop (length b - AddressLength) b else b)
      in go_copy zeroAddress (AddressLength - length b) b)"

definition BytesToAddress :: "bytes \<Rightarrow> Address" where
  "BytesToAddress b = Address_SetBytes b"

definition BigToAddress :: "int \<Rightarrow> Address" where
  "BigToAddress b = BytesToAddress (Bytes b)"

definition HexToAddress :: "string \<Rightarrow> Address" where
  "HexToAddress s = BytesToAddress (FromHex s)"

definition IsHexAddress :: "string \<Rightarrow> bool" where
  "IsHexAddress s =
     (let s = (if hasHexPrefix s then drop 2 s else s) in length s = 2 * AddressLength \<and> isHex s)"

definition Address_Hash :: "Address \<Rightarrow> Hash" where
  "Address_Hash a = BytesToHash a"

section \<open>Sizes and data windows (\<^verbatim>\<open>common.go\<close> of the virtual machine)\<close>

definition calcMemSize64WithUint :: "int \<Rightarrow> u64 \<Rightarrow> u64 \<times> bool" where
  "calcMemSize64WithUint off length64 =
     (if length64 = 0 then (0, False)
      else if \<not> IsUint64 off then (0, True)
      else let offset64 = Uint64 off; val = offset64 + length64 in (val, val < offset64))"

definition calcMemSize64 :: "int \<Rightarrow> int \<Rightarrow> u64 \<times> bool" where
  "calcMemSize64 off l =
     (if \<not> IsUint64 l then (0, True) else calcMemSize64WithUint off (Uint64 l))"

definition getData :: "bytes \<Rightarrow> u64 \<Rightarrow> u64 \<Rightarrow> bytes option" where
  "getData data start sz =
     (let len = word_of_nat (length data) :: u64;
          start = (if start > len then len else start);
          end = start + sz;
          end = (if end > len then len else end)
      in do {
        window \<leftarrow> go_slice data (unat start) (unat end);
        Some (RightPadBytes window (sint sz))
      })"

definition getDataBig :: "bytes \<Rightarrow> int \<Rightarrow> int \<Rightarrow> bytes option" where
  "getDataBig data start sz =
     (let dlen = int (length data);
          s = BigMin start dlen;
          e = BigMin (s + sz) dlen
      in do {
        window \<leftarrow> go_slice data (unat (Uint64 s)) (unat (Uint64 e));
        Some (RightPadBytes window (sint (Uint64 sz)))
      })"

definition bigUint64 :: "int \<Rightarrow> u64 \<times> bool" where
  "bigUint64 v = (Uint64 v, \<not> IsUint64 v)"

definition toWordSize :: "u64 \<Rightarrow> u64" where
  "toWordSize sz = (if sz > MaxUint64 - 31 then MaxUint64 div 32 + 1 else (sz + 31) div 32)"

definition allZero :: "bytes \<Rightarrow> bool" where
  "allZero b = list_all (\<lambda>x. x = 0) b"

section \<open>Lemmas: padding\<close>

lemma go_copy_zeros_left: "length bs \<le> n \<Longrightarrow> go_copy (replicate n 0) 0 bs = bs @ replicate (n - length bs) 0"
  by (simp add: go_copy_within)

lemma go_copy_zeros_right:
  "length bs \<le> n \<Longrightarrow> go_copy (replicate n 0) (n - length bs) bs = replicate (n - length bs) 0 @ bs"
  by (simp add: go_copy_within)

lemma RightPadBytes_eq: "RightPadBytes bs l = bs @ replicate (nat l - length bs) 0"
  by (simp add: RightPadBytes_def go_copy_zeros_left)

lemma LeftPadBytes_eq: "LeftPadBytes bs l = replicate (nat l - length bs) 0 @ bs"
  by (simp add: LeftPadBytes_def go_copy_zeros_right)

lemma SetBytes_LeftPad [simp]: "SetBytes (LeftPadBytes bs l) = SetBytes bs"
  by (simp add: LeftPadBytes_eq SetBytes_append)

section \<open>Lemmas: hexadecimal round trip\<close>

lemma fromHexChar_hextable: "n < 16 \<Longrightarrow> fromHexChar (hextable ! n) = Some n"
proof -
  assume "n < 16"
  then have "n \<in> set [0..<16]" by simp
  moreover have "list_all (\<lambda>n. fromHexChar (hextable ! n) = Some n) [0..<16]" by code_simp
  ultimately show ?thesis by (simp add: list_all_iff)
qed

lemma isHexCharacter_iff: "isHexCharacter c \<longleftrightarrow> fromHexChar c \<noteq> None"
  by (auto simp: isHexCharacter_def fromHexChar_def Let_def)

lemma Hex2Bytes_Bytes2Hex: "Hex2Bytes (Bytes2Hex bs) = bs"
proof -
  have "hex_DecodeString (hex_EncodeToString bs) = bs"
  proof (induction bs)
    case (Cons b bs)
    have "unat b < 256" using unsigned_less [of b, where ?'a = nat] by simp
    then have "unat b div 16 < 16" "unat b mod 16 < 16" by simp_all
    with Cons show ?case by (simp add: fromHexChar_hextable)
  qed simp
  then show ?thesis by (simp add: Hex2Bytes_def Bytes2Hex_def)
qed

lemma length_hex_EncodeToString: "length (hex_EncodeToString bs) = 2 * length bs"
  by (induction bs) auto

lemma isHex_Bytes2Hex: "isHex (Bytes2Hex bs)"
proof -
  have "list_all isHexCharacter (hex_EncodeToString bs)"
  proof (induction bs)
    case (Cons b bs)
    have "unat b < 256" using unsigned_less [of b, where ?'a = nat] by simp
    then have "unat b div 16 < 16" "unat b mod 16 < 16" by simp_all
    with Cons show ?case by (simp add: fromHexChar_hextable isHexCharacter_iff)
  qed simp
  then show ?thesis by (simp add: isHex_def Bytes2Hex_def length_hex_EncodeToString)
qed

text \<open>
  (C17) Hexadecimal round trip: reading back the output of \<^verbatim>\<open>ToHex\<close> with \<^verbatim>\<open>FromHex\<close> gives the bytes
  for every non-empty byte string; the empty string prints as \<^verbatim>\<open>0x0\<close>, which reads as one zero byte.
\<close>

theorem FromHex_ToHex: "FromHex (ToHex bs) = (if bs = [] then [0] else bs)"
proof (cases "bs = []")
  case True
  then show ?thesis
    by (simp add: ToHex_def FromHex_def Bytes2Hex_def Hex2Bytes_def Let_def fromHexChar_def)
next
  case False
  then have "ToHex bs = ''0x'' @ Bytes2Hex bs"
    by (cases bs) (simp_all add: ToHex_def Let_def Bytes2Hex_def)
  moreover have "length (Bytes2Hex bs) mod 2 = 0"
    by (simp add: Bytes2Hex_def length_hex_EncodeToString)
  ultimately show ?thesis
    using False by (simp add: FromHex_def Let_def Hex2Bytes_Bytes2Hex)
qed

section \<open>Lemmas: hashes and addresses\<close>

lemma zeroHash_value [simp]: "SetBytes zeroHash = 0"
  by (simp add: zeroHash_def)

lemma length_zeroHash [simp]: "length zeroHash = 32"
  by (simp add: zeroHash_def HashLength_def)

lemma length_zeroAddress [simp]: "length zeroAddress = 20"
  by (simp add: zeroAddress_def AddressLength_def)

text \<open>Cropping on the left and padding on the left both keep the value modulo \<open>256 ^ n\<close>.\<close>

lemma crop_pad_value:
  assumes "c = (if length b > n then drop (length b - n) b else b)"
  shows "length (go_copy (replicate n 0) (n - length c) c) = n"
    and "SetBytes (go_copy (replicate n 0) (n - length c) c) = SetBytes b mod 256 ^ n"
proof -
  have c: "length c \<le> n" using assms by auto
  then show "length (go_copy (replicate n 0) (n - length c) c) = n" by simp
  have val: "SetBytes (go_copy (replicate n 0) (n - length c) c) = SetBytes c"
    using c by (simp add: go_copy_zeros_right SetBytes_append)
  show "SetBytes (go_copy (replicate n 0) (n - length c) c) = SetBytes b mod 256 ^ n"
  proof (cases "length b > n")
    case True
    define d where "d = take (length b - n) b"
    have b: "b = d @ c" "length c = n" using True assms by (simp_all add: d_def)
    then have "SetBytes b = SetBytes d * 256 ^ n + SetBytes c" by (simp add: SetBytes_append)
    with b SetBytes_less [of c] val show ?thesis by simp
  next
    case False
    then have "(256 :: int) ^ length b \<le> 256 ^ n" by (intro power_increasing) simp_all
    with SetBytes_less [of b] have "SetBytes b < 256 ^ n" by linarith
    with False assms val show ?thesis by simp
  qed
qed

lemma length_BytesToHash [simp, len_simps]: "length (BytesToHash b) = 32"
  unfolding BytesToHash_def Hash_SetBytes_def zeroHash_def HashLength_def Let_def
  by (rule crop_pad_value(1)) simp

lemma SetBytes_BytesToHash: "SetBytes (BytesToHash b) = SetBytes b mod 2 ^ 256"
proof -
  have "SetBytes (BytesToHash b) = SetBytes b mod 256 ^ 32"
    unfolding BytesToHash_def Hash_SetBytes_def zeroHash_def HashLength_def Let_def
    by (rule crop_pad_value(2)) simp
  then show ?thesis by simp
qed

lemma length_BytesToAddress [simp, len_simps]: "length (BytesToAddress b) = 20"
  unfolding BytesToAddress_def Address_SetBytes_def zeroAddress_def AddressLength_def Let_def
  by (rule crop_pad_value(1)) simp

lemma SetBytes_BytesToAddress: "SetBytes (BytesToAddress b) = SetBytes b mod 2 ^ 160"
proof -
  have "SetBytes (BytesToAddress b) = SetBytes b mod 256 ^ 20"
    unfolding BytesToAddress_def Address_SetBytes_def zeroAddress_def AddressLength_def Let_def
    by (rule crop_pad_value(2)) simp
  then show ?thesis by simp
qed

lemma length_BigToHash [simp, len_simps]: "length (BigToHash x) = 32"
  by (simp add: BigToHash_def)

lemma length_BigToAddress [simp, len_simps]: "length (BigToAddress x) = 20"
  by (simp add: BigToAddress_def)

lemma BytesToHash_id: "length h = 32 \<Longrightarrow> BytesToHash h = h"
  by (rule SetBytes_inject) (use SetBytes_less [of h] in \<open>simp_all add: SetBytes_BytesToHash\<close>)

lemma BytesToAddress_id: "length a = 20 \<Longrightarrow> BytesToAddress a = a"
  by (rule SetBytes_inject) (use SetBytes_less [of a] in \<open>simp_all add: SetBytes_BytesToAddress\<close>)

lemma Hash_Big_BigToHash: "word256 x \<Longrightarrow> Hash_Big (BigToHash x) = x"
  by (simp add: Hash_Big_def BigToHash_def SetBytes_BytesToHash word256_def)

lemma BigToHash_Hash_Big: "length h = 32 \<Longrightarrow> BigToHash (Hash_Big h) = h"
  by (rule SetBytes_inject)
    (use SetBytes_less [of h] in \<open>simp_all add: SetBytes_BytesToHash BigToHash_def Hash_Big_def\<close>)

lemma BigToHash_inject: "word256 x \<Longrightarrow> word256 y \<Longrightarrow> BigToHash x = BigToHash y \<longleftrightarrow> x = y"
  by (metis Hash_Big_BigToHash)

lemma word256_Hash_Big: "length h = 32 \<Longrightarrow> word256 (Hash_Big h)"
  using SetBytes_less [of h] by (simp add: word256_def Hash_Big_def)

lemma word256_SetBytes: "length bs \<le> 32 \<Longrightarrow> word256 (SetBytes bs)"
proof -
  assume "length bs \<le> 32"
  then have "(256 :: int) ^ length bs \<le> 256 ^ 32" by (intro power_increasing) simp_all
  with SetBytes_less [of bs] show ?thesis by (simp add: word256_def)
qed

lemma BigToHash_be_enc: "word256 x \<Longrightarrow> BigToHash x = be_enc 32 (nat x)"
proof (rule SetBytes_inject)
  assume x: "word256 x"
  then have "nat x < 256 ^ 32" by (simp add: word256_def nat_less_iff)
  with x show "SetBytes (BigToHash x) = SetBytes (be_enc 32 (nat x))"
    by (simp add: BigToHash_def SetBytes_BytesToHash SetBytes_be_enc word256_def)
qed simp

section \<open>Lemmas: sizes and windows\<close>

text \<open>
  The reference window: \<open>n\<close> bytes of the data from an offset, zeros past its end.
\<close>

definition window_spec :: "bytes \<Rightarrow> nat \<Rightarrow> nat \<Rightarrow> bytes" where
  "window_spec data s n = map (\<lambda>i. if s + i < length data then data ! (s + i) else 0) [0..<n]"

lemma length_window_spec [simp, len_simps]: "length (window_spec data s n) = n"
  by (simp add: window_spec_def)

lemma window_spec_pad:
  assumes "s' = min s (length data)" "e' = min (s' + n) (length data)"
  shows "take (e' - s') (drop s' data) @ replicate (n - (e' - s')) 0 = window_spec data s n"
proof (rule nth_equalityI)
  fix i
  assume "i < length (take (e' - s') (drop s' data) @ replicate (n - (e' - s')) 0)"
  then have i: "i < n" using assms by (auto simp: min_def split: if_splits)
  show "(take (e' - s') (drop s' data) @ replicate (n - (e' - s')) 0) ! i = window_spec data s n ! i"
    using assms i by (auto simp: window_spec_def nth_append min_def split: if_splits)
qed (use assms in \<open>auto simp: min_def\<close>)

lemma getDataBig_window:
  assumes "0 \<le> start" "0 \<le> n" "n < 2 ^ 63" "length data < 2 ^ 63"
  shows "getDataBig data start n = Some (window_spec data (nat start) (nat n))"
proof -
  define s where "s = min (nat start) (length data)"
  define e where "e = min (s + nat n) (length data)"
  have bs: "BigMin start (int (length data)) = int s"
    using assms by (auto simp: BigMin_def s_def)
  have be: "BigMin (int s + n) (int (length data)) = int e"
    using assms by (auto simp: BigMin_def e_def)
  have u: "unat (Uint64 (int s)) = s" "unat (Uint64 (int e)) = e"
    using assms(4) by (simp_all add: unat_Uint64 IsUint64_def s_def e_def)
  have n: "sint (Uint64 n) = n"
    using Int64_small [OF assms(2,3)] by (simp add: Int64_def Uint64_def)
  have se: "s \<le> e" "e \<le> length data" by (simp_all add: s_def e_def)
  have "getDataBig data start n = Some (RightPadBytes (take (e - s) (drop s data)) n)"
    unfolding getDataBig_def Let_def bs be u n using se by (simp add: go_slice_def)
  also have "RightPadBytes (take (e - s) (drop s data)) n = window_spec data (nat start) (nat n)"
    using window_spec_pad [OF s_def e_def] se by (simp add: RightPadBytes_eq)
  finally show ?thesis .
qed

lemma unat_u64_length: "length xs < 2 ^ 63 \<Longrightarrow> unat (word_of_nat (length xs) :: u64) = length xs"
  by (rule unat_u64_of_nat) simp

lemma getData_window:
  assumes "length data < 2 ^ 63" "unat n < 2 ^ 63"
  shows "getData data start n = Some (window_spec data (unat start) (unat n))"
proof -
  define len where "len = (word_of_nat (length data) :: u64)"
  have len: "unat len = length data" unfolding len_def using assms(1) by (rule unat_u64_length)
  define s where "s = (if start > len then len else start)"
  have s: "unat s = min (unat start) (length data)"
    by (auto simp: s_def word_less_nat_alt len)
  have "unat s + unat n < 2 ^ 64" using s assms by simp
  then have sn: "unat (s + n) = unat s + unat n" by (rule unat_add_u64)
  define e where "e = (if s + n > len then len else s + n)"
  have e: "unat e = min (unat s + unat n) (length data)"
    by (auto simp: e_def word_less_nat_alt len sn)
  from assms(2) have "int (unat n) < int (2 ^ 63)" by (simp only: of_nat_less_iff)
  then have n: "sint n = int (unat n)"
    using Int64_small [of "uint n"] by (simp add: Int64_def)
  have se: "unat s \<le> unat e" "unat e \<le> length data" using s e by simp_all
  have "getData data start n = Some (RightPadBytes (take (unat e - unat s) (drop (unat s) data)) (int (unat n)))"
    unfolding getData_def Let_def len_def [symmetric] s_def [symmetric] e_def [symmetric] n
    using se by (simp add: go_slice_def)
  also have "\<dots> = Some (window_spec data (unat start) (unat n))"
    using window_spec_pad [OF s e] se by (simp add: RightPadBytes_eq)
  finally show ?thesis .
qed

lemma toWordSize_exact: "unat (toWordSize sz) = (unat sz + 31) div 32"
proof (cases "sz > MaxUint64 - 31")
  case True
  then have "unat sz > 2 ^ 64 - 1 - 31"
    by (simp add: word_less_nat_alt)
  then obtain k where k: "unat sz = 18446744073709551585 + k"
    by (auto simp: less_iff_Suc_add)
  with unat_u64_less [of sz] have "k < 31" by simp
  with k have "(unat sz + 31) div 32 = 2 ^ 59" by simp
  moreover have "unat (toWordSize sz) = 2 ^ 59"
    using True by (simp add: toWordSize_def)
  ultimately show ?thesis by simp
next
  case False
  then have "unat sz + unat (31 :: u64) < 2 ^ 64"
    by (simp add: word_less_nat_alt)
  then have "unat (sz + 31) = unat sz + 31"
    using unat_add_u64 [of sz 31] by simp
  with False show ?thesis by (simp add: toWordSize_def unat_div)
qed

lemma calcMemSize64WithUint_exact:
  assumes "0 \<le> off"
  shows "calcMemSize64WithUint off n =
    (if n = 0 then (0, False)
     else if off + uint n < 2 ^ 64 then (word_of_int (off + uint n), False)
     else (if IsUint64 off then word_of_int (off + uint n) else 0, True))"
proof (cases "n \<noteq> 0 \<and> IsUint64 off")
  case True
  define o64 where "o64 = Uint64 off"
  have o: "uint o64 = off" using True by (simp add: o64_def uint_Uint64)
  have "o64 + n < o64 \<longleftrightarrow> 2 ^ 64 \<le> uint o64 + uint n"
  proof -
    have "2 ^ 64 \<le> uint o64 + uint n \<longleftrightarrow> int (2 ^ 64) \<le> int (unat o64 + unat n)" by simp
    then show ?thesis by (simp only: of_nat_le_iff add_less_iff_wrap_u64)
  qed
  moreover have "o64 + n = word_of_int (off + uint n)"
    using o by (metis of_int_add word_of_int_uint)
  ultimately show ?thesis
    using True o by (auto simp: calcMemSize64WithUint_def Let_def o64_def [symmetric])
next
  case False
  moreover have "off + uint n \<ge> 2 ^ 64" if "\<not> IsUint64 off"
    using that assms uint_ge_0 [of n] unfolding IsUint64_def by linarith
  ultimately show ?thesis by (auto simp: calcMemSize64WithUint_def)
qed

lemma calcMemSize64_fits:
  assumes "0 \<le> off" "0 \<le> l" "calcMemSize64 off l = (m, False)"
  shows "unat m = (if l = 0 then 0 else nat (off + l)) \<and> (l = 0 \<or> off + l < 2 ^ 64)"
proof -
  from assms(3) have l: "IsUint64 l" by (auto simp: calcMemSize64_def split: if_splits)
  then have u: "uint (Uint64 l) = l" by (rule uint_Uint64)
  have z: "Uint64 l = 0 \<longleftrightarrow> l = 0" using u by (metis uint_0_iff)
  have "calcMemSize64WithUint off (Uint64 l) = (m, False)"
    using assms(3) l by (simp add: calcMemSize64_def)
  then consider "l = 0" "m = 0" | "l \<noteq> 0" "off + l < 2 ^ 64" "m = word_of_int (off + l)"
    unfolding calcMemSize64WithUint_exact [OF assms(1)] z u
    by (auto split: if_splits)
  then show ?thesis
  proof cases
    case 2
    then have "unat (word_of_int (off + l) :: u64) = nat (off + l)"
      using unat_Uint64 [of "off + l"] assms by (simp add: Uint64_def IsUint64_def)
    with 2 assms(1,2) show ?thesis by simp
  qed simp
qed

text \<open>
  (C18) A data window never panics and reads as if the data were followed by zeros: for a
  non-negative start and a length below \<open>2 ^ 63\<close>, \<^verbatim>\<open>getDataBig\<close> returns exactly that many bytes.
\<close>

theorem getDataBig_correct:
  assumes "0 \<le> start" "0 \<le> n" "n < 2 ^ 63" "length data < 2 ^ 63"
  shows "\<exists>w. getDataBig data start n = Some w \<and> int (length w) = n \<and>
    (\<forall>i < length w. w ! i = (if nat start + i < length data then data ! (nat start + i) else 0))"
  using getDataBig_window [OF assms] assms(2) by (simp add: window_spec_def)

theorem getDataBig_correct_witness:
  "\<exists>w. getDataBig [1, 2, 3] 2 4 = Some w \<and> int (length w) = 4 \<and> w ! 0 = 3 \<and> w ! 1 = 0"
  using getDataBig_correct [of 2 4 "[1, 2, 3]"] by auto

lemma getData_panic_bound:
  assumes "length data < 2 ^ 63"
  shows "getData data start n = None \<longleftrightarrow> 2 ^ 64 \<le> min (unat start) (length data) + unat n"
proof -
  define len where "len = (word_of_nat (length data) :: u64)"
  have len: "unat len = length data" unfolding len_def using assms by (rule unat_u64_length)
  define s where "s = (if start > len then len else start)"
  have s: "unat s = min (unat start) (length data)"
    by (auto simp: s_def word_less_nat_alt len)
  define e where "e = (if s + n > len then len else s + n)"
  have panic: "getData data start n = None \<longleftrightarrow> \<not> (unat s \<le> unat e \<and> unat e \<le> length data)"
    unfolding getData_def Let_def len_def [symmetric] s_def [symmetric] e_def [symmetric]
    by (auto simp: go_slice_def)
  have e: "unat e = min (unat (s + n)) (length data)"
    by (auto simp: e_def word_less_nat_alt len)
  show ?thesis
  proof (cases "unat s + unat n < 2 ^ 64")
    case True
    then have "unat (s + n) = unat s + unat n" by (rule unat_add_u64)
    with True s e panic show ?thesis by auto
  next
    case False
    then have "unat (s + n) + 2 ^ 64 = unat s + unat n"
      by (intro unat_add_wrap_u64) simp
    then have "unat (s + n) < unat s" using unat_u64_less [of n] by simp
    with False s e panic show ?thesis by auto
  qed
qed

text \<open>A size of \<open>2 ^ 63\<close> or more is negative as a Go \<^verbatim>\<open>int\<close>, so nothing is padded.\<close>

lemma getData_huge:
  assumes "length data < 2 ^ 63" "2 ^ 63 \<le> unat n" "min (unat start) (length data) + unat n < 2 ^ 64"
  shows "getData data start n = Some (drop (unat start) data)"
proof -
  define len where "len = (word_of_nat (length data) :: u64)"
  have len: "unat len = length data" unfolding len_def using assms(1) by (rule unat_u64_length)
  define s where "s = (if start > len then len else start)"
  have s: "unat s = min (unat start) (length data)" by (auto simp: s_def word_less_nat_alt len)
  have "unat (s + n) = unat s + unat n" using s assms(3) by (intro unat_add_u64) simp
  then have e: "(if s + n > len then len else s + n) = len"
    using assms(1,2) by (auto simp: word_less_nat_alt len)
  have "sint n < 0"
  proof -
    have "int (2 ^ 63) \<le> int (unat n)" using assms(2) by (simp only: of_nat_le_iff)
    then have u: "2 ^ 63 \<le> uint n" "uint n < 2 ^ 64" using uint_lt2p [of n] by simp_all
    have "(uint n + 2 ^ 63) mod 2 ^ 64 = (uint n - 2 ^ 63 + 2 ^ 64) mod 2 ^ 64" by (simp add: add.commute)
    also have "\<dots> = uint n - 2 ^ 63" unfolding mod_add_self2 using u by (intro mod_pos_pos_trivial) simp_all
    finally show ?thesis using u by (simp add: sint_uint signed_take_bit_eq_take_bit_shift take_bit_eq_mod)
  qed
  then have "getData data start n = go_slice data (unat s) (length data) \<bind> (\<lambda>x. Some (RightPadBytes x (sint n)))"
    unfolding getData_def Let_def len_def [symmetric] s_def [symmetric] e len by simp
  then show ?thesis using s \<open>sint n < 0\<close> by (simp add: go_slice_def RightPadBytes_def min_def)
qed

text \<open>
  (C19) \<^verbatim>\<open>getData\<close> is documented as overflow safe, but its sum \<^verbatim>\<open>start + size\<close> can wrap: it panics (slice
  bounds out of range) exactly when the clamped start plus the size reaches \<open>2 ^ 64\<close>. Otherwise it returns the window of the data
  at the start, filled up with zeros to the size; a size of \<open>2 ^ 63\<close> or more is a negative \<^verbatim>\<open>int\<close> for the
  padding, and it returns the rest of the data only.
\<close>

theorem getData_panics_iff:
  assumes "length data < 2 ^ 63"
  shows "getData data start n =
    (if 2 ^ 64 \<le> min (unat start) (length data) + unat n then None
     else if unat n < 2 ^ 63 then Some (window_spec data (unat start) (unat n))
     else Some (drop (unat start) data))"
  using getData_panic_bound [OF assms] getData_window [OF assms] getData_huge [OF assms] by (auto simp: not_le not_less)

theorem getData_panics_iff_witness: "getData [0] 1 MaxUint64 = None \<and> getData [5, 6] 1 2 = Some [6, 0]"
  using getData_panics_iff [of "[0]" 1 MaxUint64] getData_panics_iff [of "[5, 6]" 1 2]
  by (simp add: window_spec_def upt_conv_Cons)

end
