(* ===== verification/Params.thy ===== *)
theory Params
  imports Prelude
begin

text \<open>
  Package \<^verbatim>\<open>Out/params\<close>: the protocol constants (\<^verbatim>\<open>protocol_params.go\<close>), the gas tables of the forks
  (\<^verbatim>\<open>gas_table.go\<close>) and the chain configuration with its fork predicates and its compatibility check
  (\<^verbatim>\<open>config.go\<close>). A \<^verbatim>\<open>*big.Int\<close> that may be nil is an \<open>int option\<close>. Shown here: the compatibility
  search terminates, reports a conflict exactly when there is one, and rewinding to the block it
  names removes the conflict.
\<close>

section \<open>Protocol constants\<close>

abbreviation (input) CallValueTransferGas :: u64 where "CallValueTransferGas \<equiv> 9000"
abbreviation (input) CallNewAccountGas :: u64 where "CallNewAccountGas \<equiv> 25000"
abbreviation (input) QuadCoeffDiv :: u64 where "QuadCoeffDiv \<equiv> 512"
abbreviation (input) LogDataGas :: u64 where "LogDataGas \<equiv> 8"
abbreviation (input) CallStipend :: u64 where "CallStipend \<equiv> 2300"
abbreviation (input) Sha3Gas :: u64 where "Sha3Gas \<equiv> 30"
abbreviation (input) Sha3WordGas :: u64 where "Sha3WordGas \<equiv> 6"
abbreviation (input) SstoreSetGas :: u64 where "SstoreSetGas \<equiv> 20000"
abbreviation (input) SstoreResetGas :: u64 where "SstoreResetGas \<equiv> 5000"
abbreviation (input) SstoreClearGas :: u64 where "SstoreClearGas \<equiv> 5000"
abbreviation (input) SstoreRefundGas :: u64 where "SstoreRefundGas \<equiv> 15000"
abbreviation (input) NetSstoreNoopGas :: u64 where "NetSstoreNoopGas \<equiv> 200"
abbreviation (input) NetSstoreInitGas :: u64 where "NetSstoreInitGas \<equiv> 20000"
abbreviation (input) NetSstoreCleanGas :: u64 where "NetSstoreCleanGas \<equiv> 5000"
abbreviation (input) NetSstoreDirtyGas :: u64 where "NetSstoreDirtyGas \<equiv> 200"
abbreviation (input) NetSstoreClearRefund :: u64 where "NetSstoreClearRefund \<equiv> 15000"
abbreviation (input) NetSstoreResetRefund :: u64 where "NetSstoreResetRefund \<equiv> 4800"
abbreviation (input) NetSstoreResetClearRefund :: u64 where "NetSstoreResetClearRefund \<equiv> 19800"
abbreviation (input) JumpdestGas :: u64 where "JumpdestGas \<equiv> 1"
abbreviation (input) CreateDataGas :: u64 where "CreateDataGas \<equiv> 200"
abbreviation (input) CallCreateDepth :: u64 where "CallCreateDepth \<equiv> 1024"
abbreviation (input) ExpGas :: u64 where "ExpGas \<equiv> 10"
abbreviation (input) LogGas :: u64 where "LogGas \<equiv> 375"
abbreviation (input) CopyGas :: u64 where "CopyGas \<equiv> 3"
abbreviation (input) StackLimit :: u64 where "StackLimit \<equiv> 1024"
abbreviation (input) LogTopicGas :: u64 where "LogTopicGas \<equiv> 375"
abbreviation (input) CreateGas :: u64 where "CreateGas \<equiv> 32000"
abbreviation (input) Create2Gas :: u64 where "Create2Gas \<equiv> 32000"
abbreviation (input) SuicideRefundGas :: u64 where "SuicideRefundGas \<equiv> 24000"
abbreviation (input) MemoryGas :: u64 where "MemoryGas \<equiv> 3"
abbreviation (input) EcrecoverGas :: u64 where "EcrecoverGas \<equiv> 3000"
abbreviation (input) Sha256BaseGas :: u64 where "Sha256BaseGas \<equiv> 60"
abbreviation (input) Sha256PerWordGas :: u64 where "Sha256PerWordGas \<equiv> 12"
abbreviation (input) Ripemd160BaseGas :: u64 where "Ripemd160BaseGas \<equiv> 600"
abbreviation (input) Ripemd160PerWordGas :: u64 where "Ripemd160PerWordGas \<equiv> 120"
abbreviation (input) IdentityBaseGas :: u64 where "IdentityBaseGas \<equiv> 15"
abbreviation (input) IdentityPerWordGas :: u64 where "IdentityPerWordGas \<equiv> 3"
abbreviation (input) ModExpQuadCoeffDiv :: u64 where "ModExpQuadCoeffDiv \<equiv> 20"
abbreviation (input) Bn256AddGas :: u64 where "Bn256AddGas \<equiv> 500"
abbreviation (input) Bn256ScalarMulGas :: u64 where "Bn256ScalarMulGas \<equiv> 40000"
abbreviation (input) Bn256PairingBaseGas :: u64 where "Bn256PairingBaseGas \<equiv> 100000"
abbreviation (input) Bn256PairingPerPointGas :: u64 where "Bn256PairingPerPointGas \<equiv> 80000"
abbreviation (input) MaxCodeSize :: nat where "MaxCodeSize \<equiv> 24576"

section \<open>Gas tables\<close>

record GasTable =
  gt_ExtcodeSize :: u64
  gt_ExtcodeCopy :: u64
  gt_ExtcodeHash :: u64
  gt_Balance :: u64
  gt_SLoad :: u64
  gt_Calls :: u64
  gt_Suicide :: u64
  gt_ExpByte :: u64
  gt_CreateBySuicide :: u64

definition GasTableHomestead :: GasTable where
  "GasTableHomestead = \<lparr>gt_ExtcodeSize = 20,
     gt_ExtcodeCopy = 20,
     gt_ExtcodeHash = 0,
     gt_Balance = 20,
     gt_SLoad = 50,
     gt_Calls = 40,
     gt_Suicide = 0,
     gt_ExpByte = 10,
     gt_CreateBySuicide = 0\<rparr>"

definition GasTableEIP150 :: GasTable where
  "GasTableEIP150 = \<lparr>gt_ExtcodeSize = 700,
     gt_ExtcodeCopy = 700,
     gt_ExtcodeHash = 0,
     gt_Balance = 400,
     gt_SLoad = 200,
     gt_Calls = 700,
     gt_Suicide = 5000,
     gt_ExpByte = 10,
     gt_CreateBySuicide = 25000\<rparr>"

definition GasTableEIP158 :: GasTable where
  "GasTableEIP158 = \<lparr>gt_ExtcodeSize = 700,
     gt_ExtcodeCopy = 700,
     gt_ExtcodeHash = 0,
     gt_Balance = 400,
     gt_SLoad = 200,
     gt_Calls = 700,
     gt_Suicide = 5000,
     gt_ExpByte = 50,
     gt_CreateBySuicide = 25000\<rparr>"

definition GasTableConstantinople :: GasTable where
  "GasTableConstantinople = \<lparr>gt_ExtcodeSize = 700,
     gt_ExtcodeCopy = 700,
     gt_ExtcodeHash = 400,
     gt_Balance = 400,
     gt_SLoad = 200,
     gt_Calls = 700,
     gt_Suicide = 5000,
     gt_ExpByte = 50,
     gt_CreateBySuicide = 25000\<rparr>"

section \<open>Chain configuration\<close>

record CliqueConfig =
  Period :: u64
  Epoch :: u64

record ChainConfig =
  ChainID :: "int option"
  HomesteadBlock :: "int option"
  DAOForkBlock :: "int option"
  DAOForkSupport :: bool
  EIP150Block :: "int option"
  EIP150Hash :: bytes
  EIP155Block :: "int option"
  EIP158Block :: "int option"
  ByzantiumBlock :: "int option"
  ConstantinopleBlock :: "int option"
  PetersburgBlock :: "int option"
  EWASMBlock :: "int option"
  Ethash :: "unit option"
  Clique :: "CliqueConfig option"

definition isForked :: "int option \<Rightarrow> int option \<Rightarrow> bool" where
  "isForked s head = (case (s, head) of (Some a, Some h) \<Rightarrow> a \<le> h | _ \<Rightarrow> False)"

definition configNumEqual :: "int option \<Rightarrow> int option \<Rightarrow> bool" where
  "configNumEqual x y =
     (case x of None \<Rightarrow> y = None | Some a \<Rightarrow> (case y of None \<Rightarrow> False | Some b \<Rightarrow> a = b))"

definition isForkIncompatible :: "int option \<Rightarrow> int option \<Rightarrow> int option \<Rightarrow> bool" where
  "isForkIncompatible s1 s2 head \<longleftrightarrow>
     (isForked s1 head \<or> isForked s2 head) \<and> \<not> configNumEqual s1 s2"

definition IsHomestead :: "ChainConfig \<Rightarrow> int option \<Rightarrow> bool" where
  "IsHomestead c num = isForked (HomesteadBlock c) num"

definition IsDAOFork :: "ChainConfig \<Rightarrow> int option \<Rightarrow> bool" where
  "IsDAOFork c num = isForked (DAOForkBlock c) num"

definition IsEIP150 :: "ChainConfig \<Rightarrow> int option \<Rightarrow> bool" where
  "IsEIP150 c num = isForked (EIP150Block c) num"

definition IsEIP155 :: "ChainConfig \<Rightarrow> int option \<Rightarrow> bool" where
  "IsEIP155 c num = isForked (EIP155Block c) num"

definition IsEIP158 :: "ChainConfig \<Rightarrow> int option \<Rightarrow> bool" where
  "IsEIP158 c num = isForked (EIP158Block c) num"

definition IsByzantium :: "ChainConfig \<Rightarrow> int option \<Rightarrow> bool" where
  "IsByzantium c num = isForked (ByzantiumBlock c) num"

definition IsConstantinople :: "ChainConfig \<Rightarrow> int option \<Rightarrow> bool" where
  "IsConstantinople c num = isForked (ConstantinopleBlock c) num"

definition IsPetersburg :: "ChainConfig \<Rightarrow> int option \<Rightarrow> bool" where
  "IsPetersburg c num \<longleftrightarrow>
     isForked (PetersburgBlock c) num \<or>
     PetersburgBlock c = None \<and> isForked (ConstantinopleBlock c) num"

definition IsEWASM :: "ChainConfig \<Rightarrow> int option \<Rightarrow> bool" where
  "IsEWASM c num = isForked (EWASMBlock c) num"

definition ChainConfig_GasTable :: "ChainConfig \<Rightarrow> int option \<Rightarrow> GasTable" where
  "ChainConfig_GasTable c num =
     (if num = None then GasTableHomestead
      else if IsConstantinople c num then GasTableConstantinople
      else if IsEIP158 c num then GasTableEIP158
      else if IsEIP150 c num then GasTableEIP150
      else GasTableHomestead)"

record Rules =
  rChainID :: int
  rIsHomestead :: bool
  rIsEIP150 :: bool
  rIsEIP155 :: bool
  rIsEIP158 :: bool
  rIsByzantium :: bool
  rIsConstantinople :: bool
  rIsPetersburg :: bool

definition ChainConfig_Rules :: "ChainConfig \<Rightarrow> int option \<Rightarrow> Rules" where
  "ChainConfig_Rules c num =
     \<lparr>rChainID = (case ChainID c of None \<Rightarrow> 0 | Some i \<Rightarrow> i),
      rIsHomestead = IsHomestead c num,
      rIsEIP150 = IsEIP150 c num,
      rIsEIP155 = IsEIP155 c num,
      rIsEIP158 = IsEIP158 c num,
      rIsByzantium = IsByzantium c num,
      rIsConstantinople = IsConstantinople c num,
      rIsPetersburg = IsPetersburg c num\<rparr>"

section \<open>Compatibility of configurations\<close>

record ConfigCompatError =
  What :: string
  StoredConfig :: "int option"
  NewConfig :: "int option"
  RewindTo :: u64

definition newCompatError :: "string \<Rightarrow> int option \<Rightarrow> int option \<Rightarrow> ConfigCompatError" where
  "newCompatError what storedblock newblock =
     (let rew = (case storedblock of
                   None \<Rightarrow> newblock
                 | Some s \<Rightarrow> (case newblock of
                               None \<Rightarrow> storedblock
                             | Some n \<Rightarrow> if s < n then storedblock else newblock))
      in \<lparr>What = what, StoredConfig = storedblock, NewConfig = newblock,
          RewindTo = (case rew of None \<Rightarrow> 0 | Some r \<Rightarrow> if r > 0 then Uint64 r - 1 else 0)\<rparr>)"

definition checkCompatible :: "ChainConfig \<Rightarrow> ChainConfig \<Rightarrow> int option \<Rightarrow> ConfigCompatError option" where
  "checkCompatible c newcfg head =
     (if isForkIncompatible (HomesteadBlock c) (HomesteadBlock newcfg) head
        then Some (newCompatError ''Homestead fork block'' (HomesteadBlock c) (HomesteadBlock newcfg))
      else if isForkIncompatible (DAOForkBlock c) (DAOForkBlock newcfg) head
        then Some (newCompatError ''DAO fork block'' (DAOForkBlock c) (DAOForkBlock newcfg))
      else if IsDAOFork c head \<and> DAOForkSupport c \<noteq> DAOForkSupport newcfg
        then Some (newCompatError ''DAO fork support flag'' (DAOForkBlock c) (DAOForkBlock newcfg))
      else if isForkIncompatible (EIP150Block c) (EIP150Block newcfg) head
        then Some (newCompatError ''EIP150 fork block'' (EIP150Block c) (EIP150Block newcfg))
      else if isForkIncompatible (EIP155Block c) (EIP155Block newcfg) head
        then Some (newCompatError ''EIP155 fork block'' (EIP155Block c) (EIP155Block newcfg))
      else if isForkIncompatible (EIP158Block c) (EIP158Block newcfg) head
        then Some (newCompatError ''EIP158 fork block'' (EIP158Block c) (EIP158Block newcfg))
      else if IsEIP158 c head \<and> \<not> configNumEqual (ChainID c) (ChainID newcfg)
        then Some (newCompatError ''EIP158 chain ID'' (EIP158Block c) (EIP158Block newcfg))
      else if isForkIncompatible (ByzantiumBlock c) (ByzantiumBlock newcfg) head
        then Some (newCompatError ''Byzantium fork block'' (ByzantiumBlock c) (ByzantiumBlock newcfg))
      else if isForkIncompatible (ConstantinopleBlock c) (ConstantinopleBlock newcfg) head
        then Some (newCompatError ''Constantinople fork block''
                     (ConstantinopleBlock c) (ConstantinopleBlock newcfg))
      else if isForkIncompatible (PetersburgBlock c) (PetersburgBlock newcfg) head
        then Some (newCompatError ''Petersburg fork block'' (PetersburgBlock c) (PetersburgBlock newcfg))
      else if isForkIncompatible (EWASMBlock c) (EWASMBlock newcfg) head
        then Some (newCompatError ''ewasm fork block'' (EWASMBlock c) (EWASMBlock newcfg))
      else None)"

text \<open>
  A conflict at head \<open>h\<close> always names a block below \<open>h\<close> (or block 0): the fork that conflicts is
  active at \<open>h\<close> in one of the two configurations. This is what makes the search stop.
\<close>

lemma uint_u64_less: "uint (w :: u64) < 2 ^ 64"
  by (rule order_less_le_trans [OF uint_lt2p]) simp

lemma newCompatError_RewindTo:
  assumes "isForked s (Some h) \<or> isForked n (Some h)" "h < 2 ^ 64"
  shows "RewindTo (newCompatError w s n) = 0 \<or> int (unat (RewindTo (newCompatError w s n))) < h"
proof -
  define rew where "rew = (case s of None \<Rightarrow> n
    | Some a \<Rightarrow> (case n of None \<Rightarrow> s | Some b \<Rightarrow> if a < b then s else n))"
  obtain r where r: "rew = Some r" "r \<le> h"
    using assms(1) unfolding rew_def isForked_def
    by (cases s; cases n; cases "the s < the n") auto
  have eq: "RewindTo (newCompatError w s n) = (if r > 0 then Uint64 r - 1 else 0)"
    using r(1) by (simp add: newCompatError_def rew_def Let_def)
  show ?thesis
  proof (cases "r > 0")
    case True
    with r assms(2) have u: "unat (Uint64 r) = nat r" by (simp add: unat_Uint64 IsUint64_def)
    then have "(1 :: u64) \<le> Uint64 r" using True by (simp add: word_le_nat_alt)
    then have "unat (Uint64 r - 1) = nat r - 1" using u by (simp add: unat_sub)
    with True r eq show ?thesis by simp
  qed (simp add: eq)
qed

lemma checkCompatible_RewindTo:
  assumes "checkCompatible c n (Some h) = Some e" "h < 2 ^ 64"
  shows "RewindTo e = 0 \<or> int (unat (RewindTo e)) < h"
proof -
  have inc: "isForkIncompatible s t (Some h) \<Longrightarrow> isForked s (Some h) \<or> isForked t (Some h)" for s t
    by (auto simp: isForkIncompatible_def)
  from assms(1) obtain w s t where "e = newCompatError w s t"
    "isForked s (Some h) \<or> isForked t (Some h)"
    unfolding checkCompatible_def IsDAOFork_def IsEIP158_def
    by (auto split: if_splits dest: inc)
  with newCompatError_RewindTo assms(2) show ?thesis by blast
qed

text \<open>The loop of \<^verbatim>\<open>CheckCompatible\<close>; its variables are \<^verbatim>\<open>bhead\<close> and \<^verbatim>\<open>lasterr\<close>.\<close>

function check_loop ::
  "ChainConfig \<Rightarrow> ChainConfig \<Rightarrow> u64 \<Rightarrow> ConfigCompatError option \<Rightarrow> ConfigCompatError option" where
  "check_loop c newcfg bhead lasterr =
     (case checkCompatible c newcfg (Some (uint bhead)) of
        None \<Rightarrow> lasterr
      | Some err \<Rightarrow>
          if (case lasterr of None \<Rightarrow> False | Some l \<Rightarrow> RewindTo err = RewindTo l) then lasterr
          else check_loop c newcfg (RewindTo err) (Some err))"
  by pat_completeness auto
termination
proof (relation "measure (\<lambda>(c, n, b, l).
    2 * unat b + (case l of None \<Rightarrow> 1 | Some e \<Rightarrow> if RewindTo e = b then 0 else 1))")
  fix c newcfg and bhead :: u64 and lasterr :: "ConfigCompatError option" and err
  assume e: "checkCompatible c newcfg (Some (uint bhead)) = Some err"
    and l: "\<not> (case lasterr of None \<Rightarrow> False | Some l \<Rightarrow> RewindTo err = RewindTo l)"
  have "uint bhead < 2 ^ 64" by (rule uint_u64_less)
  from checkCompatible_RewindTo [OF e this]
  have "RewindTo err = 0 \<or> unat (RewindTo err) < unat bhead"
    unfolding uint_nat of_nat_less_iff .
  then consider "unat (RewindTo err) < unat bhead" | "RewindTo err = 0" "bhead = 0"
    using unat_gt_0 [of bhead] by auto
  then show "((c, newcfg, RewindTo err, Some err), (c, newcfg, bhead, lasterr)) \<in>
    measure (\<lambda>(c, n, b, l).
      2 * unat b + (case l of None \<Rightarrow> 1 | Some e \<Rightarrow> if RewindTo e = b then 0 else 1))"
  proof cases
    case 2
    with l show ?thesis by (auto split: option.splits)
  qed simp
qed simp

declare check_loop.simps [simp del]

definition CheckCompatible :: "ChainConfig \<Rightarrow> ChainConfig \<Rightarrow> u64 \<Rightarrow> ConfigCompatError option" where
  "CheckCompatible c newcfg height = check_loop c newcfg height None"

text \<open>Conflicts are monotone in the head, and each reported one begins right above its rewind block.\<close>

lemma isForked_mono: "isForked s (Some h) \<Longrightarrow> h \<le> h' \<Longrightarrow> isForked s (Some h')"
  by (auto simp: isForked_def split: option.splits)

lemma isForkIncompatible_mono:
  "isForkIncompatible s n (Some h) \<Longrightarrow> h \<le> h' \<Longrightarrow> isForkIncompatible s n (Some h')"
  unfolding isForkIncompatible_def using isForked_mono by blast

definition conflict :: "ChainConfig \<Rightarrow> ChainConfig \<Rightarrow> int option \<Rightarrow> bool" where
  "conflict c n head \<longleftrightarrow>
     (\<exists>f \<in> {HomesteadBlock, DAOForkBlock, EIP150Block, EIP155Block, EIP158Block, ByzantiumBlock,
            ConstantinopleBlock, PetersburgBlock, EWASMBlock}. isForkIncompatible (f c) (f n) head) \<or>
     isForked (DAOForkBlock c) head \<and> DAOForkSupport c \<noteq> DAOForkSupport n \<or>
     isForked (EIP158Block c) head \<and> ChainID c \<noteq> ChainID n"

lemma configNumEqual_iff: "configNumEqual x y \<longleftrightarrow> x = y"
  by (auto simp: configNumEqual_def split: option.splits)

lemma checkCompatible_None_iff: "checkCompatible c n head = None \<longleftrightarrow> \<not> conflict c n head"
  unfolding checkCompatible_def conflict_def IsDAOFork_def IsEIP158_def configNumEqual_iff
  by simp

lemma conflict_mono: "conflict c n (Some h) \<Longrightarrow> h \<le> h' \<Longrightarrow> conflict c n (Some h')"
  unfolding conflict_def using isForked_mono isForkIncompatible_mono by blast

lemma newCompatError_above:
  assumes "isForked s (Some h) \<or> isForked n (Some h)" "h < 2 ^ 64"
  shows "isForked s (Some (uint (RewindTo (newCompatError w s n)) + 1)) \<or>
         isForked n (Some (uint (RewindTo (newCompatError w s n)) + 1))"
proof -
  define rew where "rew = (case s of None \<Rightarrow> n
    | Some a \<Rightarrow> (case n of None \<Rightarrow> s | Some b \<Rightarrow> if a < b then s else n))"
  obtain r where r: "rew = Some r" "r \<le> h" "s = Some r \<or> n = Some r"
    using assms(1) unfolding rew_def isForked_def
    by (cases s; cases n; cases "the s < the n") auto
  have eq: "RewindTo (newCompatError w s n) = (if r > 0 then Uint64 r - 1 else 0)"
    using r(1) by (simp add: newCompatError_def rew_def Let_def)
  have "r \<le> uint (RewindTo (newCompatError w s n)) + 1"
  proof (cases "r > 0")
    case True
    with r assms(2) have u: "unat (Uint64 r) = nat r" by (simp add: unat_Uint64 IsUint64_def)
    then have "(1 :: u64) \<le> Uint64 r" using True by (simp add: word_le_nat_alt)
    then have "unat (Uint64 r - 1) = nat r - 1" using u by (simp add: unat_sub)
    then have "int (unat (Uint64 r - 1)) = r - 1" using True by simp
    then show ?thesis using eq True by simp
  qed (simp add: eq)
  with r(3) show ?thesis by (auto simp: isForked_def)
qed

lemma checkCompatible_above:
  assumes "checkCompatible c n (Some h) = Some e" "h < 2 ^ 64"
  shows "conflict c n (Some (uint (RewindTo e) + 1))"
proof -
  have inc: "isForkIncompatible s t (Some (uint (RewindTo (newCompatError w s t)) + 1))"
    if "isForkIncompatible s t (Some h)" for s t w
    using that newCompatError_above [OF _ assms(2)] unfolding isForkIncompatible_def by blast
  have same: "isForked s (Some (uint (RewindTo (newCompatError w s t)) + 1))"
    if "isForked s (Some h)" "\<not> isForkIncompatible s t (Some h)" for s t w
  proof -
    from that have "s = t" by (auto simp: isForkIncompatible_def configNumEqual_iff)
    with that newCompatError_above [OF _ assms(2), of s s] show ?thesis by blast
  qed
  show ?thesis
    using assms(1) unfolding checkCompatible_def IsDAOFork_def IsEIP158_def conflict_def
      configNumEqual_iff
    by (auto split: if_split_asm simp: inc same)
qed

lemma check_loop_Some:
  assumes "check_loop c n h l = Some e"
    and "\<And>e'. l = Some e' \<Longrightarrow> RewindTo e' = h \<and> conflict c n (Some (uint h + 1))"
  shows "(RewindTo e = 0 \<or> \<not> conflict c n (Some (uint (RewindTo e)))) \<and>
         conflict c n (Some (uint (RewindTo e) + 1))"
  using assms
proof (induction c n h l rule: check_loop.induct)
  case (1 c n h l)
  show ?case
  proof (cases "checkCompatible c n (Some (uint h))")
    case None
    with 1(2,3) show ?thesis
      by (auto simp: check_loop.simps [of c n h l] checkCompatible_None_iff)
  next
    case (Some err)
    note below = checkCompatible_RewindTo [OF Some uint_u64_less]
    show ?thesis
    proof (cases "\<exists>e'. l = Some e' \<and> RewindTo err = RewindTo e'")
      case True
      with 1(2) Some have "l = Some e" "RewindTo err = RewindTo e"
        by (auto simp: check_loop.simps [of c n h l])
      with 1(3) below show ?thesis by auto
    next
      case False
      with 1(2) Some have "check_loop c n (RewindTo err) (Some err) = Some e"
        by (auto simp: check_loop.simps [of c n h l] split: option.splits if_splits)
      moreover have "\<not> (case l of None \<Rightarrow> False | Some l \<Rightarrow> RewindTo err = RewindTo l)"
        using False by (simp split: option.split)
      ultimately show ?thesis
        using 1(1) [OF Some] checkCompatible_above [OF Some uint_u64_less] by blast
    qed
  qed
qed

lemma check_loop_not_None: "l \<noteq> None \<Longrightarrow> check_loop c n h l \<noteq> None"
proof (induction c n h l rule: check_loop.induct)
  case (1 c n h l)
  then show ?case
    by (subst check_loop.simps) (simp split: option.split)
qed

lemma CheckCompatible_None_iff:
  "CheckCompatible c n h = None \<longleftrightarrow> checkCompatible c n (Some (uint h)) = None"
  unfolding CheckCompatible_def
  by (subst check_loop.simps) (simp add: check_loop_not_None split: option.split)

text \<open>
  (C20) \<^verbatim>\<open>ChainConfig.CheckCompatible\<close> finds the latest compatible block: it reports no error exactly
  when the two configurations have no conflict at the given height, and when it reports one, its
  \<^verbatim>\<open>RewindTo\<close> is the last block without a conflict: every block up to it is free of conflicts (or it
  is block 0, below which there is nothing to rewind to) and every later block has one.
\<close>

theorem CheckCompatible_latest:
  "(CheckCompatible c n h = None \<longleftrightarrow> \<not> conflict c n (Some (uint h))) \<and>
   (CheckCompatible c n h = Some e \<longrightarrow>
      (RewindTo e = 0 \<or> (\<forall>b \<le> uint (RewindTo e). \<not> conflict c n (Some b))) \<and>
      (\<forall>b > uint (RewindTo e). conflict c n (Some b)))"
proof (intro conjI impI)
  show "CheckCompatible c n h = None \<longleftrightarrow> \<not> conflict c n (Some (uint h))"
    by (simp add: CheckCompatible_None_iff checkCompatible_None_iff)
  assume "CheckCompatible c n h = Some e"
  then have "(RewindTo e = 0 \<or> \<not> conflict c n (Some (uint (RewindTo e)))) \<and>
      conflict c n (Some (uint (RewindTo e) + 1))"
    unfolding CheckCompatible_def by (rule check_loop_Some) simp
  then show "RewindTo e = 0 \<or> (\<forall>b \<le> uint (RewindTo e). \<not> conflict c n (Some b))"
    and "\<forall>b > uint (RewindTo e). conflict c n (Some b)"
    using conflict_mono by (blast, meson zless_imp_add1_zle)
qed

definition cfg_all0 :: ChainConfig where
  "cfg_all0 = \<lparr>ChainID = Some 1, HomesteadBlock = Some 0, DAOForkBlock = None, DAOForkSupport = False,
     EIP150Block = Some 0, EIP150Hash = [], EIP155Block = Some 0, EIP158Block = Some 0,
     ByzantiumBlock = Some 0, ConstantinopleBlock = Some 0, PetersburgBlock = Some 0,
     EWASMBlock = None, Ethash = None, Clique = None\<rparr>"

lemma CheckCompatible_example:
  "CheckCompatible (cfg_all0\<lparr>ByzantiumBlock := Some 7\<rparr>) (cfg_all0\<lparr>ByzantiumBlock := Some 5\<rparr>) 10 =
   Some \<lparr>What = ''Byzantium fork block'', StoredConfig = Some 7, NewConfig = Some 5, RewindTo = 4\<rparr>"
  unfolding CheckCompatible_def
  by (subst check_loop.simps, subst check_loop.simps)
    (simp add: checkCompatible_def newCompatError_def isForkIncompatible_def isForked_def
      configNumEqual_def IsDAOFork_def IsEIP158_def cfg_all0_def Uint64_def)

theorem CheckCompatible_latest_witness:
  "CheckCompatible (cfg_all0\<lparr>ByzantiumBlock := Some 7\<rparr>) (cfg_all0\<lparr>ByzantiumBlock := Some 5\<rparr>) 10 \<noteq> None
   \<and> conflict (cfg_all0\<lparr>ByzantiumBlock := Some 7\<rparr>) (cfg_all0\<lparr>ByzantiumBlock := Some 5\<rparr>) (Some 5)
   \<and> \<not> conflict (cfg_all0\<lparr>ByzantiumBlock := Some 7\<rparr>) (cfg_all0\<lparr>ByzantiumBlock := Some 5\<rparr>) (Some 4)"
  using CheckCompatible_latest [of "cfg_all0\<lparr>ByzantiumBlock := Some 7\<rparr>"
      "cfg_all0\<lparr>ByzantiumBlock := Some 5\<rparr>" 10
      "\<lparr>What = ''Byzantium fork block'', StoredConfig = Some 7, NewConfig = Some 5, RewindTo = 4\<rparr>"]
  by (simp add: CheckCompatible_example)

end
