(* ===== verification/Rlp.thy ===== *)
theory Rlp
  imports Go_Common
begin

text \<open>
  \<^verbatim>\<open>Out/rlp/encode.go\<close>: the RLP encoder. The writer that reflection selects from the Go type of a value is
  selected here by the constructor of \<open>rlpval\<close>. As in the source, list headers are not written into
  the string buffer but collected, sized when their list ends, and merged by \<^verbatim>\<open>toBytes\<close>.
\<close>

section \<open>Buffers\<close>

record listhead =
  offset :: nat
  size_of_list :: nat

record encbuf =
  str :: bytes
  lheads :: "listhead list"
  lhsize :: nat

definition encbuf_reset :: encbuf where
  "encbuf_reset = \<lparr>str = [], lheads = [], lhsize = 0\<rparr>"

text \<open>The bytes \<^verbatim>\<open>putint\<close> writes; the size it returns is their number.\<close>

definition putint :: "u64 \<Rightarrow> bytes" where
  "putint i =
     (if i < push_bit 8 1 then [ucast i]
      else if i < push_bit 16 1 then [ucast (drop_bit 8 i), ucast i]
      else if i < push_bit 24 1 then [ucast (drop_bit 16 i), ucast (drop_bit 8 i), ucast i]
      else if i < push_bit 32 1 then
        [ucast (drop_bit 24 i), ucast (drop_bit 16 i), ucast (drop_bit 8 i), ucast i]
      else if i < push_bit 40 1 then
        [ucast (drop_bit 32 i), ucast (drop_bit 24 i), ucast (drop_bit 16 i), ucast (drop_bit 8 i),
         ucast i]
      else if i < push_bit 48 1 then
        [ucast (drop_bit 40 i), ucast (drop_bit 32 i), ucast (drop_bit 24 i), ucast (drop_bit 16 i),
         ucast (drop_bit 8 i), ucast i]
      else if i < push_bit 56 1 then
        [ucast (drop_bit 48 i), ucast (drop_bit 40 i), ucast (drop_bit 32 i), ucast (drop_bit 24 i),
         ucast (drop_bit 16 i), ucast (drop_bit 8 i), ucast i]
      else
        [ucast (drop_bit 56 i), ucast (drop_bit 48 i), ucast (drop_bit 40 i), ucast (drop_bit 32 i),
         ucast (drop_bit 24 i), ucast (drop_bit 16 i), ucast (drop_bit 8 i), ucast i])"

lemma unat_drop_bit_8_less: "drop_bit 8 (i :: u64) \<noteq> 0 \<Longrightarrow> unat (drop_bit 8 i) < unat i"
proof -
  assume nz: "drop_bit 8 i \<noteq> 0"
  have "unat (drop_bit 8 i) = unat i div 256"
    unfolding unat_drop_bit_eq by (simp add: drop_bit_eq_div)
  moreover from this nz have "unat i \<noteq> 0" by (metis div_0 unat_eq_zero)
  ultimately show ?thesis by simp
qed

function intsize_loop :: "u64 \<Rightarrow> nat \<Rightarrow> nat" where
  "intsize_loop i sz = (let i = drop_bit 8 i in if i = 0 then sz else intsize_loop i (sz + 1))"
  by pat_completeness auto
termination
  by (relation "measure (\<lambda>(i, _). unat i)") (simp_all add: unat_drop_bit_8_less)

declare intsize_loop.simps [simp del]

definition intsize :: "u64 \<Rightarrow> nat" where
  "intsize i = intsize_loop i 1"

definition headsize :: "u64 \<Rightarrow> nat" where
  "headsize sz = (if sz < 56 then 1 else 1 + intsize sz)"

text \<open>The bytes \<^verbatim>\<open>puthead\<close> writes to the start of its buffer.\<close>

definition puthead :: "byte \<Rightarrow> byte \<Rightarrow> u64 \<Rightarrow> bytes" where
  "puthead smalltag largetag sz =
     (if sz < 56 then [smalltag + ucast sz]
      else let b = putint sz in (largetag + word_of_nat (length b)) # b)"

definition listhead_encode :: "listhead \<Rightarrow> bytes" where
  "listhead_encode head = puthead 0xC0 0xF7 (word_of_nat (size_of_list head))"

definition encbuf_Write :: "encbuf \<Rightarrow> bytes \<Rightarrow> encbuf" where
  "encbuf_Write w b = w\<lparr>str := str w @ b\<rparr>"

definition encodeStringHeader :: "encbuf \<Rightarrow> nat \<Rightarrow> encbuf" where
  "encodeStringHeader w sz =
     (if sz < 56 then w\<lparr>str := str w @ [0x80 + word_of_nat sz]\<rparr>
      else let b = putint (word_of_nat sz)
           in w\<lparr>str := str w @ ((0xB7 + word_of_nat (length b)) # b)\<rparr>)"

definition encodeString :: "encbuf \<Rightarrow> bytes \<Rightarrow> encbuf" where
  "encodeString w b =
     (if length b = 1 \<and> b ! 0 \<le> 0x7F then w\<lparr>str := str w @ [b ! 0]\<rparr>
      else let w = encodeStringHeader w (length b) in w\<lparr>str := str w @ b\<rparr>)"

definition encbuf_size :: "encbuf \<Rightarrow> nat" where
  "encbuf_size w = length (str w) + lhsize w"

text \<open>\<^verbatim>\<open>list\<close> returns a pointer to the new header: its index.\<close>

definition encbuf_list :: "encbuf \<Rightarrow> encbuf \<times> nat" where
  "encbuf_list w =
     (w\<lparr>lheads := lheads w @ [\<lparr>offset = length (str w), size_of_list = lhsize w\<rparr>]\<rparr>,
      length (lheads w))"

definition listEnd :: "encbuf \<Rightarrow> nat \<Rightarrow> encbuf" where
  "listEnd w lh =
     (let h = lheads w ! lh;
          sz = encbuf_size w - offset h - size_of_list h;
          w = w\<lparr>lheads := (lheads w)[lh := h\<lparr>size_of_list := sz\<rparr>]\<rparr>
      in if sz < 56 then w\<lparr>lhsize := lhsize w + 1\<rparr>
         else w\<lparr>lhsize := lhsize w + (1 + intsize (word_of_nat sz))\<rparr>)"

text \<open>\<^verbatim>\<open>toBytes\<close>: \<open>out\<close> is the output buffer; writing a header past its end panics.\<close>

fun toBytes_loop :: "bytes \<Rightarrow> bytes \<Rightarrow> listhead list \<Rightarrow> nat \<Rightarrow> nat \<Rightarrow> (bytes \<times> nat \<times> nat) option" where
  "toBytes_loop s out [] pos strpos = Some (out, pos, strpos)"
| "toBytes_loop s out (head # heads) pos strpos =
     do {
       piece \<leftarrow> go_slice s strpos (offset head);
       let n = min (length piece) (length out - pos);
       let out = go_copy out pos piece;
       let enc = listhead_encode head;
       if pos + n + length enc \<le> length out
       then toBytes_loop s (go_copy out (pos + n) enc) heads (pos + n + length enc) (strpos + n)
       else None
     }"

definition toBytes :: "encbuf \<Rightarrow> bytes option" where
  "toBytes w =
     do {
       (out, pos, strpos) \<leftarrow> toBytes_loop (str w) (replicate (encbuf_size w) 0) (lheads w) 0 0;
       Some (go_copy out pos (drop strpos (str w)))
     }"

section \<open>Values and writers\<close>

datatype rlpval =
    VRaw bytes
  | VUint u64
  | VBool bool
  | VBigIntPtr "int option"
  | VBytes bytes
  | VString bytes
  | VNilInterface
  | VList "rlpval list"

definition writeUint :: "u64 \<Rightarrow> encbuf \<Rightarrow> encbuf" where
  "writeUint i w =
     (if i = 0 then w\<lparr>str := str w @ [0x80]\<rparr>
      else if i < 128 then w\<lparr>str := str w @ [ucast i]\<rparr>
      else let b = putint i in w\<lparr>str := str w @ ((0x80 + word_of_nat (length b)) # b)\<rparr>)"

definition writeBool :: "bool \<Rightarrow> encbuf \<Rightarrow> encbuf" where
  "writeBool v w = (if v then w\<lparr>str := str w @ [0x01]\<rparr> else w\<lparr>str := str w @ [0x80]\<rparr>)"

text \<open>The one error of the writers: a negative number (\<open>None\<close>).\<close>

definition writeBigInt :: "int \<Rightarrow> encbuf \<Rightarrow> encbuf option" where
  "writeBigInt i w =
     (if i < 0 then None
      else if i = 0 then Some (w\<lparr>str := str w @ [0x80]\<rparr>)
      else Some (encodeString w (Bytes i)))"

definition writeBigIntPtr :: "int option \<Rightarrow> encbuf \<Rightarrow> encbuf option" where
  "writeBigIntPtr ptr w =
     (case ptr of None \<Rightarrow> Some (w\<lparr>str := str w @ [0x80]\<rparr>) | Some i \<Rightarrow> writeBigInt i w)"

definition writeBytes :: "bytes \<Rightarrow> encbuf \<Rightarrow> encbuf" where
  "writeBytes b w = encodeString w b"

definition writeString :: "bytes \<Rightarrow> encbuf \<Rightarrow> encbuf" where
  "writeString s w =
     (if length s = 1 \<and> s ! 0 \<le> 0x7f then w\<lparr>str := str w @ [s ! 0]\<rparr>
      else let w = encodeStringHeader w (length s) in w\<lparr>str := str w @ s\<rparr>)"

fun writer :: "rlpval \<Rightarrow> encbuf \<Rightarrow> encbuf option"
  and write_elems :: "rlpval list \<Rightarrow> encbuf \<Rightarrow> encbuf option" where
  "writer (VRaw b) w = Some (w\<lparr>str := str w @ b\<rparr>)"
| "writer (VUint i) w = Some (writeUint i w)"
| "writer (VBool v) w = Some (writeBool v w)"
| "writer (VBigIntPtr p) w = writeBigIntPtr p w"
| "writer (VBytes b) w = Some (writeBytes b w)"
| "writer (VString s) w = Some (writeString s w)"
| "writer VNilInterface w = Some (w\<lparr>str := str w @ [0xC0]\<rparr>)"
| "writer (VList vs) w =
     do {
       let (w, lh) = encbuf_list w;
       w \<leftarrow> write_elems vs w;
       Some (listEnd w lh)
     }"
| "write_elems [] w = Some w"
| "write_elems (v # vs) w = do { w \<leftarrow> writer v w; write_elems vs w }"

text \<open>\<^verbatim>\<open>EncodeToBytes\<close>: \<open>Inl ()\<close> is the error of a writer; the outer \<open>None\<close> a panic.\<close>

definition EncodeToBytes :: "rlpval \<Rightarrow> (unit + bytes) option" where
  "EncodeToBytes v =
     (case writer v encbuf_reset of
        None \<Rightarrow> Some (Inl ())
      | Some w \<Rightarrow> do { b \<leftarrow> toBytes w; Some (Inr b) })"

end
