(* ===== verification/Crypto.thy ===== *)
theory Crypto
  imports Rlp
begin

text \<open>
  \<^verbatim>\<open>Out/crypto/crypto.go\<close>, as far as the virtual machine uses it: hashing and the derivation of contract
  addresses. The hash functions, the signature recovery and the pairing curve are libraries:
  they are the fields of the parameter record \<open>crypto\<close>, and what is used of them is the hypothesis
  \<open>crypto_ok\<close> (documented output lengths). A point of the curve or its twist is given by its marshalled
  form; \<open>None\<close> is an error.
\<close>

record crypto =
  keccak256 :: "bytes \<Rightarrow> bytes"
  sha256_Sum256 :: "bytes \<Rightarrow> bytes"
  ripemd160_Sum :: "bytes \<Rightarrow> bytes"
  Ecrecover :: "bytes \<Rightarrow> bytes \<Rightarrow> bytes option"
  G1_Unmarshal :: "bytes \<Rightarrow> bytes option"
  G2_Unmarshal :: "bytes \<Rightarrow> bytes option"
  G1_Add :: "bytes \<Rightarrow> bytes \<Rightarrow> bytes"
  G1_ScalarMult :: "bytes \<Rightarrow> int \<Rightarrow> bytes"
  PairingCheck :: "bytes list \<Rightarrow> bytes list \<Rightarrow> bool"

definition crypto_ok :: "crypto \<Rightarrow> bool" where
  "crypto_ok cr \<longleftrightarrow>
     (\<forall>x. length (keccak256 cr x) = 32) \<and> (\<forall>x. length (sha256_Sum256 cr x) = 32) \<and>
     (\<forall>x. length (ripemd160_Sum cr x) = 20) \<and>
     (\<forall>h s p. Ecrecover cr h s = Some p \<longrightarrow> length p = 65)"

definition Keccak256 :: "crypto \<Rightarrow> bytes list \<Rightarrow> bytes" where
  "Keccak256 cr ds = keccak256 cr (concat ds)"

definition Keccak256Hash :: "crypto \<Rightarrow> bytes list \<Rightarrow> Hash" where
  "Keccak256Hash cr ds = go_copy zeroHash 0 (keccak256 cr (concat ds))"

definition CreateAddress :: "crypto \<Rightarrow> Address \<Rightarrow> u64 \<Rightarrow> Address option" where
  "CreateAddress cr b nonce =
     do {
       r \<leftarrow> EncodeToBytes (VList [VBytes b, VUint nonce]);
       let enc = (case r of Inl _ \<Rightarrow> [] | Inr bs \<Rightarrow> bs);
       let h = Keccak256 cr [enc];
       tail \<leftarrow> go_slice h 12 (length h);
       Some (BytesToAddress tail)
     }"

definition CreateAddress2 :: "crypto \<Rightarrow> Address \<Rightarrow> bytes \<Rightarrow> bytes \<Rightarrow> Address option" where
  "CreateAddress2 cr b salt inithash =
     do {
       let h = Keccak256 cr [[0xff], b, salt, inithash];
       tail \<leftarrow> go_slice h 12 (length h);
       Some (BytesToAddress tail)
     }"

text \<open>The order of the curve secp256k1.\<close>

definition secp256k1N :: int where
  "secp256k1N = 0xfffffffffffffffffffffffffffffffebaaedce6af48a03bbfd25e8cd0364141"

definition secp256k1halfN :: int where
  "secp256k1halfN = secp256k1N div 2"

definition ValidateSignatureValues :: "byte \<Rightarrow> int \<Rightarrow> int \<Rightarrow> bool \<Rightarrow> bool" where
  "ValidateSignatureValues v r s homestead =
     (if r < 1 \<or> s < 1 then False
      else if homestead \<and> s > secp256k1halfN then False
      else r < secp256k1N \<and> s < secp256k1N \<and> (v = 0 \<or> v = 1))"

lemma crypto_ok_lengths [simp]:
  "crypto_ok cr \<Longrightarrow> length (keccak256 cr x) = 32"
  "crypto_ok cr \<Longrightarrow> length (sha256_Sum256 cr x) = 32"
  "crypto_ok cr \<Longrightarrow> length (ripemd160_Sum cr x) = 20"
  by (simp_all add: crypto_ok_def)

lemma Keccak256_length [simp, len_simps]: "crypto_ok cr \<Longrightarrow> length (Keccak256 cr ds) = 32"
  by (simp add: Keccak256_def)

lemma Keccak256Hash_eq: "crypto_ok cr \<Longrightarrow> Keccak256Hash cr ds = Keccak256 cr ds"
  by (simp add: Keccak256Hash_def Keccak256_def go_copy_def)

lemma length_Keccak256Hash [simp, len_simps]: "length (Keccak256Hash cr ds) = 32"
  by (simp add: Keccak256Hash_def)

lemma CreateAddress2_total:
  assumes "crypto_ok cr"
  shows "CreateAddress2 cr b salt inithash =
    Some (drop 12 (Keccak256 cr [[0xff], b, salt, inithash]))"
  using assms by (simp add: CreateAddress2_def go_slice_def Let_def BytesToAddress_id)

end
