(* ===== verification/Chain_Configs.thy ===== *)
theory Chain_Configs
  imports Params Crypto
begin

text \<open>
  The networks that \<^verbatim>\<open>Out/params/config.go\<close> ships: their genesis hashes, chain configurations, trusted
  checkpoints and checkpoint oracles.
\<close>

section \<open>Chain configurations\<close>

definition MainnetGenesisHash :: Hash where
  "MainnetGenesisHash = HexToHash ''0xd4e56740f876aef8c010b86a40d5f56745a118d0906a34e69aec8c0db1cb8fa3''"

definition TestnetGenesisHash :: Hash where
  "TestnetGenesisHash = HexToHash ''0x41941023680923e0fe4d74a34bdac8141f2540e3ae90623718e47d66d1ca4a2d''"

definition RinkebyGenesisHash :: Hash where
  "RinkebyGenesisHash = HexToHash ''0x6341fd3daf94b748c72ced5a5b26028f2474f5f00d824504e4fa37a75767e177''"

definition GoerliGenesisHash :: Hash where
  "GoerliGenesisHash = HexToHash ''0xbf7e331f7f7c1dd2e05159666b3bf8bc7a8a3a9eb1d518969eab529dd9b88c1a''"

definition MainnetChainConfig :: ChainConfig where
  "MainnetChainConfig = \<lparr>ChainID = Some 1, HomesteadBlock = Some 1150000, DAOForkBlock = Some 1920000, DAOForkSupport = True,
     EIP150Block = Some 2463000, EIP150Hash = HexToHash ''0x2086799aeebeae135c246c65021c82b4e15a2c451340993aacfd2751886514f0'',
     EIP155Block = Some 2675000, EIP158Block = Some 2675000, ByzantiumBlock = Some 4370000, ConstantinopleBlock = Some 7280000, PetersburgBlock = Some 7280000,
     EWASMBlock = None, Ethash = Some (), Clique = None\<rparr>"

definition TestnetChainConfig :: ChainConfig where
  "TestnetChainConfig = \<lparr>ChainID = Some 3, HomesteadBlock = Some 0, DAOForkBlock = None, DAOForkSupport = True,
     EIP150Block = Some 0, EIP150Hash = HexToHash ''0x41941023680923e0fe4d74a34bdac8141f2540e3ae90623718e47d66d1ca4a2d'',
     EIP155Block = Some 10, EIP158Block = Some 10, ByzantiumBlock = Some 1700000, ConstantinopleBlock = Some 4230000, PetersburgBlock = Some 4939394,
     EWASMBlock = None, Ethash = Some (), Clique = None\<rparr>"

definition RinkebyChainConfig :: ChainConfig where
  "RinkebyChainConfig = \<lparr>ChainID = Some 4, HomesteadBlock = Some 1, DAOForkBlock = None, DAOForkSupport = True,
     EIP150Block = Some 2, EIP150Hash = HexToHash ''0x9b095b36c15eaf13044373aef8ee0bd3a382a5abb92e402afa44b8249c3a90e9'',
     EIP155Block = Some 3, EIP158Block = Some 3, ByzantiumBlock = Some 1035301, ConstantinopleBlock = Some 3660663, PetersburgBlock = Some 4321234,
     EWASMBlock = None, Ethash = None, Clique = Some \<lparr>Period = 15, Epoch = 30000\<rparr>\<rparr>"

definition GoerliChainConfig :: ChainConfig where
  "GoerliChainConfig = \<lparr>ChainID = Some 5, HomesteadBlock = Some 0, DAOForkBlock = None, DAOForkSupport = True,
     EIP150Block = Some 0, EIP150Hash = zeroHash,
     EIP155Block = Some 0, EIP158Block = Some 0, ByzantiumBlock = Some 0, ConstantinopleBlock = Some 0, PetersburgBlock = Some 0,
     EWASMBlock = None, Ethash = None, Clique = Some \<lparr>Period = 15, Epoch = 30000\<rparr>\<rparr>"

definition AllEthashProtocolChanges :: ChainConfig where
  "AllEthashProtocolChanges = \<lparr>ChainID = Some 1337, HomesteadBlock = Some 0, DAOForkBlock = None, DAOForkSupport = False,
     EIP150Block = Some 0, EIP150Hash = zeroHash,
     EIP155Block = Some 0, EIP158Block = Some 0, ByzantiumBlock = Some 0, ConstantinopleBlock = Some 0, PetersburgBlock = Some 0,
     EWASMBlock = None, Ethash = Some (), Clique = None\<rparr>"

definition AllCliqueProtocolChanges :: ChainConfig where
  "AllCliqueProtocolChanges = \<lparr>ChainID = Some 1337, HomesteadBlock = Some 0, DAOForkBlock = None, DAOForkSupport = False,
     EIP150Block = Some 0, EIP150Hash = zeroHash,
     EIP155Block = Some 0, EIP158Block = Some 0, ByzantiumBlock = Some 0, ConstantinopleBlock = Some 0, PetersburgBlock = Some 0,
     EWASMBlock = None, Ethash = None, Clique = Some \<lparr>Period = 0, Epoch = 30000\<rparr>\<rparr>"

definition TestChainConfig :: ChainConfig where
  "TestChainConfig = \<lparr>ChainID = Some 1, HomesteadBlock = Some 0, DAOForkBlock = None, DAOForkSupport = False,
     EIP150Block = Some 0, EIP150Hash = zeroHash,
     EIP155Block = Some 0, EIP158Block = Some 0, ByzantiumBlock = Some 0, ConstantinopleBlock = Some 0, PetersburgBlock = Some 0,
     EWASMBlock = None, Ethash = Some (), Clique = None\<rparr>"

definition TestRules :: Rules where
  "TestRules = ChainConfig_Rules TestChainConfig (Some 0)"

section \<open>Checkpoints\<close>

record TrustedCheckpoint =
  SectionIndex :: u64
  SectionHead :: Hash
  CHTRoot :: Hash
  BloomRoot :: Hash

record CheckpointOracleConfig =
  co_Address :: Address
  Signers :: "Address list"
  Threshold :: u64

definition TrustedCheckpoint_Empty :: "TrustedCheckpoint \<Rightarrow> bool" where
  "TrustedCheckpoint_Empty c \<longleftrightarrow> SectionHead c = zeroHash \<or> CHTRoot c = zeroHash \<or> BloomRoot c = zeroHash"

text \<open>\<^verbatim>\<open>binary.BigEndian.PutUint64\<close> writes the eight bytes of the index.\<close>

definition PutUint64 :: "u64 \<Rightarrow> bytes" where
  "PutUint64 v = map (\<lambda>i. ucast (drop_bit (8 * (7 - i)) v)) [0..<8]"

definition TrustedCheckpoint_Hash :: "crypto \<Rightarrow> TrustedCheckpoint \<Rightarrow> Hash" where
  "TrustedCheckpoint_Hash cr c =
     (let buf = replicate (8 + 3 * HashLength) 0;
          buf = go_copy buf 0 (PutUint64 (SectionIndex c));
          buf = go_copy buf 8 (SectionHead c);
          buf = go_copy buf (8 + HashLength) (CHTRoot c);
          buf = go_copy buf (8 + 2 * HashLength) (BloomRoot c)
      in Keccak256Hash cr [buf])"

definition HashEqual :: "crypto \<Rightarrow> TrustedCheckpoint \<Rightarrow> Hash \<Rightarrow> bool" where
  "HashEqual cr c h \<longleftrightarrow>
     (if TrustedCheckpoint_Empty c then h = zeroHash else TrustedCheckpoint_Hash cr c = h)"

definition MainnetTrustedCheckpoint :: TrustedCheckpoint where
  "MainnetTrustedCheckpoint = \<lparr>SectionIndex = 249,
     SectionHead = HexToHash ''0x0d656b0cc0e9901c9dfc6b6944962ad10286969b5e65cff2b21228ffa3201b45'',
     CHTRoot = HexToHash ''0xe97cdc4a54f6bcae09acd8f7d9b2fecc6baa58cc30e12fc1c848d4b736060389'',
     BloomRoot = HexToHash ''0xe028d4fe19fccd10c845b609dbed0778217298c352e3f588aa1351e9e7b836ca''\<rparr>"

definition TestnetTrustedCheckpoint :: TrustedCheckpoint where
  "TestnetTrustedCheckpoint = \<lparr>SectionIndex = 183,
     SectionHead = HexToHash ''0xe1eb8c31b8d370db4562a5246ffd220d44540581d2365b96615293e4795184fd'',
     CHTRoot = HexToHash ''0x1e5902d1680f543ac23ebae2663a3d45daad0de5329c8921ebe295e602afe81e'',
     BloomRoot = HexToHash ''0xae53ddf3574792a7fad53b3ceb03867facc4a67d25bb6dae9ddd0bd53a0ad027''\<rparr>"

definition RinkebyTrustedCheckpoint :: TrustedCheckpoint where
  "RinkebyTrustedCheckpoint = \<lparr>SectionIndex = 144,
     SectionHead = HexToHash ''0x38cc2e339462919179e5ca9f88408ee481eb1750a143bdbf4f33c00f2064935a'',
     CHTRoot = HexToHash ''0x889c6b1e4d9e312d3145d104e7f58f52d1854e8dafb2f0b90e0c1d8b71bce97b'',
     BloomRoot = HexToHash ''0xb7ae54ba64f359b78dfc3e8a61fc44e68758568e7f54b849fa474caa45efa9b9''\<rparr>"

definition GoerliTrustedCheckpoint :: TrustedCheckpoint where
  "GoerliTrustedCheckpoint = \<lparr>SectionIndex = 28,
     SectionHead = HexToHash ''0x5baedfb5006507906cce3b6487080c810aa79806b0388c3671ee6d56694a591e'',
     CHTRoot = HexToHash ''0x89ff7aabc7a0a13c25aeb1e3e333063acf80473a571e465d7c884b183a67e717'',
     BloomRoot = HexToHash ''0x56eccfd9171d2df3e62ffd61c442dfb69b603b1f28fbb267c28b3444fdeae6c6''\<rparr>"

definition MainnetCheckpointOracle :: CheckpointOracleConfig where
  "MainnetCheckpointOracle = \<lparr>co_Address = HexToAddress ''0x9a9070028361F7AAbeB3f2F2Dc07F82C4a98A02a'',
     Signers = [HexToAddress ''0x1b2C260efc720BE89101890E4Db589b44E950527'',
       HexToAddress ''0x78d1aD571A1A09D60D9BBf25894b44e4C8859595'',
       HexToAddress ''0x286834935f4A8Cfb4FF4C77D5770C2775aE2b0E7'',
       HexToAddress ''0xb86e2B0Ab5A4B1373e40c51A7C712c70Ba2f9f8E'',
       HexToAddress ''0x0DF8fa387C602AE62559cC4aFa4972A7045d6707''],
     Threshold = 2\<rparr>"

definition TestnetCheckpointOracle :: CheckpointOracleConfig where
  "TestnetCheckpointOracle = \<lparr>co_Address = HexToAddress ''0xEF79475013f154E6A65b54cB2742867791bf0B84'',
     Signers = [HexToAddress ''0x32162F3581E88a5f62e8A61892B42C46E2c18f7b'',
       HexToAddress ''0x78d1aD571A1A09D60D9BBf25894b44e4C8859595'',
       HexToAddress ''0x286834935f4A8Cfb4FF4C77D5770C2775aE2b0E7'',
       HexToAddress ''0xb86e2B0Ab5A4B1373e40c51A7C712c70Ba2f9f8E'',
       HexToAddress ''0x0DF8fa387C602AE62559cC4aFa4972A7045d6707''],
     Threshold = 2\<rparr>"

definition RinkebyCheckpointOracle :: CheckpointOracleConfig where
  "RinkebyCheckpointOracle = \<lparr>co_Address = HexToAddress ''0xebe8eFA441B9302A0d7eaECc277c09d20D684540'',
     Signers = [HexToAddress ''0xd9c9cd5f6779558b6e0ed4e6acf6b1947e7fa1f3'',
       HexToAddress ''0x78d1aD571A1A09D60D9BBf25894b44e4C8859595'',
       HexToAddress ''0x286834935f4A8Cfb4FF4C77D5770C2775aE2b0E7'',
       HexToAddress ''0xb86e2B0Ab5A4B1373e40c51A7C712c70Ba2f9f8E''],
     Threshold = 2\<rparr>"

definition GoerliCheckpointOracle :: CheckpointOracleConfig where
  "GoerliCheckpointOracle = \<lparr>co_Address = HexToAddress ''0x18CA0E045F0D772a851BC7e48357Bcaab0a0795D'',
     Signers = [HexToAddress ''0x4769bcaD07e3b938B7f43EB7D278Bc7Cb9efFb38'',
       HexToAddress ''0x78d1aD571A1A09D60D9BBf25894b44e4C8859595'',
       HexToAddress ''0x286834935f4A8Cfb4FF4C77D5770C2775aE2b0E7'',
       HexToAddress ''0xb86e2B0Ab5A4B1373e40c51A7C712c70Ba2f9f8E'',
       HexToAddress ''0x0DF8fa387C602AE62559cC4aFa4972A7045d6707''],
     Threshold = 2\<rparr>"

definition TrustedCheckpoints :: "Hash \<Rightarrow> TrustedCheckpoint option" where
  "TrustedCheckpoints = [MainnetGenesisHash \<mapsto> MainnetTrustedCheckpoint, TestnetGenesisHash \<mapsto> TestnetTrustedCheckpoint,
     RinkebyGenesisHash \<mapsto> RinkebyTrustedCheckpoint, GoerliGenesisHash \<mapsto> GoerliTrustedCheckpoint]"

definition CheckpointOracles :: "Hash \<Rightarrow> CheckpointOracleConfig option" where
  "CheckpointOracles = [MainnetGenesisHash \<mapsto> MainnetCheckpointOracle, TestnetGenesisHash \<mapsto> TestnetCheckpointOracle,
     RinkebyGenesisHash \<mapsto> RinkebyCheckpointOracle, GoerliGenesisHash \<mapsto> GoerliCheckpointOracle]"

end
