(* ===== verification/Stack.thy ===== *)
theory Stack
  imports Go_Math Params
begin

text \<open>
  \<^verbatim>\<open>stack.go\<close> and \<^verbatim>\<open>stack_table.go\<close>: the operand stack and the stack bounds of the instruction table. The
  slice \<^verbatim>\<open>data\<close> keeps the order of the code, bottom first. An index out of range panics (\<open>None\<close>). The locale
  \<open>lifo\<close> is the contract the instructions rely on; it is interpreted on the operations of this file.
  The pool of integers (\<^verbatim>\<open>intpool.go\<close>) recycles \<^verbatim>\<open>big.Int\<close> allocations: an element is a value here,
  so \<^verbatim>\<open>dup\<close> has no pool argument.
\<close>

record Stack =
  data :: "int list"

definition newstack :: Stack where
  "newstack = \<lparr>data = []\<rparr>"

definition push :: "Stack \<Rightarrow> int \<Rightarrow> Stack" where
  "push st d = st\<lparr>data := data st @ [d]\<rparr>"

definition pushN :: "Stack \<Rightarrow> int list \<Rightarrow> Stack" where
  "pushN st ds = st\<lparr>data := data st @ ds\<rparr>"

definition pop :: "Stack \<Rightarrow> (int \<times> Stack) option" where
  "pop st = (if length (data st) = 0 then None
             else Some (data st ! (length (data st) - 1),
                        st\<lparr>data := take (length (data st) - 1) (data st)\<rparr>))"

definition Stack_len :: "Stack \<Rightarrow> nat" where
  "Stack_len st = length (data st)"

definition swap :: "Stack \<Rightarrow> nat \<Rightarrow> Stack option" where
  "swap st n =
     (if 1 \<le> n \<and> n \<le> Stack_len st
      then (let i = Stack_len st - n; j = Stack_len st - 1;
                a = data st ! j; b = data st ! i
            in Some (st\<lparr>data := (data st)[i := a, j := b]\<rparr>))
      else None)"

definition dup :: "Stack \<Rightarrow> nat \<Rightarrow> Stack option" where
  "dup st n = (if 1 \<le> n \<and> n \<le> Stack_len st
               then Some (push st (data st ! (Stack_len st - n))) else None)"

definition peek :: "Stack \<Rightarrow> int option" where
  "peek st = (if Stack_len st = 0 then None else Some (data st ! (Stack_len st - 1)))"

definition Back :: "Stack \<Rightarrow> nat \<Rightarrow> int option" where
  "Back st n = (if n < Stack_len st then Some (data st ! (Stack_len st - n - 1)) else None)"

text \<open>\<^verbatim>\<open>peek\<close> hands out a pointer to the top element; the instructions overwrite the element through it.\<close>

definition set_peek :: "Stack \<Rightarrow> int \<Rightarrow> Stack option" where
  "set_peek st v = (if Stack_len st = 0 then None
                    else Some (st\<lparr>data := (data st)[Stack_len st - 1 := v]\<rparr>))"

definition require_err :: "Stack \<Rightarrow> nat \<Rightarrow> (nat \<times> nat) option" where
  "require_err st n = (if Stack_len st < n then Some (length (data st), n) else None)"

section \<open>Stack bounds of the instruction table\<close>

definition maxStack :: "nat \<Rightarrow> nat \<Rightarrow> int" where
  "maxStack p u = uint StackLimit + int p - int u"

definition minStack :: "nat \<Rightarrow> nat \<Rightarrow> int" where
  "minStack p u = int p"

definition minSwapStack :: "nat \<Rightarrow> int" where
  "minSwapStack n = minStack n n"

definition maxSwapStack :: "nat \<Rightarrow> int" where
  "maxSwapStack n = maxStack n n"

definition minDupStack :: "nat \<Rightarrow> int" where
  "minDupStack n = minStack n (n + 1)"

definition maxDupStack :: "nat \<Rightarrow> int" where
  "maxDupStack n = maxStack n (n + 1)"

section \<open>The contract of the stack\<close>

locale lifo =
  fixes items :: "'s \<Rightarrow> 'a list"
    and len :: "'s \<Rightarrow> nat"
    and psh :: "'s \<Rightarrow> 'a \<Rightarrow> 's"
    and pp :: "'s \<Rightarrow> ('a \<times> 's) option"
    and bck :: "'s \<Rightarrow> nat \<Rightarrow> 'a option"
  assumes len_items: "len s = length (items s)"
    and psh_items: "items (psh s x) = x # items s"
    and pp_empty: "items s = [] \<Longrightarrow> pp s = None"
    and pp_items: "items s = x # xs \<Longrightarrow> \<exists>s'. pp s = Some (x, s') \<and> items s' = xs"
    and bck_items: "bck s n = (if n < length (items s) then Some (items s ! n) else None)"
begin

lemma pp_SomeD: "pp s = Some (x, s') \<Longrightarrow> items s = x # items s'"
  using pp_empty [of s] pp_items [of s] by (cases "items s") auto

lemma pp_total: "0 < len s \<Longrightarrow> \<exists>x s'. pp s = Some (x, s') \<and> items s = x # items s'"
  using pp_items [of s] by (cases "items s") (auto simp: len_items)

lemma pp_None_iff: "pp s = None \<longleftrightarrow> len s = 0"
  using pp_empty [of s] pp_items [of s] by (cases "items s") (auto simp: len_items)

lemma pp_psh: "\<exists>s'. pp (psh s x) = Some (x, s') \<and> items s' = items s"
  using pp_items [OF psh_items] .

lemma bck_psh: "bck (psh s x) n = (case n of 0 \<Rightarrow> Some x | Suc m \<Rightarrow> bck s m)"
  by (auto simp: bck_items psh_items split: nat.split)

lemma bck_pp: "pp s = Some (x, s') \<Longrightarrow> bck s (Suc n) = bck s' n \<and> bck s 0 = Some x"
  by (drule pp_SomeD) (simp add: bck_items)

lemma bck_total: "n < len s \<Longrightarrow> \<exists>x. bck s n = Some x \<and> x \<in> set (items s)"
  by (simp add: bck_items len_items)

lemma bck_None_iff: "bck s n = None \<longleftrightarrow> len s \<le> n"
  by (simp add: bck_items len_items not_less)

end

text \<open>The items of a stack, top first.\<close>

definition items :: "Stack \<Rightarrow> int list" where
  "items st = rev (data st)"

interpretation st: lifo items Stack_len push pop Back
proof unfold_locales
  show "Stack_len s = length (items s)" for s by (simp add: Stack_len_def items_def)
  show "items (push s x) = x # items s" for s x by (simp add: items_def push_def)
  show "items s = [] \<Longrightarrow> pop s = None" for s by (simp add: pop_def items_def)
  show "items s = x # xs \<Longrightarrow> \<exists>s'. pop s = Some (x, s') \<and> items s' = xs" for s x xs
    by (cases "data s" rule: rev_cases) (simp_all add: pop_def items_def)
  show "Back s n = (if n < length (items s) then Some (items s ! n) else None)" for s n
    by (simp add: Back_def items_def Stack_len_def rev_nth)
qed

text \<open>
  A stack given by its items, top first: the form in which the behaviour of the instructions is
  stated. The bundle \<open>stk_simps\<close> executes the stack operations on it.
\<close>

definition stk :: "int list \<Rightarrow> Stack" where
  "stk xs = \<lparr>data = rev xs\<rparr>"

lemma stk_items [simp]: "stk (items s) = s"
  by (simp add: stk_def items_def)

lemma items_stk [simp]: "items (stk xs) = xs"
  by (simp add: stk_def items_def)

lemma stk_inject [simp]: "stk xs = stk ys \<longleftrightarrow> xs = ys"
  by (simp add: stk_def)

lemma stk_cases: obtains xs where "s = stk xs"
  using stk_items by metis

lemma newstack_stk: "newstack = stk []"
  by (simp add: newstack_def stk_def)

lemma push_stk: "push (stk xs) x = stk (x # xs)"
  by (simp add: push_def stk_def)

lemma pushN_stk: "pushN (stk xs) ds = stk (rev ds @ xs)"
  by (simp add: pushN_def stk_def)

lemma pop_stk: "pop (stk (x # xs)) = Some (x, stk xs)" "pop (stk []) = None"
  by (simp_all add: pop_def stk_def nth_append)

lemma peek_stk: "peek (stk (x # xs)) = Some x" "peek (stk []) = None"
  by (simp_all add: peek_def stk_def nth_append Stack_len_def)

lemma set_peek_stk: "set_peek (stk (x # xs)) v = Some (stk (v # xs))" "set_peek (stk []) v = None"
  by (simp_all add: set_peek_def stk_def Stack_len_def list_update_append)

lemma Stack_len_stk: "Stack_len (stk xs) = length xs"
  by (simp add: Stack_len_def stk_def)

lemma Back_stk: "Back (stk xs) n = (if n < length xs then Some (xs ! n) else None)"
  using st.bck_items [of "stk xs" n] by simp

lemma dup_stk: "dup (stk xs) n = (if 1 \<le> n \<and> n \<le> length xs then Some (stk (xs ! (n - 1) # xs)) else None)"
  by (auto simp: dup_def push_def stk_def Stack_len_def rev_nth)

lemma swap_stk:
  "swap (stk xs) n =
     (if 1 \<le> n \<and> n \<le> length xs then Some (stk (xs[0 := xs ! (n - 1), n - 1 := xs ! 0])) else None)"
proof (cases "1 \<le> n \<and> n \<le> length xs")
  case True
  then have "xs \<noteq> []" by auto
  with True have "(rev xs)[length xs - n := xs ! 0, length xs - 1 := xs ! (n - 1)] =
      rev (xs[0 := xs ! (n - 1), n - 1 := xs ! 0])"
    by (intro nth_equalityI) (auto simp: nth_list_update rev_nth)
  moreover from True \<open>xs \<noteq> []\<close> have "rev xs ! (length xs - 1) = xs ! 0" "rev xs ! (length xs - n) = xs ! (n - 1)"
    by (simp_all add: rev_nth)
  ultimately show ?thesis using True by (simp add: swap_def stk_def Stack_len_def Let_def)
qed (auto simp: swap_def Stack_len_stk)

lemmas stk_simps = newstack_stk push_stk pushN_stk pop_stk peek_stk set_peek_stk Stack_len_stk
  Back_stk dup_stk swap_stk

end
