(* ===== verification/Memory.thy ===== *)
theory Memory
  imports Go_Common Stack
begin

text \<open>
  \<^verbatim>\<open>memory.go\<close> and \<^verbatim>\<open>memory_table.go\<close>: the byte memory of a call frame and the functions that compute, from
  the stack, the memory an instruction needs. \<^verbatim>\<open>offset\<close> and \<^verbatim>\<open>size\<close> of \<^verbatim>\<open>Get\<close> and \<^verbatim>\<open>GetPtr\<close> are signed
  (\<^verbatim>\<open>int64\<close>), those of \<^verbatim>\<open>Set\<close> and \<^verbatim>\<open>Set32\<close> unsigned. The locale \<open>byte_memory\<close> is the contract the
  instructions rely on: memory reads as an infinite array of bytes, zero where never written.
\<close>

record Memory =
  store :: bytes
  lastGasCost :: u64

definition NewMemory :: Memory where
  "NewMemory = \<lparr>store = [], lastGasCost = 0\<rparr>"

definition Memory_Len :: "Memory \<Rightarrow> nat" where
  "Memory_Len m = length (store m)"

definition Memory_Data :: "Memory \<Rightarrow> bytes" where
  "Memory_Data m = store m"

definition Memory_Set :: "Memory \<Rightarrow> u64 \<Rightarrow> u64 \<Rightarrow> bytes \<Rightarrow> Memory option" where
  "Memory_Set m offset sz value =
     (if sz > 0
      then if offset + sz > word_of_nat (length (store m)) then None
           else do {
             window \<leftarrow> go_slice (store m) (unat offset) (unat (offset + sz));
             Some (m\<lparr>store := go_copy (store m) (unat offset) (go_copy window 0 value)\<rparr>)
           }
      else Some m)"

definition Set32 :: "Memory \<Rightarrow> u64 \<Rightarrow> int \<Rightarrow> Memory option" where
  "Set32 m offset val =
     (if offset + 32 > word_of_nat (length (store m)) then None
      else do {
        window \<leftarrow> go_slice (store m) (unat offset) (unat (offset + 32));
        let zeroed = go_copy window 0 (replicate 32 0);
        Some (m\<lparr>store := go_copy (store m) (unat offset) (ReadBits val zeroed)\<rparr>)
      })"

definition Resize :: "Memory \<Rightarrow> u64 \<Rightarrow> Memory" where
  "Resize m sz =
     (if word_of_nat (Memory_Len m) < sz
      then m\<lparr>store := store m @ replicate (unat (sz - word_of_nat (Memory_Len m))) 0\<rparr>
      else m)"

definition Memory_Get :: "Memory \<Rightarrow> int \<Rightarrow> int \<Rightarrow> bytes option" where
  "Memory_Get m offset sz =
     (if sz = 0 then Some []
      else if int (length (store m)) > offset
      then if sz < 0 \<or> offset < 0 then None
           else do {
             window \<leftarrow> go_slice (store m) (nat offset) (nat (offset + sz));
             Some (go_copy (replicate (nat sz) 0) 0 window)
           }
      else Some [])"

definition GetPtr :: "Memory \<Rightarrow> int \<Rightarrow> int \<Rightarrow> bytes option" where
  "GetPtr m offset sz =
     (if sz = 0 then Some []
      else if int (length (store m)) > offset
      then if offset < 0 \<or> offset + sz < 0 then None
           else go_slice (store m) (nat offset) (nat (offset + sz))
      else Some [])"

section \<open>Memory sizes of the instructions\<close>

text \<open>
  Each function reads the stack with \<^verbatim>\<open>Back\<close>, which panics below the bottom of the stack; the result is
  the size in bytes and whether it overflows \<^verbatim>\<open>uint64\<close>.
\<close>

type_synonym memorySizeFunc = "Stack \<Rightarrow> (u64 \<times> bool) option"

definition memorySha3 :: memorySizeFunc where
  "memorySha3 stack = do { a \<leftarrow> Back stack 0; b \<leftarrow> Back stack 1; Some (calcMemSize64 a b) }"

definition memoryCallDataCopy :: memorySizeFunc where
  "memoryCallDataCopy stack = do { a \<leftarrow> Back stack 0; b \<leftarrow> Back stack 2; Some (calcMemSize64 a b) }"

definition memoryReturnDataCopy :: memorySizeFunc where
  "memoryReturnDataCopy stack = do { a \<leftarrow> Back stack 0; b \<leftarrow> Back stack 2; Some (calcMemSize64 a b) }"

definition memoryCodeCopy :: memorySizeFunc where
  "memoryCodeCopy stack = do { a \<leftarrow> Back stack 0; b \<leftarrow> Back stack 2; Some (calcMemSize64 a b) }"

definition memoryExtCodeCopy :: memorySizeFunc where
  "memoryExtCodeCopy stack = do { a \<leftarrow> Back stack 1; b \<leftarrow> Back stack 3; Some (calcMemSize64 a b) }"

definition memoryMLoad :: memorySizeFunc where
  "memoryMLoad stack = do { a \<leftarrow> Back stack 0; Some (calcMemSize64WithUint a 32) }"

definition memoryMStore8 :: memorySizeFunc where
  "memoryMStore8 stack = do { a \<leftarrow> Back stack 0; Some (calcMemSize64WithUint a 1) }"

definition memoryMStore :: memorySizeFunc where
  "memoryMStore stack = do { a \<leftarrow> Back stack 0; Some (calcMemSize64WithUint a 32) }"

definition memoryCreate :: memorySizeFunc where
  "memoryCreate stack = do { a \<leftarrow> Back stack 1; b \<leftarrow> Back stack 2; Some (calcMemSize64 a b) }"

definition memoryCreate2 :: memorySizeFunc where
  "memoryCreate2 stack = do { a \<leftarrow> Back stack 1; b \<leftarrow> Back stack 2; Some (calcMemSize64 a b) }"

definition memoryCall :: memorySizeFunc where
  "memoryCall stack = do {
     a \<leftarrow> Back stack 5; b \<leftarrow> Back stack 6;
     let (x, overflow) = calcMemSize64 a b;
     if overflow then Some (0, True) else do {
       a \<leftarrow> Back stack 3; b \<leftarrow> Back stack 4;
       let (y, overflow) = calcMemSize64 a b;
       if overflow then Some (0, True) else if x > y then Some (x, False) else Some (y, False)
     }
   }"

definition memoryDelegateCall :: memorySizeFunc where
  "memoryDelegateCall stack = do {
     a \<leftarrow> Back stack 4; b \<leftarrow> Back stack 5;
     let (x, overflow) = calcMemSize64 a b;
     if overflow then Some (0, True) else do {
       a \<leftarrow> Back stack 2; b \<leftarrow> Back stack 3;
       let (y, overflow) = calcMemSize64 a b;
       if overflow then Some (0, True) else if x > y then Some (x, False) else Some (y, False)
     }
   }"

definition memoryStaticCall :: memorySizeFunc where
  "memoryStaticCall stack = do {
     a \<leftarrow> Back stack 4; b \<leftarrow> Back stack 5;
     let (x, overflow) = calcMemSize64 a b;
     if overflow then Some (0, True) else do {
       a \<leftarrow> Back stack 2; b \<leftarrow> Back stack 3;
       let (y, overflow) = calcMemSize64 a b;
       if overflow then Some (0, True) else if x > y then Some (x, False) else Some (y, False)
     }
   }"

definition memoryReturn :: memorySizeFunc where
  "memoryReturn stack = do { a \<leftarrow> Back stack 0; b \<leftarrow> Back stack 1; Some (calcMemSize64 a b) }"

definition memoryRevert :: memorySizeFunc where
  "memoryRevert stack = do { a \<leftarrow> Back stack 0; b \<leftarrow> Back stack 1; Some (calcMemSize64 a b) }"

definition memoryLog :: memorySizeFunc where
  "memoryLog stack = do { a \<leftarrow> Back stack 0; b \<leftarrow> Back stack 1; Some (calcMemSize64 a b) }"

section \<open>The contract of memory\<close>

locale byte_memory =
  fixes rd :: "'m \<Rightarrow> nat \<Rightarrow> byte"
    and len :: "'m \<Rightarrow> nat"
    and grow :: "'m \<Rightarrow> u64 \<Rightarrow> 'm"
    and wr :: "'m \<Rightarrow> u64 \<Rightarrow> u64 \<Rightarrow> bytes \<Rightarrow> 'm option"
    and get :: "'m \<Rightarrow> int \<Rightarrow> int \<Rightarrow> bytes option"
  assumes grow_len: "len m < 2 ^ 63 \<Longrightarrow> len (grow m n) = max (len m) (unat n)"
    and grow_rd: "len m < 2 ^ 63 \<Longrightarrow> rd (grow m n) = rd m"
    and wr_law: "unat off + unat n \<le> len m \<Longrightarrow> len m < 2 ^ 63 \<Longrightarrow>
      \<exists>m'. wr m off n v = Some m' \<and> len m' = len m \<and>
        (\<forall>i. rd m' i = (if unat off \<le> i \<and> i < unat off + min (unat n) (length v)
                        then v ! (i - unat off) else rd m i))"
    and get_law: "j + k \<le> len m \<Longrightarrow> get m (int j) (int k) = Some (map (rd m) [j..<j + k])"
begin

text \<open>Growing first makes every write and read of the grown window succeed.\<close>

lemma wr_after_grow:
  assumes "len m < 2 ^ 63" "unat off + unat n < 2 ^ 63" "length v = unat n"
  obtains m' where "wr (grow m (word_of_nat (unat off + unat n))) off n v = Some m'"
    "len m' = max (len m) (unat off + unat n)"
    "\<And>i. rd m' i = (if unat off \<le> i \<and> i < unat off + unat n then v ! (i - unat off) else rd m i)"
proof -
  have "unat (word_of_nat (unat off + unat n) :: u64) = unat off + unat n"
    using assms(2) by (intro unat_u64_of_nat) simp
  with assms(1) have l: "len (grow m (word_of_nat (unat off + unat n))) = max (len m) (unat off + unat n)"
    by (simp add: grow_len)
  with assms have "unat off + unat n \<le> len (grow m (word_of_nat (unat off + unat n)))"
    "len (grow m (word_of_nat (unat off + unat n))) < 2 ^ 63" by simp_all
  from wr_law [OF this, of v] assms(1,3) that l show ?thesis by (auto simp: grow_rd)
qed

lemma get_wr_same:
  assumes "unat off + unat n \<le> len m" "len m < 2 ^ 63" "length v = unat n" "wr m off n v = Some m'"
  shows "get m' (uint off) (uint n) = Some v"
proof -
  from wr_law [OF assms(1,2), of v] assms(3,4)
  have "len m' = len m" "\<And>i. i < unat n \<Longrightarrow> rd m' (unat off + i) = v ! i" by auto
  moreover from this have "map (rd m') [unat off..<unat off + unat n] = v"
    using assms(3) by (intro nth_equalityI) auto
  ultimately show ?thesis using get_law [of "unat off" "unat n" m'] assms(1) by simp
qed

lemma get_wr_disjoint:
  assumes "unat off + unat n \<le> len m" "len m < 2 ^ 63" "wr m off n v = Some m'"
    and "o' + n' \<le> len m" "o' + n' \<le> unat off \<or> unat off + unat n \<le> o'"
  shows "get m' (int o') (int n') = get m (int o') (int n')"
proof -
  from wr_law [OF assms(1,2), of v] assms(3)
  have "len m' = len m" "\<And>i. i \<in> {o'..<o' + n'} \<Longrightarrow> rd m' i = rd m i"
    using assms(5) by auto
  then show ?thesis using assms(4) by (simp add: get_law)
qed

end

definition memAt :: "Memory \<Rightarrow> nat \<Rightarrow> byte" where
  "memAt m i = (if i < Memory_Len m then store m ! i else 0)"

lemma go_copy_window:
  assumes "i + n \<le> length s"
  shows "go_copy s i (go_copy (take n (drop i s)) 0 v) = go_copy s i (take n v)"
proof (cases "n \<le> length v")
  case True
  with assms have "go_copy (take n (drop i s)) 0 v = take n v"
    by (simp add: go_copy_def)
  then show ?thesis by simp
next
  case False
  let ?w = "take n (drop i s)"
  from False assms have w: "go_copy ?w 0 v = v @ take (n - length v) (drop (i + length v) s)"
    by (simp add: go_copy_within drop_take add.commute)
  have "drop (i + length v) s = take (n - length v) (drop (i + length v) s) @ drop (i + n) s"
    using False append_take_drop_id [of "n - length v" "drop (i + length v) s"]
    by (simp add: add.commute)
  with False assms show ?thesis unfolding w by (simp add: go_copy_within)
qed

lemma Memory_Set_ok:
  assumes "unat off + unat n \<le> Memory_Len m" "Memory_Len m < 2 ^ 63"
  shows "Memory_Set m off n v =
    Some (m\<lparr>store := go_copy (store m) (unat off) (take (unat n) v)\<rparr>)"
proof (cases "n = 0")
  case False
  from assms have u: "unat (off + n) = unat off + unat n" by (intro unat_add_u64) simp
  from assms have lt: "(off + n > word_of_nat (length (store m))) = False"
    by (simp add: word_less_nat_alt u unat_u64_length Memory_Len_def)
  have sl: "go_slice (store m) (unat off) (unat (off + n)) = Some (take (unat n) (drop (unat off) (store m)))"
    using assms(1) by (simp add: u go_slice_def Memory_Len_def)
  have cp: "go_copy (store m) (unat off) (go_copy (take (unat n) (drop (unat off) (store m))) 0 v) =
    go_copy (store m) (unat off) (take (unat n) v)"
    using assms(1) by (intro go_copy_window) (simp add: Memory_Len_def)
  from False have pos: "(n > 0) = True" by (simp only: word_gt_0 simp_thms)
  show ?thesis
    by (simp only: Memory_Set_def lt sl cp pos if_True if_False bind.bind_lunit)
qed (simp add: Memory_Set_def go_copy_def)

interpretation mem: byte_memory memAt Memory_Len Resize Memory_Set Memory_Get
proof unfold_locales
  fix m :: Memory and n :: u64
  assume l: "Memory_Len m < 2 ^ 63"
  then have u: "unat (word_of_nat (Memory_Len m) :: u64) = Memory_Len m"
    by (simp add: Memory_Len_def unat_u64_length)
  show len: "Memory_Len (Resize m n) = max (Memory_Len m) (unat n)"
    by (simp add: Resize_def word_less_nat_alt u unat_sub_u64 word_le_nat_alt)
      (simp add: Memory_Len_def max_def)
  show "memAt (Resize m n) = memAt m"
  proof
    fix i
    show "memAt (Resize m n) i = memAt m i"
      using len by (auto simp: memAt_def Resize_def Memory_Len_def nth_append)
  qed
next
  fix off n :: u64 and m :: Memory and v
  assume a: "unat off + unat n \<le> Memory_Len m" "Memory_Len m < 2 ^ 63"
  let ?m = "m\<lparr>store := go_copy (store m) (unat off) (take (unat n) v)\<rparr>"
  have rd: "memAt ?m i = (if unat off \<le> i \<and> i < unat off + min (unat n) (length v)
                        then v ! (i - unat off) else memAt m i)" for i
  proof (cases "unat off \<le> i \<and> i < unat off + min (unat n) (length v)")
    case True
    then have "i - unat off < length (take (unat n) v)" "unat off + (i - unat off) < length (store m)"
      using a(1) by (auto simp: Memory_Len_def)
    with True a(1) nth_go_copy_in [of "unat off" "store m" "i - unat off" "take (unat n) v"]
    show ?thesis by (simp add: memAt_def Memory_Len_def)
  next
    case False
    with a(1) nth_go_copy_out [of "unat off" "store m" i "take (unat n) v"]
    show ?thesis by (auto simp: memAt_def Memory_Len_def)
  qed
  show "\<exists>m'. Memory_Set m off n v = Some m' \<and> Memory_Len m' = Memory_Len m \<and>
        (\<forall>i. memAt m' i = (if unat off \<le> i \<and> i < unat off + min (unat n) (length v)
                        then v ! (i - unat off) else memAt m i))"
  proof (intro exI conjI allI)
    show "Memory_Set m off n v = Some ?m" using a by (rule Memory_Set_ok)
    show "Memory_Len ?m = Memory_Len m" using a(1) by (simp add: Memory_Len_def)
  qed (rule rd)
next
  fix off n :: nat and m :: Memory
  assume a: "off + n \<le> Memory_Len m"
  then have "take n (drop off (store m)) = map (memAt m) [off..<off + n]"
    by (intro nth_equalityI) (auto simp: memAt_def Memory_Len_def)
  with a show "Memory_Get m (int off) (int n) = Some (map (memAt m) [off..<off + n])"
    by (auto simp: Memory_Get_def go_slice_def Memory_Len_def nat_add_distrib go_copy_def)
qed

lemma Memory_Set_panic:
  assumes "Memory_Len m < 2 ^ 63" "Memory_Len m < unat off + unat n" "n \<noteq> 0"
  shows "Memory_Set m off n v = None"
proof (cases "off + n > word_of_nat (length (store m))")
  case False
  have "\<not> unat off + unat n < 2 ^ 64"
  proof
    assume "unat off + unat n < 2 ^ 64"
    then have "unat (off + n) = unat off + unat n" by (rule unat_add_u64)
    with False assms show False
      by (simp add: word_less_nat_alt unat_u64_length Memory_Len_def)
  qed
  then have "unat (off + n) + 2 ^ 64 = unat off + unat n" by (intro unat_add_wrap_u64) simp
  with unat_u64_less [of n] have "\<not> unat off \<le> unat (off + n)" by simp
  then show ?thesis using False assms(3) by (simp add: Memory_Set_def go_slice_def word_gt_0)
qed (use assms(3) in \<open>simp add: Memory_Set_def word_gt_0\<close>)

lemma Set32_eq:
  assumes "unat off + 32 \<le> Memory_Len m" "Memory_Len m < 2 ^ 63"
  shows "Set32 m off val = Memory_Set m off 32 (be_enc 32 (nat \<bar>val\<bar>))"
proof -
  from assms have u: "unat (off + 32) = unat off + 32" using unat_add_u64 [of off 32] by simp
  have "(off + 32 > word_of_nat (length (store m))) = False"
    using assms by (simp add: word_less_nat_alt u unat_u64_length Memory_Len_def)
  moreover have "go_slice (store m) (unat off) (unat (off + 32)) = Some (take 32 (drop (unat off) (store m)))"
    using assms(1) by (simp add: u go_slice_def Memory_Len_def)
  moreover have "go_copy (take 32 (drop (unat off) (store m))) 0 (replicate 32 0) = replicate 32 0"
    using assms(1) by (simp add: go_copy_def Memory_Len_def)
  ultimately have "Set32 m off val =
      Some (m\<lparr>store := go_copy (store m) (unat off) (be_enc 32 (nat \<bar>val\<bar>))\<rparr>)"
    by (simp only: Set32_def if_False bind.bind_lunit Let_def ReadBits_be_enc)
  moreover have "Memory_Set m off 32 (be_enc 32 (nat \<bar>val\<bar>)) =
      Some (m\<lparr>store := go_copy (store m) (unat off) (be_enc 32 (nat \<bar>val\<bar>))\<rparr>)"
    using assms Memory_Set_ok [of off 32 m "be_enc 32 (nat \<bar>val\<bar>)"] by simp
  ultimately show ?thesis by simp
qed

text \<open>
  (C22) \<^verbatim>\<open>Memory.Set\<close> panics exactly when a non-empty write reaches past the memory, also when
  \<^verbatim>\<open>offset+size\<close> wraps around. Otherwise the length of the memory is kept, \<^verbatim>\<open>Get\<close> of the
  same window returns the written bytes, and \<^verbatim>\<open>Get\<close> of every window disjoint from it returns what it
  returned before.
\<close>

theorem Memory_Set_Get:
  assumes "Memory_Len m < 2 ^ 63" "length v = unat n"
  shows "(Memory_Set m off n v = None \<longleftrightarrow> n \<noteq> 0 \<and> Memory_Len m < unat off + unat n) \<and>
    (\<forall>m'. Memory_Set m off n v = Some m' \<longrightarrow>
       Memory_Len m' = Memory_Len m \<and> Memory_Get m' (uint off) (uint n) = Some v \<and>
       (\<forall>j k. j + k \<le> Memory_Len m \<longrightarrow> j + k \<le> unat off \<or> unat off + unat n \<le> j \<longrightarrow>
          Memory_Get m' (int j) (int k) = Memory_Get m (int j) (int k)))"
proof (cases "n \<noteq> 0 \<and> Memory_Len m < unat off + unat n")
  case True
  with assms show ?thesis by (simp add: Memory_Set_panic)
next
  case False
  show ?thesis
  proof (cases "n = 0")
    case True
    with assms show ?thesis by (simp add: Memory_Set_def Memory_Get_def)
  next
    case n: False
    with False have le: "unat off + unat n \<le> Memory_Len m" by simp
    from mem.wr_law [OF this assms(1), of v] obtain m' where m': "Memory_Set m off n v = Some m'"
      "Memory_Len m' = Memory_Len m" by blast
    with False mem.get_wr_same [OF le assms(1,2) m'(1)] mem.get_wr_disjoint [OF le assms(1) m'(1)]
    show ?thesis by simp
  qed
qed

theorem Memory_Set_Get_witness:
  "Memory_Set \<lparr>store = [1, 2, 3], lastGasCost = 0\<rparr> 1 2 [8, 9] \<noteq> None \<and>
   Memory_Set \<lparr>store = [1, 2, 3], lastGasCost = 0\<rparr> 2 MaxUint64 [] = None"
proof
  show "Memory_Set \<lparr>store = [1, 2, 3], lastGasCost = 0\<rparr> 1 2 [8, 9] \<noteq> None"
    using Memory_Set_Get [of "\<lparr>store = [1, 2, 3], lastGasCost = 0\<rparr>" "[8, 9]" 2 1]
    by (simp add: Memory_Len_def)
qed (simp add: Memory_Set_def go_slice_def)

end
