(* ===== verification/Analysis.thy ===== *)
theory Analysis
  imports Opcodes
begin

text \<open>
  \<^verbatim>\<open>analysis.go\<close>: the bit vector that tells instruction bytes from the data bytes of push
  instructions. The program counter and the positions are \<^verbatim>\<open>uint64\<close> in the source and natural numbers
  here: they stay below the length of the code plus 33. An index past the vector panics (\<open>None\<close>).
  Shown here: the analysis of any code returns, never panics, and marks exactly the bytes that are not the first
  byte of an instruction when the code is decoded from its start.
\<close>

type_synonym bitvec = bytes

definition bitvec_set :: "bitvec \<Rightarrow> nat \<Rightarrow> bitvec option" where
  "bitvec_set bits pos =
     do {
       b \<leftarrow> go_index bits (pos div 8);
       Some (bits[pos div 8 := b OR drop_bit (pos mod 8) 0x80])
     }"

definition bitvec_set8 :: "bitvec \<Rightarrow> nat \<Rightarrow> bitvec option" where
  "bitvec_set8 bits pos =
     do {
       b \<leftarrow> go_index bits (pos div 8);
       let bits = bits[pos div 8 := b OR drop_bit (pos mod 8) 0xFF];
       b' \<leftarrow> go_index bits (pos div 8 + 1);
       Some (bits[pos div 8 + 1 := b' OR NOT (drop_bit (pos mod 8) 0xFF)])
     }"

definition codeSegment :: "bitvec \<Rightarrow> nat \<Rightarrow> bool option" where
  "codeSegment bits pos =
     do {
       b \<leftarrow> go_index bits (pos div 8);
       Some (b AND drop_bit (pos mod 8) 0x80 = 0)
     }"

text \<open>The two inner loops of \<^verbatim>\<open>codeBitmap\<close>, over \<^verbatim>\<open>(bits, pc, numbits)\<close>.\<close>

fun set8_loop :: "bitvec \<Rightarrow> nat \<Rightarrow> nat \<Rightarrow> (bitvec \<times> nat \<times> nat) option" where
  "set8_loop bits pc numbits =
     (if numbits \<ge> 8
      then do { bits \<leftarrow> bitvec_set8 bits pc; set8_loop bits (pc + 8) (numbits - 8) }
      else Some (bits, pc, numbits))"

fun set_loop :: "bitvec \<Rightarrow> nat \<Rightarrow> nat \<Rightarrow> (bitvec \<times> nat) option" where
  "set_loop bits pc numbits =
     (if numbits > 0
      then do { bits \<leftarrow> bitvec_set bits pc; set_loop bits (pc + 1) (numbits - 1) }
      else Some (bits, pc))"

declare set8_loop.simps [simp del] set_loop.simps [simp del]

lemma set8_loop_pc: "set8_loop bits pc n = Some (bits', pc', n') \<Longrightarrow> pc' + n' = pc + n"
proof (induction bits pc n rule: set8_loop.induct)
  case (1 bits pc n)
  show ?case
  proof (cases "n \<ge> 8")
    case True
    with "1.prems" obtain b where "bitvec_set8 bits pc = Some b"
      "set8_loop b (pc + 8) (n - 8) = Some (bits', pc', n')"
      by (subst (asm) set8_loop.simps) (auto split: Option.bind_splits)
    with "1.IH" [OF True] True show ?thesis by simp
  qed (use "1.prems" in \<open>simp add: set8_loop.simps\<close>)
qed

lemma set_loop_pc: "set_loop bits pc n = Some (bits', pc') \<Longrightarrow> pc' = pc + n"
proof (induction bits pc n rule: set_loop.induct)
  case (1 bits pc n)
  show ?case
  proof (cases "n > 0")
    case True
    with "1.prems" obtain b where "bitvec_set bits pc = Some b"
      "set_loop b (pc + 1) (n - 1) = Some (bits', pc')"
      by (subst (asm) set_loop.simps) (auto split: Option.bind_splits)
    with "1.IH" [OF True] True show ?thesis by simp
  qed (use "1.prems" in \<open>simp add: set_loop.simps\<close>)
qed

function bitmap_loop :: "bytes \<Rightarrow> bitvec \<Rightarrow> nat \<Rightarrow> bitvec option" where
  "bitmap_loop code bits pc =
     (if pc < length code
      then let op = code ! pc in
           if op \<ge> PUSH1 \<and> op \<le> PUSH32
           then do {
             let numbits = unat (op - PUSH1 + 1);
             (bits, pc', numbits) \<leftarrow> set8_loop bits (pc + 1) numbits;
             (bits, pc') \<leftarrow> set_loop bits pc' numbits;
             bitmap_loop code bits pc'
           }
           else bitmap_loop code bits (pc + 1)
      else Some bits)"
  by pat_completeness auto
termination
  by (relation "measure (\<lambda>(code, bits, pc). length code - pc)")
    (auto dest!: set8_loop_pc set_loop_pc)

declare bitmap_loop.simps [simp del]

definition codeBitmap :: "bytes \<Rightarrow> bitvec option" where
  "codeBitmap code = bitmap_loop code (replicate (length code div 8 + 1 + 4) 0) 0"

section \<open>Instruction boundaries\<close>

text \<open>
  Reference: decoding from position 0, the instruction at \<open>pc\<close> occupies \<open>pc\<close> and the immediate bytes
  of a push instruction.
\<close>

definition next_pc :: "bytes \<Rightarrow> nat \<Rightarrow> nat" where
  "next_pc code pc = pc + 1 + (if IsPush (code ! pc) then unat (code ! pc) - 0x5f else 0)"

inductive boundary :: "bytes \<Rightarrow> nat \<Rightarrow> bool" for code where
  start: "boundary code 0"
| step: "boundary code pc \<Longrightarrow> pc < length code \<Longrightarrow> boundary code (next_pc code pc)"

lemma next_pc_gt: "pc < next_pc code pc"
  by (simp add: next_pc_def)

lemma boundary_next_le:
  "boundary code b \<Longrightarrow> boundary code c \<Longrightarrow> b < c \<Longrightarrow> next_pc code b \<le> c"
proof (induction "b + c" arbitrary: b c rule: less_induct)
  case less
  from less.prems(2) show ?case
  proof (cases rule: boundary.cases)
    case (step p)
    consider "b < p" | "b = p" | "p < b" by linarith
    then show ?thesis
    proof cases
      case 1
      with less.hyps [of b p] less.prems step next_pc_gt [of p code] show ?thesis by simp
    next
      case 3
      with less.hyps [of p b] less.prems step show ?thesis by simp
    qed (simp add: step)
  qed (use less.prems in simp)
qed

text \<open>A position is covered by the instruction at a boundary before it, or is a boundary itself.\<close>

definition push_data :: "bytes \<Rightarrow> nat \<Rightarrow> bool" where
  "push_data code q \<longleftrightarrow> (\<exists>b < q. boundary code b \<and> b < length code \<and> q < next_pc code b)"

lemma boundary_or_data: "q \<le> length code \<Longrightarrow> boundary code q \<or> push_data code q"
proof (induction q rule: nat_less_induct)
  case (1 q)
  show ?case
  proof (cases q)
    case 0
    then show ?thesis using boundary.start by simp
  next
    case (Suc p)
    with 1 consider "boundary code p" | "push_data code p" by fastforce
    then obtain b where b: "boundary code b" "b < q" "b < length code" "q \<le> next_pc code b"
    proof cases
      case 1
      with Suc \<open>q \<le> length code\<close> that [of p] next_pc_gt [of p code] show ?thesis by simp
    next
      case 2
      then obtain b where "b < p" "boundary code b" "b < length code" "p < next_pc code b"
        unfolding push_data_def by blast
      with Suc that [of b] show ?thesis by simp
    qed
    then show ?thesis
      using boundary.step [OF b(1,3)] unfolding push_data_def by (metis le_neq_implies_less)
  qed
qed

lemma not_boundary_and_data: "boundary code q \<Longrightarrow> \<not> push_data code q"
  using boundary_next_le unfolding push_data_def by (metis not_le)

section \<open>The analysis marks exactly the push data\<close>

definition bit_at :: "bitvec \<Rightarrow> nat \<Rightarrow> bool" where
  "bit_at bits q = bit (bits ! (q div 8)) (7 - q mod 8)"

lemma bit_0x80: "bit (0x80 :: byte) n \<longleftrightarrow> n = 7"
proof -
  have "(0x80 :: byte) = push_bit 7 1" by simp
  then show ?thesis by (simp only: bit_push_bit_iff bit_1_iff) auto
qed

lemma bit_0xFF: "bit (0xFF :: byte) n \<longleftrightarrow> n < 8"
proof -
  have "(0xFF :: byte) = mask 8" by (simp add: mask_eq_exp_minus_1)
  then show ?thesis by (simp only: bit_mask_iff) auto
qed

lemma bit_mask_80: "bit (drop_bit k 0x80 :: byte) n \<longleftrightarrow> k + n = 7"
  by (simp only: bit_drop_bit_eq comp_apply bit_0x80)

lemma bit_mask_FF: "bit (drop_bit k 0xFF :: byte) n \<longleftrightarrow> k + n < 8"
  by (simp only: bit_drop_bit_eq comp_apply bit_0xFF)

lemma mod8_index:
  "p mod 8 + (7 - q mod 8) = 7 \<longleftrightarrow> q mod 8 = p mod 8"
  "p mod 8 + (7 - q mod 8) < 8 \<longleftrightarrow> p mod 8 \<le> q mod 8" for p q :: nat
  using mod_less_divisor [of 8 q] mod_less_divisor [of 8 p] by arith+

lemma codeSegment_bit_at:
  assumes "q div 8 < length bits"
  shows "codeSegment bits q = Some (\<not> bit_at bits q)"
proof -
  let ?x = "bits ! (q div 8)" and ?k = "7 - q mod 8"
  have "q mod 8 + n = 7 \<longleftrightarrow> n = ?k" for n using mod_less_divisor [of 8 q] by arith
  then have "bit (?x AND drop_bit (q mod 8) 0x80) n \<longleftrightarrow> n = ?k \<and> bit ?x ?k" for n
    by (auto simp only: bit_and_iff bit_mask_80)
  then have "?x AND drop_bit (q mod 8) 0x80 = 0 \<longleftrightarrow> \<not> bit ?x ?k"
    by (metis bit_0_eq bit_eqI bot_apply bot_bool_def)
  with assms show ?thesis unfolding codeSegment_def go_index_def bit_at_def by simp
qed

lemma bitvec_set_spec:
  assumes "pos div 8 < length bits"
  obtains bits' where "bitvec_set bits pos = Some bits'" "length bits' = length bits"
    "\<And>q. q div 8 < length bits \<Longrightarrow> bit_at bits' q \<longleftrightarrow> bit_at bits q \<or> q = pos"
proof
  let ?b = "bits[pos div 8 := bits ! (pos div 8) OR drop_bit (pos mod 8) 0x80]"
  show "bitvec_set bits pos = Some ?b" using assms by (simp add: bitvec_set_def go_index_def)
  show "length ?b = length bits" by simp
  fix q
  have eq: "q = pos \<longleftrightarrow> q div 8 = pos div 8 \<and> q mod 8 = pos mod 8" by (metis div_mult_mod_eq)
  show "bit_at ?b q \<longleftrightarrow> bit_at bits q \<or> q = pos"
  proof (cases "q div 8 = pos div 8")
    case True
    with assms show ?thesis
      unfolding bit_at_def eq by (simp only: nth_list_update_eq bit_or_iff bit_mask_80 mod8_index simp_thms)
  next
    case False
    then show ?thesis unfolding bit_at_def eq by simp
  qed
qed

lemma div_mod_range8:
  fixes q pos :: nat
  shows "pos \<le> q \<and> q < pos + 8 \<longleftrightarrow>
    q div 8 = pos div 8 \<and> pos mod 8 \<le> q mod 8 \<or> q div 8 = pos div 8 + 1 \<and> q mod 8 < pos mod 8"
  using div_mult_mod_eq [of q 8] div_mult_mod_eq [of pos 8] mod_less_divisor [of 8 q]
    mod_less_divisor [of 8 pos] by linarith

lemma bitvec_set8_spec:
  assumes "pos div 8 + 1 < length bits"
  obtains bits' where "bitvec_set8 bits pos = Some bits'" "length bits' = length bits"
    "\<And>q. q div 8 < length bits \<Longrightarrow> bit_at bits' q \<longleftrightarrow> bit_at bits q \<or> pos \<le> q \<and> q < pos + 8"
proof
  let ?i = "pos div 8" and ?m = "drop_bit (pos mod 8) 0xFF :: byte"
  let ?b = "bits[?i := bits ! ?i OR ?m, ?i + 1 := bits ! (?i + 1) OR NOT ?m]"
  show "bitvec_set8 bits pos = Some ?b"
    using assms by (simp add: bitvec_set8_def go_index_def Let_def)
  show "length ?b = length bits" by simp
  fix q
  have 1: "bit ?m (7 - q mod 8) \<longleftrightarrow> pos mod 8 \<le> q mod 8"
    by (simp only: bit_mask_FF mod8_index)
  have 2: "bit (NOT ?m) (7 - q mod 8) \<longleftrightarrow> q mod 8 < pos mod 8"
    unfolding bit_not_iff 1 by (auto simp: not_le)
  consider "q div 8 = ?i" | "q div 8 = ?i + 1" | "q div 8 \<noteq> ?i" "q div 8 \<noteq> ?i + 1" by blast
  then show "bit_at ?b q \<longleftrightarrow> bit_at bits q \<or> pos \<le> q \<and> q < pos + 8"
  proof cases
    case A: 1
    with assms have "?b ! (q div 8) = bits ! ?i OR ?m" by simp
    then show ?thesis unfolding bit_at_def div_mod_range8 by (simp only: bit_or_iff 1 A) simp
  next
    case B: 2
    with assms have "?b ! (q div 8) = bits ! (?i + 1) OR NOT ?m" by simp
    then show ?thesis unfolding bit_at_def div_mod_range8 by (simp only: bit_or_iff 2 B) simp
  next
    case 3
    then show ?thesis unfolding bit_at_def div_mod_range8 by simp
  qed
qed

lemma set8_loop_spec:
  assumes "(pc + n) div 8 < length bits"
  shows "\<exists>bits' pc' n'. set8_loop bits pc n = Some (bits', pc', n') \<and> length bits' = length bits \<and>
    pc \<le> pc' \<and> (\<forall>q. q div 8 < length bits \<longrightarrow> (bit_at bits' q \<longleftrightarrow> bit_at bits q \<or> pc \<le> q \<and> q < pc'))"
  using assms
proof (induction bits pc n rule: set8_loop.induct)
  case (1 bits pc n)
  show ?case
  proof (cases "n \<ge> 8")
    case True
    have "(pc + 8) div 8 \<le> (pc + n) div 8" using True by (intro div_le_mono) simp
    with "1.prems" have "pc div 8 + 1 < length bits" by simp
    then obtain b where b: "bitvec_set8 bits pc = Some b" "length b = length bits"
      "\<And>q. q div 8 < length bits \<Longrightarrow> bit_at b q \<longleftrightarrow> bit_at bits q \<or> pc \<le> q \<and> q < pc + 8"
      using bitvec_set8_spec by blast
    have "(pc + 8 + (n - 8)) div 8 < length b" using True "1.prems" b(2) by simp
    from "1.IH" [OF True b(1) this] b(2) obtain b' pc' n' where b':
      "set8_loop b (pc + 8) (n - 8) = Some (b', pc', n')" "length b' = length bits" "pc + 8 \<le> pc'"
      "\<And>q. q div 8 < length bits \<Longrightarrow> bit_at b' q \<longleftrightarrow> bit_at b q \<or> pc + 8 \<le> q \<and> q < pc'"
      by auto
    show ?thesis
    proof (intro exI conjI)
      show "set8_loop bits pc n = Some (b', pc', n')"
        using True b(1) b'(1) by (subst set8_loop.simps) simp
    qed (use b b' in auto)
  next
    case False
    then show ?thesis by (subst set8_loop.simps) auto
  qed
qed

lemma set_loop_spec:
  assumes "(pc + n) div 8 < length bits"
  shows "\<exists>bits'. set_loop bits pc n = Some (bits', pc + n) \<and> length bits' = length bits \<and>
    (\<forall>q. q div 8 < length bits \<longrightarrow> (bit_at bits' q \<longleftrightarrow> bit_at bits q \<or> pc \<le> q \<and> q < pc + n))"
  using assms
proof (induction bits pc n rule: set_loop.induct)
  case (1 bits pc n)
  show ?case
  proof (cases "n > 0")
    case True
    have "pc div 8 \<le> (pc + n) div 8" by (rule div_le_mono) simp
    with "1.prems" have "pc div 8 < length bits" by simp
    then obtain b where b: "bitvec_set bits pc = Some b" "length b = length bits"
      "\<And>q. q div 8 < length bits \<Longrightarrow> bit_at b q \<longleftrightarrow> bit_at bits q \<or> q = pc"
      using bitvec_set_spec by blast
    have "(pc + 1 + (n - 1)) div 8 < length b" using True "1.prems" b(2) by simp
    from "1.IH" [OF True b(1) this] b(2) True obtain b' where b':
      "set_loop b (pc + 1) (n - 1) = Some (b', pc + n)" "length b' = length bits"
      "\<And>q. q div 8 < length bits \<Longrightarrow> bit_at b' q \<longleftrightarrow> bit_at b q \<or> pc + 1 \<le> q \<and> q < pc + n"
      by auto
    show ?thesis
    proof (intro exI conjI)
      show "set_loop bits pc n = Some (b', pc + n)"
        using True b(1) b'(1) by (subst set_loop.simps) simp
    qed (use b b' True in auto)
  next
    case False
    then show ?thesis by (subst set_loop.simps) auto
  qed
qed


text \<open>The main loop: at a boundary \<open>pc\<close> the marked bytes are the push data of the boundaries before it.\<close>

definition marked :: "bytes \<Rightarrow> nat \<Rightarrow> nat \<Rightarrow> bool" where
  "marked code pc q \<longleftrightarrow> (\<exists>b < q. boundary code b \<and> b < pc \<and> q < next_pc code b)"

lemma IsPush_range: "IsPush op \<longleftrightarrow> op \<ge> PUSH1 \<and> op \<le> PUSH32"
proof -
  have "IsPush op \<longleftrightarrow> op \<in> set (map word_of_nat [0x60..<0x80])"
    by (simp add: IsPush_def)
  also have "\<dots> \<longleftrightarrow> op \<in> word_of_nat ` {0x60..<0x80}" by (simp only: set_map set_upt)
  also have "\<dots> \<longleftrightarrow> unat op \<in> {0x60..<0x80}"
  proof
    assume "unat op \<in> {0x60..<0x80}"
    then have "(word_of_nat (unat op) :: byte) \<in> word_of_nat ` {0x60..<0x80}" by (rule imageI)
    then show "op \<in> word_of_nat ` {0x60..<0x80}" by simp
  qed (auto simp: unsigned_of_nat take_bit_nat_eq_self)
  finally show ?thesis by (auto simp: word_le_nat_alt)
qed

lemma push_width: "IsPush op \<Longrightarrow> unat (op - PUSH1 + 1) = unat op - 0x5f \<and> unat op \<le> 0x7f"
proof -
  assume "IsPush op"
  then have u: "0x60 \<le> unat op" "unat op \<le> 0x7f" by (simp_all add: IsPush_range word_le_nat_alt)
  have "op - PUSH1 + 1 = op - 0x5f" by simp
  moreover have "unat (op - 0x5f) = unat op - 0x5f" using u by (subst unat_sub) (simp_all add: word_le_nat_alt)
  ultimately show ?thesis using u by simp
qed

lemma marked_step:
  assumes "boundary code pc" "pc < length code"
  shows "marked code (next_pc code pc) q \<longleftrightarrow> marked code pc q \<or> pc < q \<and> q < next_pc code pc"
proof -
  have "b < next_pc code pc \<longleftrightarrow> b < pc \<or> b = pc" if "boundary code b" for b
    using that boundary_next_le [OF assms(1) that] next_pc_gt [of pc code] by linarith
  then show ?thesis unfolding marked_def using assms(1) by blast
qed

lemma bitmap_loop_spec:
  assumes "boundary code pc" "length bits = length code div 8 + 5"
    and "\<And>q. q div 8 < length bits \<Longrightarrow> bit_at bits q \<longleftrightarrow> marked code pc q"
  shows "\<exists>bits' pc'. bitmap_loop code bits pc = Some bits' \<and> length bits' = length bits \<and>
    length code \<le> pc' \<and> boundary code pc' \<and>
    (\<forall>q. q div 8 < length bits \<longrightarrow> (bit_at bits' q \<longleftrightarrow> marked code pc' q))"
  using assms
proof (induction "length code - pc" arbitrary: bits pc rule: less_induct)
  case less
  show ?case
  proof (cases "pc < length code")
    case False
    with less.prems show ?thesis
      by (subst bitmap_loop.simps) (intro exI [of _ bits] exI [of _ pc], simp)
  next
    case True
    note b' = boundary.step [OF less.prems(1) True] and n' = marked_step [OF less.prems(1) True]
    have m: "length code - next_pc code pc < length code - pc"
      using True next_pc_gt [of pc code] by simp
    show ?thesis
    proof (cases "IsPush (code ! pc)")
      case push: True
      define k where "k = unat (code ! pc - PUSH1 + 1)"
      have k: "next_pc code pc = pc + 1 + k" "k \<le> 32"
        using push_width [OF push] push by (auto simp: next_pc_def k_def)
      have "(pc + 1 + k) div 8 \<le> (length code + 32) div 8" using True k(2) by (intro div_le_mono) simp
      then have len: "(pc + 1 + k) div 8 < length bits" using less.prems(2) by simp
      from set8_loop_spec [OF len] obtain b1 pc1 n1 where b1:
        "set8_loop bits (pc + 1) k = Some (b1, pc1, n1)" "length b1 = length bits" "pc + 1 \<le> pc1"
        "\<And>q. q div 8 < length bits \<Longrightarrow> bit_at b1 q \<longleftrightarrow> bit_at bits q \<or> pc + 1 \<le> q \<and> q < pc1"
        by blast
      note sum = set8_loop_pc [OF b1(1)]
      from set_loop_spec [of pc1 n1 b1] len b1(2) sum obtain b2 where b2:
        "set_loop b1 pc1 n1 = Some (b2, next_pc code pc)" "length b2 = length bits"
        "\<And>q. q div 8 < length bits \<Longrightarrow> bit_at b2 q \<longleftrightarrow> bit_at b1 q \<or> pc1 \<le> q \<and> q < next_pc code pc"
        by (auto simp: k)
      have "bitmap_loop code bits pc = bitmap_loop code b2 (next_pc code pc)"
        using True push b1(1) b2(1)
        by (subst bitmap_loop.simps) (simp add: IsPush_range Let_def k_def)
      moreover have "bit_at b2 q \<longleftrightarrow> marked code (next_pc code pc) q" if "q div 8 < length b2" for q
        using that b1(3,4) b2(2,3) less.prems(3) n' sum k(1) by auto
      ultimately show ?thesis
        using less.hyps [OF m b', of b2] b2(2) less.prems(2) by simp
    next
      case False
      then have nx: "next_pc code pc = pc + 1" by (simp add: next_pc_def)
      then have "bitmap_loop code bits pc = bitmap_loop code bits (next_pc code pc)"
        using True False by (subst bitmap_loop.simps) (auto simp: IsPush_range Let_def)
      moreover have "bit_at bits q \<longleftrightarrow> marked code (next_pc code pc) q" if "q div 8 < length bits" for q
        using that less.prems(3) n' nx by auto
      ultimately show ?thesis using less.hyps [OF m b' less.prems(2)] by simp
    qed
  qed
qed


lemma codeBitmap_spec:
  obtains bits where "codeBitmap code = Some bits" "length bits = length code div 8 + 5"
    "\<And>q. q < length code \<Longrightarrow> codeSegment bits q = Some (boundary code q)"
proof -
  let ?b = "replicate (length code div 8 + 1 + 4) (0 :: byte)"
  have z: "bit_at ?b q \<longleftrightarrow> marked code 0 q" if "q div 8 < length ?b" for q
    using that by (simp add: bit_at_def marked_def)
  from bitmap_loop_spec [OF boundary.start, of ?b code, OF _ z] obtain bits pc where b:
    "codeBitmap code = Some bits" "length bits = length ?b" "length code \<le> pc"
    "\<And>q. q div 8 < length ?b \<Longrightarrow> bit_at bits q \<longleftrightarrow> marked code pc q"
    unfolding codeBitmap_def by auto
  have "codeSegment bits q = Some (boundary code q)" if "q < length code" for q
  proof -
    have "q div 8 \<le> length code div 8" using that by (intro div_le_mono) simp
    then have l: "q div 8 < length bits" using b(2) by simp
    moreover have "marked code pc q \<longleftrightarrow> push_data code q"
      using that b(3) unfolding marked_def push_data_def by auto
    ultimately show ?thesis
      using b(2,4) boundary_or_data [of q code] not_boundary_and_data [of code q] that
      by (auto simp: codeSegment_bit_at)
  qed
  with that b show ?thesis by simp
qed


text \<open>
  (C23) \<^verbatim>\<open>codeBitmap\<close> terminates without a panic on every code, also when the code ends inside the
  immediate bytes of a push instruction, and \<^verbatim>\<open>codeSegment\<close> of its result holds at a position of the code
  exactly when the position is the first byte of an instruction.
\<close>

theorem codeBitmap_correct:
  "\<exists>bits. codeBitmap code = Some bits \<and>
     (\<forall>pos < length code. codeSegment bits pos = Some (boundary code pos))"
  using codeBitmap_spec by metis

theorem codeBitmap_correct_witness:
  "boundary [PUSH1, JUMPDEST, JUMPDEST] 2 \<and>
   (\<exists>bits. codeBitmap [PUSH1, JUMPDEST, JUMPDEST] = Some bits \<and> codeSegment bits 2 = Some True)"
proof -
  have n: "next_pc [PUSH1, JUMPDEST, JUMPDEST] 0 = 2"
    by (simp add: next_pc_def IsPush_def)
  have b: "boundary [PUSH1, JUMPDEST, JUMPDEST] 2"
    using boundary.step [OF boundary.start, of "[PUSH1, JUMPDEST, JUMPDEST]"] n by simp
  from codeBitmap_correct [of "[PUSH1, JUMPDEST, JUMPDEST]"] obtain bits where
    bits: "codeBitmap [PUSH1, JUMPDEST, JUMPDEST] = Some bits"
    and seg: "\<forall>pos < length [PUSH1, JUMPDEST, JUMPDEST].
      codeSegment bits pos = Some (boundary [PUSH1, JUMPDEST, JUMPDEST] pos)" by blast
  from seg have "codeSegment bits 2 = Some (boundary [PUSH1, JUMPDEST, JUMPDEST] 2)" by simp
  with bits b show ?thesis by simp
qed

end
