(* ===== verification/Contract.thy ===== *)
theory Contract
  imports Analysis Crypto Params
begin

text \<open>
  \<^verbatim>\<open>contract.go\<close> and \<^verbatim>\<open>codeAndHash\<close> of \<^verbatim>\<open>evm.go\<close>: the call frame of a contract, its gas counter and the
  jump destination check with its two caches.

  A \<^verbatim>\<open>ContractRef\<close> is an account or a pointer to the calling contract. Through that pointer the code reads
  the address, the caller address and the value of the calling contract, none of which changes
  during the call; \<open>ContractPtr\<close> holds these three.

  The Go map \<^verbatim>\<open>jumpdests\<close> is created by the outermost contract of a call tree and shared, by
  reference, by all contracts below it. The operations that read or write it take the shared map as
  an argument and return it.
\<close>

datatype ContractRef =
    AccountRef Address
  | ContractPtr (ref_self: Address) (ref_CallerAddress: Address) (ref_value: "int option")

definition ContractRef_Address :: "ContractRef \<Rightarrow> Address" where
  "ContractRef_Address r = (case r of AccountRef a \<Rightarrow> a | ContractPtr a _ _ \<Rightarrow> a)"

type_synonym jumpdests = "Hash \<Rightarrow> bitvec option"

record Contract =
  CallerAddress :: Address
  caller :: ContractRef
  self :: ContractRef
  analysis :: "bitvec option"
  Code :: bytes
  CodeHash :: Hash
  CodeAddr :: "Address option"
  Input :: bytes
  Gas :: u64
  val :: "int option"

definition NewContract ::
  "ContractRef \<Rightarrow> ContractRef \<Rightarrow> int option \<Rightarrow> u64 \<Rightarrow> jumpdests \<Rightarrow> Contract \<times> jumpdests" where
  "NewContract clr object v gas jd =
     (\<lparr>CallerAddress = ContractRef_Address clr, caller = clr, self = object, analysis = None,
       Code = [], CodeHash = zeroHash, CodeAddr = None, Input = [], Gas = gas, val = v\<rparr>,
      case clr of ContractPtr _ _ _ \<Rightarrow> jd | AccountRef _ \<Rightarrow> Map.empty)"

definition validJumpdest ::
  "Contract \<Rightarrow> jumpdests \<Rightarrow> int \<Rightarrow> (bool \<times> Contract \<times> jumpdests) option" where
  "validJumpdest c jd dest =
     (let udest = Uint64 dest in
      if BitLen dest \<ge> 63 \<or> udest \<ge> word_of_nat (length (Code c)) then Some (False, c, jd)
      else do {
        op \<leftarrow> go_index (Code c) (unat udest);
        if op \<noteq> JUMPDEST then Some (False, c, jd)
        else if CodeHash c \<noteq> zeroHash
        then (case jd (CodeHash c) of
                Some bits \<Rightarrow> do { seg \<leftarrow> codeSegment bits (unat udest); Some (seg, c, jd) }
              | None \<Rightarrow> do {
                  bits \<leftarrow> codeBitmap (Code c);
                  seg \<leftarrow> codeSegment bits (unat udest);
                  Some (seg, c, jd(CodeHash c \<mapsto> bits))
                })
        else do {
          bits \<leftarrow> (case analysis c of None \<Rightarrow> codeBitmap (Code c) | Some b \<Rightarrow> Some b);
          seg \<leftarrow> codeSegment bits (unat udest);
          Some (seg, c\<lparr>analysis := Some bits\<rparr>, jd)
        }
      })"

text \<open>The type assertion of \<^verbatim>\<open>AsDelegate\<close> panics when the caller is not a contract.\<close>

definition AsDelegate :: "Contract \<Rightarrow> Contract option" where
  "AsDelegate c =
     (case caller c of
        AccountRef _ \<Rightarrow> None
      | ContractPtr _ ca v \<Rightarrow> Some (c\<lparr>CallerAddress := ca, val := v\<rparr>))"

definition GetByte :: "Contract \<Rightarrow> u64 \<Rightarrow> byte" where
  "GetByte c n = (if n < word_of_nat (length (Code c)) then Code c ! unat n else 0)"

definition GetOp :: "Contract \<Rightarrow> u64 \<Rightarrow> OpCode" where
  "GetOp c n = GetByte c n"

definition Contract_Caller :: "Contract \<Rightarrow> Address" where
  "Contract_Caller c = CallerAddress c"

definition UseGas :: "Contract \<Rightarrow> u64 \<Rightarrow> bool \<times> Contract" where
  "UseGas c gas = (if Gas c < gas then (False, c) else (True, c\<lparr>Gas := Gas c - gas\<rparr>))"

definition Contract_Address :: "Contract \<Rightarrow> Address" where
  "Contract_Address c = ContractRef_Address (self c)"

definition Contract_Value :: "Contract \<Rightarrow> int option" where
  "Contract_Value c = val c"

text \<open>The reference a contract passes on when it calls.\<close>

definition contract_ref :: "Contract \<Rightarrow> ContractRef" where
  "contract_ref c = ContractPtr (Contract_Address c) (CallerAddress c) (val c)"

definition SetCallCode :: "Contract \<Rightarrow> Address option \<Rightarrow> Hash \<Rightarrow> bytes \<Rightarrow> Contract" where
  "SetCallCode c addr hash code = c\<lparr>Code := code, CodeHash := hash, CodeAddr := addr\<rparr>"

record codeAndHash =
  cah_code :: bytes
  cah_hash :: Hash

definition codeAndHash_Hash :: "crypto \<Rightarrow> codeAndHash \<Rightarrow> Hash \<times> codeAndHash" where
  "codeAndHash_Hash cr c =
     (let c = (if cah_hash c = zeroHash then c\<lparr>cah_hash := Keccak256Hash cr [cah_code c]\<rparr> else c)
      in (cah_hash c, c))"

definition SetCodeOptionalHash :: "Contract \<Rightarrow> Address option \<Rightarrow> codeAndHash \<Rightarrow> Contract" where
  "SetCodeOptionalHash c addr cah =
     c\<lparr>Code := cah_code cah, CodeHash := cah_hash cah, CodeAddr := addr\<rparr>"

section \<open>Gas\<close>

lemma UseGas_True: "UseGas c g = (True, c') \<longleftrightarrow> g \<le> Gas c \<and> c' = c\<lparr>Gas := Gas c - g\<rparr>"
  by (auto simp: UseGas_def)

lemma UseGas_exact:
  "UseGas c g = (True, c') \<Longrightarrow> unat (Gas c') + unat g = unat (Gas c)"
  "UseGas c g = (False, c') \<Longrightarrow> c' = c \<and> unat (Gas c) < unat g"
  by (auto simp: UseGas_def unat_sub_u64 word_le_nat_alt word_less_nat_alt split: if_splits)

section \<open>Jump destinations\<close>

text \<open>
  A cache entry is right for a contract when it is the analysis of the contract's code. Since the
  caches are keyed by the code hash, this is where the hash is relied on to identify the code.
\<close>

definition cache_ok :: "Contract \<Rightarrow> jumpdests \<Rightarrow> bool" where
  "cache_ok c jd \<longleftrightarrow>
     (CodeHash c \<noteq> zeroHash \<longrightarrow> (\<forall>bits. jd (CodeHash c) = Some bits \<longrightarrow> codeBitmap (Code c) = Some bits)) \<and>
     (\<forall>bits. analysis c = Some bits \<longrightarrow> codeBitmap (Code c) = Some bits)"

definition jumpdest_ok :: "bytes \<Rightarrow> int \<Rightarrow> bool" where
  "jumpdest_ok code dest \<longleftrightarrow>
     0 \<le> dest \<and> nat dest < length code \<and> code ! nat dest = JUMPDEST \<and> boundary code (nat dest)"

lemma codeBitmap_segment:
  "codeBitmap code = Some bits \<Longrightarrow> pos < length code \<Longrightarrow> codeSegment bits pos = Some (boundary code pos)"
  using codeBitmap_spec [of code] by auto

lemma validJumpdest_range:
  assumes "0 \<le> dest" "length code < 2 ^ 62"
  shows "(BitLen dest \<ge> 63 \<or> Uint64 dest \<ge> word_of_nat (length code)) \<longleftrightarrow> length code \<le> nat dest"
proof -
  have l: "unat (word_of_nat (length code) :: u64) = length code"
    using assms(2) by (intro unat_u64_of_nat) simp
  show ?thesis
  proof (cases "BitLen dest \<ge> 63")
    case True
    then have "\<not> dest < 2 ^ 62" using assms(1) BitLen_le_iff [of dest 62] by simp
    then have "nat (2 ^ 62) \<le> nat dest" by (intro nat_mono) simp
    with True assms(2) show ?thesis by simp
  next
    case False
    then have "dest < 2 ^ 62" using assms(1) BitLen_le_iff [of dest 62] by simp
    with assms(1) have "unat (Uint64 dest) = nat dest" by (intro unat_Uint64) (simp add: IsUint64_def)
    with False l show ?thesis by (simp add: word_le_nat_alt)
  qed
qed

lemma validJumpdest_spec:
  assumes "0 \<le> dest" "length (Code c) < 2 ^ 62" "cache_ok c jd"
  shows "\<exists>c' jd'. validJumpdest c jd dest = Some (jumpdest_ok (Code c) dest, c', jd') \<and> cache_ok c' jd' \<and>
    (\<exists>a. c' = c\<lparr>analysis := a\<rparr>) \<and>
    (\<forall>h. jd' h = jd h \<or> h = CodeHash c \<and> h \<noteq> zeroHash \<and> jd' h = codeBitmap (Code c))"
proof (cases "nat dest < length (Code c) \<and> Code c ! nat dest = JUMPDEST")
  case False
  have "validJumpdest c jd dest = Some (False, c, jd)"
  proof (cases "length (Code c) \<le> nat dest")
    case True
    with validJumpdest_range [OF assms(1,2)] show ?thesis by (simp add: validJumpdest_def)
  next
    case lt: False
    then have "dest < 2 ^ 64" using assms(2) by simp
    with assms(1) have "unat (Uint64 dest) = nat dest" by (intro unat_Uint64) (simp add: IsUint64_def)
    with lt False validJumpdest_range [OF assms(1,2)] show ?thesis
      by (simp add: validJumpdest_def go_index_def)
  qed
  with assms(3) False show ?thesis by (auto simp: jumpdest_ok_def intro: exI [of _ "analysis c"])
next
  case True
  then have "nat dest < length (Code c)" by simp
  then have "dest < 2 ^ 64" using assms(2) by simp
  with assms(1) have u: "unat (Uint64 dest) = nat dest" by (intro unat_Uint64) (simp add: IsUint64_def)
  obtain bits where bits: "codeBitmap (Code c) = Some bits" using codeBitmap_spec by blast
  note seg = codeBitmap_segment [OF bits, of "nat dest"]
  have "validJumpdest c jd dest =
    Some (boundary (Code c) (nat dest),
      if CodeHash c \<noteq> zeroHash then c else c\<lparr>analysis := Some bits\<rparr>,
      if CodeHash c \<noteq> zeroHash then jd(CodeHash c \<mapsto> bits) else jd)"
    using True validJumpdest_range [OF assms(1,2)] assms(3) bits seg u
    by (cases "jd (CodeHash c)"; cases "analysis c")
      (auto simp: validJumpdest_def go_index_def cache_ok_def fun_upd_idem Let_def)
  with True assms(1,3) bits show ?thesis
    by (auto simp: jumpdest_ok_def cache_ok_def intro: exI [of _ "analysis c"])
qed

text \<open>
  (C24) \<^verbatim>\<open>Contract.validJumpdest\<close> accepts a destination exactly when it is the position of a
  \<^verbatim>\<open>JUMPDEST\<close> byte of the code that is the first byte of an instruction, for every 256-bit
  destination. It never panics, whichever of the two caches it uses, as long as the cached analyses are those of the
  contract's code, which it keeps so.
\<close>

theorem validJumpdest_correct:
  assumes "word256 dest" "length (Code c) < 2 ^ 62" "cache_ok c jd"
  shows "\<exists>c' jd'. validJumpdest c jd dest = Some (jumpdest_ok (Code c) dest, c', jd') \<and>
    cache_ok c' jd' \<and> Code c' = Code c \<and> Gas c' = Gas c"
  using validJumpdest_spec [of dest c jd] assms by (auto simp: word256_def)

definition sample_contract :: Contract where
  "sample_contract = SetCallCode (fst (NewContract (AccountRef zeroAddress) (AccountRef zeroAddress) (Some 0) 10 Map.empty))
     None zeroHash [PUSH1, JUMPDEST, JUMPDEST]"

theorem validJumpdest_correct_witness:
  "\<exists>c' jd'. validJumpdest sample_contract Map.empty 1 = Some (False, c', jd')"
proof -
  have "\<not> boundary [PUSH1, JUMPDEST, JUMPDEST] 1"
  proof
    assume "boundary [PUSH1, JUMPDEST, JUMPDEST] 1"
    with boundary_next_le [OF boundary.start this] show False by (simp add: next_pc_def IsPush_def)
  qed
  then have "\<not> jumpdest_ok (Code sample_contract) 1"
    by (simp add: jumpdest_ok_def sample_contract_def SetCallCode_def)
  moreover have "cache_ok sample_contract Map.empty" "length (Code sample_contract) < 2 ^ 62" "word256 1"
    by (simp_all add: cache_ok_def sample_contract_def SetCallCode_def NewContract_def word256_def)
  ultimately show ?thesis using validJumpdest_correct [of 1 sample_contract Map.empty] by auto
qed

end
