(* ===== verification/State.thy ===== *)
theory State
  imports Crypto
begin

text \<open>
  \<^verbatim>\<open>Out/core/state\<close>: the state database of the virtual machine (\<^verbatim>\<open>statedb.go\<close>), its account objects
  (\<^verbatim>\<open>state_object.go\<close>) and the journal that undoes changes (\<^verbatim>\<open>journal.go\<close>); also \<^verbatim>\<open>types.Log\<close>.

  \<^item> The tries and the key-value database below are parameters, the fields of \<open>Database\<close> and the
    account trie \<open>sdb_trie\<close>: what a read returns, decoded, or that it fails.
  \<^item> A \<^verbatim>\<open>*stateObject\<close> is a value. The only live pointer to an object is the entry of \<^verbatim>\<open>stateObjects\<close>, so a method
    that modifies an object stores it back; the pointer kept by a \<^verbatim>\<open>resetObjectChange\<close> is to an object
    nothing else can reach. The back pointer \<^verbatim>\<open>db\<close> is the state argument; \<^verbatim>\<open>addrHash\<close>, the hash of the
    address, only serves to address the storage trie, which is addressed by the address here.
  \<^item> Reads fill caches (\<^verbatim>\<open>stateObjects\<close>, \<^verbatim>\<open>originStorage\<close>, \<^verbatim>\<open>code\<close>), so they return the state too.
  \<^item> \<^verbatim>\<open>code\<close> is nil or not: \<open>None\<close> is nil. Code stored by the virtual machine is nil when it is empty.
  \<^item> A remembered database error (\<^verbatim>\<open>dbErr\<close>) is a flag.
\<close>

section \<open>Types\<close>

record Log =
  log_Address :: Address
  log_Topics :: "Hash list"
  log_Data :: bytes
  log_BlockNumber :: u64
  log_TxHash :: Hash
  log_TxIndex :: u64
  log_BlockHash :: Hash
  log_Index :: u64
  log_Removed :: bool

record Account =
  acc_Nonce :: u64
  acc_Balance :: int
  acc_Root :: Hash
  acc_CodeHash :: bytes

text \<open>Reading an account: missing, a read error, an undecodable value, or the account.\<close>

datatype accountRead = AccMissing | AccError | AccUndecodable | AccFound Account

text \<open>
  Reading a storage slot: a read error, no value, the content of the stored RLP string, or what
  \<^verbatim>\<open>rlp.Split\<close> returned together with an error.
\<close>

datatype slotRead = SlotError | SlotMissing | SlotContent bytes | SlotBadRLP bytes

record Database =
  StorageTrie :: "Address \<Rightarrow> Hash \<Rightarrow> Hash \<Rightarrow> slotRead"
  ContractCode :: "Hash \<Rightarrow> bytes option"

type_synonym Storage = "Hash \<Rightarrow> Hash option"

record stateObject =
  so_address :: Address
  so_data :: Account
  so_dbErr :: bool
  so_code :: "bytes option"
  originStorage :: Storage
  dirtyStorage :: Storage
  dirtyCode :: bool
  suicided :: bool
  deleted :: bool

datatype journalEntry =
    createObjectChange Address
  | resetObjectChange stateObject
  | suicideChange Address bool int
  | balanceChange Address int
  | nonceChange Address u64
  | storageChange Address Hash Hash
  | codeChange Address "bytes option" bytes
  | refundChange u64
  | addLogChange Hash
  | addPreimageChange Hash
  | touchChange Address

record journal =
  entries :: "journalEntry list"
  dirties :: "Address \<Rightarrow> int option"

record revision =
  rev_id :: nat
  rev_journalIndex :: nat

record StateDB =
  sdb_db :: Database
  sdb_trie :: "Address \<Rightarrow> accountRead"
  stateObjects :: "Address \<Rightarrow> stateObject option"
  stateObjectsDirty :: "Address set"
  sdb_dbErr :: bool
  refund :: u64
  thash :: Hash
  bhash :: Hash
  txIndex :: u64
  logs :: "Hash \<Rightarrow> Log list option"
  logSize :: u64
  preimages :: "Hash \<Rightarrow> bytes option"
  sdb_journal :: journal
  validRevisions :: "revision list"
  nextRevisionId :: nat

section \<open>The journal\<close>

definition newJournal :: journal where
  "newJournal = \<lparr>entries = [], dirties = Map.empty\<rparr>"

definition dirtied :: "journalEntry \<Rightarrow> Address option" where
  "dirtied e = (case e of
     createObjectChange a \<Rightarrow> Some a
   | resetObjectChange _ \<Rightarrow> None
   | suicideChange a _ _ \<Rightarrow> Some a
   | balanceChange a _ \<Rightarrow> Some a
   | nonceChange a _ \<Rightarrow> Some a
   | storageChange a _ _ \<Rightarrow> Some a
   | codeChange a _ _ \<Rightarrow> Some a
   | refundChange _ \<Rightarrow> None
   | addLogChange _ \<Rightarrow> None
   | addPreimageChange _ \<Rightarrow> None
   | touchChange a \<Rightarrow> Some a)"

definition journal_dirty :: "journal \<Rightarrow> Address \<Rightarrow> journal" where
  "journal_dirty j a =
     j\<lparr>dirties := (dirties j)(a \<mapsto> (case dirties j a of None \<Rightarrow> 0 | Some n \<Rightarrow> n) + 1)\<rparr>"

definition journal_append :: "journal \<Rightarrow> journalEntry \<Rightarrow> journal" where
  "journal_append j e =
     (let j = j\<lparr>entries := entries j @ [e]\<rparr>
      in case dirtied e of None \<Rightarrow> j | Some a \<Rightarrow> journal_dirty j a)"

definition journal_length :: "journal \<Rightarrow> nat" where
  "journal_length j = length (entries j)"

text \<open>The dirty count that \<^verbatim>\<open>revert\<close> takes back for an entry.\<close>

definition undirty :: "journal \<Rightarrow> journalEntry \<Rightarrow> journal" where
  "undirty j e =
     (case dirtied e of
        None \<Rightarrow> j
      | Some a \<Rightarrow>
          let n = (case dirties j a of None \<Rightarrow> 0 | Some n \<Rightarrow> n) - 1
          in j\<lparr>dirties := (if n = 0 then (dirties j)(a := None) else (dirties j)(a \<mapsto> n))\<rparr>)"

definition add_entry :: "StateDB \<Rightarrow> journalEntry \<Rightarrow> StateDB" where
  "add_entry s e = s\<lparr>sdb_journal := journal_append (sdb_journal s) e\<rparr>"

section \<open>State objects\<close>

definition emptyCodeHash :: "crypto \<Rightarrow> bytes" where
  "emptyCodeHash cr = Keccak256 cr []"

definition ripemd :: Address where
  "ripemd = HexToAddress ''0000000000000000000000000000000000000003''"

definition so_empty :: "crypto \<Rightarrow> stateObject \<Rightarrow> bool" where
  "so_empty cr s \<longleftrightarrow>
     acc_Nonce (so_data s) = 0 \<and> acc_Balance (so_data s) = 0 \<and> acc_CodeHash (so_data s) = emptyCodeHash cr"

text \<open>The account literal given to \<^verbatim>\<open>newObject\<close> may have a nil balance and a nil code hash.\<close>

definition newObject ::
  "crypto \<Rightarrow> Address \<Rightarrow> u64 \<Rightarrow> int option \<Rightarrow> Hash \<Rightarrow> bytes option \<Rightarrow> stateObject" where
  "newObject cr address nonce balance root codeHash =
     \<lparr>so_address = address,
      so_data = \<lparr>acc_Nonce = nonce,
                 acc_Balance = (case balance of None \<Rightarrow> 0 | Some b \<Rightarrow> b),
                 acc_Root = root,
                 acc_CodeHash = (case codeHash of None \<Rightarrow> emptyCodeHash cr | Some h \<Rightarrow> h)\<rparr>,
      so_dbErr = False, so_code = None,
      originStorage = Map.empty, dirtyStorage = Map.empty,
      dirtyCode = False, suicided = False, deleted = False\<rparr>"

definition setStateObject :: "StateDB \<Rightarrow> stateObject \<Rightarrow> StateDB" where
  "setStateObject s obj = s\<lparr>stateObjects := (stateObjects s)(so_address obj \<mapsto> obj)\<rparr>"

definition so_setError :: "stateObject \<Rightarrow> stateObject" where
  "so_setError obj = obj\<lparr>so_dbErr := True\<rparr>"

definition markSuicided :: "stateObject \<Rightarrow> stateObject" where
  "markSuicided obj = obj\<lparr>suicided := True\<rparr>"

definition so_touch :: "StateDB \<Rightarrow> stateObject \<Rightarrow> StateDB" where
  "so_touch s obj =
     (let s = add_entry s (touchChange (so_address obj))
      in if so_address obj = ripemd
         then s\<lparr>sdb_journal := journal_dirty (sdb_journal s) (so_address obj)\<rparr> else s)"

definition so_GetCommittedState :: "Database \<Rightarrow> stateObject \<Rightarrow> Hash \<Rightarrow> Hash \<times> stateObject" where
  "so_GetCommittedState db obj key =
     (case originStorage obj key of
        Some value \<Rightarrow> (value, obj)
      | None \<Rightarrow>
          (case StorageTrie db (so_address obj) (acc_Root (so_data obj)) key of
             SlotError \<Rightarrow> (zeroHash, so_setError obj)
           | SlotMissing \<Rightarrow> (zeroHash, obj\<lparr>originStorage := (originStorage obj)(key \<mapsto> zeroHash)\<rparr>)
           | SlotContent content \<Rightarrow>
               (let value = Hash_SetBytes content
                in (value, obj\<lparr>originStorage := (originStorage obj)(key \<mapsto> value)\<rparr>))
           | SlotBadRLP content \<Rightarrow>
               (let value = Hash_SetBytes content; obj = so_setError obj
                in (value, obj\<lparr>originStorage := (originStorage obj)(key \<mapsto> value)\<rparr>))))"

definition so_GetState :: "Database \<Rightarrow> stateObject \<Rightarrow> Hash \<Rightarrow> Hash \<times> stateObject" where
  "so_GetState db obj key =
     (case dirtyStorage obj key of
        Some value \<Rightarrow> (value, obj)
      | None \<Rightarrow> so_GetCommittedState db obj key)"

definition so_setState :: "stateObject \<Rightarrow> Hash \<Rightarrow> Hash \<Rightarrow> stateObject" where
  "so_setState obj key value = obj\<lparr>dirtyStorage := (dirtyStorage obj)(key \<mapsto> value)\<rparr>"

definition so_SetState :: "StateDB \<Rightarrow> stateObject \<Rightarrow> Hash \<Rightarrow> Hash \<Rightarrow> StateDB" where
  "so_SetState s obj key value =
     (let (prev, obj) = so_GetState (sdb_db s) obj key
      in if prev = value then setStateObject s obj
         else let s = add_entry s (storageChange (so_address obj) key prev)
              in setStateObject s (so_setState obj key value))"

definition so_setBalance :: "stateObject \<Rightarrow> int \<Rightarrow> stateObject" where
  "so_setBalance obj amount = obj\<lparr>so_data := (so_data obj)\<lparr>acc_Balance := amount\<rparr>\<rparr>"

definition so_Balance :: "stateObject \<Rightarrow> int" where
  "so_Balance obj = acc_Balance (so_data obj)"

definition so_SetBalance :: "StateDB \<Rightarrow> stateObject \<Rightarrow> int \<Rightarrow> StateDB" where
  "so_SetBalance s obj amount =
     (let s = add_entry s (balanceChange (so_address obj) (acc_Balance (so_data obj)))
      in setStateObject s (so_setBalance obj amount))"

definition so_AddBalance :: "crypto \<Rightarrow> StateDB \<Rightarrow> stateObject \<Rightarrow> int \<Rightarrow> StateDB" where
  "so_AddBalance cr s obj amount =
     (if amount = 0 then (if so_empty cr obj then so_touch s obj else s)
      else so_SetBalance s obj (so_Balance obj + amount))"

definition so_SubBalance :: "StateDB \<Rightarrow> stateObject \<Rightarrow> int \<Rightarrow> StateDB" where
  "so_SubBalance s obj amount =
     (if amount = 0 then s else so_SetBalance s obj (so_Balance obj - amount))"

definition so_CodeHash :: "stateObject \<Rightarrow> bytes" where
  "so_CodeHash obj = acc_CodeHash (so_data obj)"

definition so_Nonce :: "stateObject \<Rightarrow> u64" where
  "so_Nonce obj = acc_Nonce (so_data obj)"

definition so_setNonce :: "stateObject \<Rightarrow> u64 \<Rightarrow> stateObject" where
  "so_setNonce obj nonce = obj\<lparr>so_data := (so_data obj)\<lparr>acc_Nonce := nonce\<rparr>\<rparr>"

definition so_SetNonce :: "StateDB \<Rightarrow> stateObject \<Rightarrow> u64 \<Rightarrow> StateDB" where
  "so_SetNonce s obj nonce =
     (let s = add_entry s (nonceChange (so_address obj) (acc_Nonce (so_data obj)))
      in setStateObject s (so_setNonce obj nonce))"

text \<open>A slice of code as the field \<^verbatim>\<open>code\<close> holds it.\<close>

definition nil_code :: "bytes \<Rightarrow> bytes option" where
  "nil_code c = (if c = [] then None else Some c)"

definition so_Code :: "crypto \<Rightarrow> Database \<Rightarrow> stateObject \<Rightarrow> bytes option \<times> stateObject" where
  "so_Code cr db obj =
     (case so_code obj of
        Some c \<Rightarrow> (Some c, obj)
      | None \<Rightarrow>
          if so_CodeHash obj = emptyCodeHash cr then (None, obj)
          else (case ContractCode db (BytesToHash (so_CodeHash obj)) of
                  None \<Rightarrow> (None, (so_setError obj)\<lparr>so_code := None\<rparr>)
                | Some code \<Rightarrow> (nil_code code, obj\<lparr>so_code := nil_code code\<rparr>)))"

definition so_setCode :: "stateObject \<Rightarrow> Hash \<Rightarrow> bytes option \<Rightarrow> stateObject" where
  "so_setCode obj codeHash code =
     obj\<lparr>so_code := code, so_data := (so_data obj)\<lparr>acc_CodeHash := codeHash\<rparr>, dirtyCode := True\<rparr>"

definition so_SetCode :: "crypto \<Rightarrow> StateDB \<Rightarrow> stateObject \<Rightarrow> Hash \<Rightarrow> bytes \<Rightarrow> StateDB" where
  "so_SetCode cr s obj codeHash code =
     (let (prevcode, obj) = so_Code cr (sdb_db s) obj;
          s = add_entry s (codeChange (so_address obj) prevcode (so_CodeHash obj))
      in setStateObject s (so_setCode obj codeHash (nil_code code)))"

section \<open>The state database\<close>

definition StateDB_New :: "Database \<Rightarrow> (Address \<Rightarrow> accountRead) \<Rightarrow> StateDB" where
  "StateDB_New db tr =
     \<lparr>sdb_db = db, sdb_trie = tr, stateObjects = Map.empty, stateObjectsDirty = {}, sdb_dbErr = False,
      refund = 0, thash = zeroHash, bhash = zeroHash, txIndex = 0, logs = Map.empty, logSize = 0,
      preimages = Map.empty, sdb_journal = newJournal, validRevisions = [], nextRevisionId = 0\<rparr>"

definition StateDB_setError :: "StateDB \<Rightarrow> StateDB" where
  "StateDB_setError s = s\<lparr>sdb_dbErr := True\<rparr>"

definition getStateObject :: "crypto \<Rightarrow> StateDB \<Rightarrow> Address \<Rightarrow> stateObject option \<times> StateDB" where
  "getStateObject cr s addr =
     (case stateObjects s addr of
        Some obj \<Rightarrow> (if deleted obj then None else Some obj, s)
      | None \<Rightarrow>
          (case sdb_trie s addr of
             AccMissing \<Rightarrow> (None, s)
           | AccError \<Rightarrow> (None, StateDB_setError s)
           | AccUndecodable \<Rightarrow> (None, s)
           | AccFound acc \<Rightarrow>
               (let obj = newObject cr addr (acc_Nonce acc) (Some (acc_Balance acc)) (acc_Root acc)
                            (Some (acc_CodeHash acc))
                in (Some obj, setStateObject s obj))))"

definition createObject ::
  "crypto \<Rightarrow> StateDB \<Rightarrow> Address \<Rightarrow> stateObject \<times> stateObject option \<times> StateDB" where
  "createObject cr s addr =
     (let (prev, s) = getStateObject cr s addr;
          newobj = so_setNonce (newObject cr addr 0 None zeroHash None) 0;
          s = (case prev of None \<Rightarrow> add_entry s (createObjectChange addr)
                          | Some p \<Rightarrow> add_entry s (resetObjectChange p))
      in (newobj, prev, setStateObject s newobj))"

definition GetOrNewStateObject :: "crypto \<Rightarrow> StateDB \<Rightarrow> Address \<Rightarrow> stateObject \<times> StateDB" where
  "GetOrNewStateObject cr s addr =
     (let (o1, s) = getStateObject cr s addr
      in case o1 of
           Some obj \<Rightarrow> (if deleted obj then (let (n, _, s) = createObject cr s addr in (n, s)) else (obj, s))
         | None \<Rightarrow> (let (n, _, s) = createObject cr s addr in (n, s)))"

definition CreateAccount :: "crypto \<Rightarrow> StateDB \<Rightarrow> Address \<Rightarrow> StateDB" where
  "CreateAccount cr s addr =
     (let (newObj, prev, s) = createObject cr s addr
      in case prev of None \<Rightarrow> s | Some p \<Rightarrow> setStateObject s (so_setBalance newObj (acc_Balance (so_data p))))"

definition AddLog :: "StateDB \<Rightarrow> Log \<Rightarrow> StateDB" where
  "AddLog s log =
     (let s = add_entry s (addLogChange (thash s));
          log = log\<lparr>log_TxHash := thash s, log_BlockHash := bhash s, log_TxIndex := txIndex s,
                    log_Index := logSize s\<rparr>
      in s\<lparr>logs := (logs s)(thash s \<mapsto> (case logs s (thash s) of None \<Rightarrow> [] | Some l \<Rightarrow> l) @ [log]),
           logSize := logSize s + 1\<rparr>)"

definition AddPreimage :: "StateDB \<Rightarrow> Hash \<Rightarrow> bytes \<Rightarrow> StateDB" where
  "AddPreimage s hash preimage =
     (case preimages s hash of
        Some _ \<Rightarrow> s
      | None \<Rightarrow> (let s = add_entry s (addPreimageChange hash)
                 in s\<lparr>preimages := (preimages s)(hash \<mapsto> preimage)\<rparr>))"

definition AddRefund :: "StateDB \<Rightarrow> u64 \<Rightarrow> StateDB" where
  "AddRefund s gas =
     (let s = add_entry s (refundChange (refund s)) in s\<lparr>refund := refund s + gas\<rparr>)"

definition SubRefund :: "StateDB \<Rightarrow> u64 \<Rightarrow> StateDB option" where
  "SubRefund s gas =
     (let s = add_entry s (refundChange (refund s))
      in if gas > refund s then None else Some (s\<lparr>refund := refund s - gas\<rparr>))"

definition GetRefund :: "StateDB \<Rightarrow> u64" where
  "GetRefund s = refund s"

definition Exist :: "crypto \<Rightarrow> StateDB \<Rightarrow> Address \<Rightarrow> bool \<times> StateDB" where
  "Exist cr s addr = (let (o1, s) = getStateObject cr s addr in (o1 \<noteq> None, s))"

definition Empty :: "crypto \<Rightarrow> StateDB \<Rightarrow> Address \<Rightarrow> bool \<times> StateDB" where
  "Empty cr s addr =
     (let (so, s) = getStateObject cr s addr
      in (case so of None \<Rightarrow> True | Some obj \<Rightarrow> so_empty cr obj, s))"

definition GetBalance :: "crypto \<Rightarrow> StateDB \<Rightarrow> Address \<Rightarrow> int \<times> StateDB" where
  "GetBalance cr s addr =
     (let (so, s) = getStateObject cr s addr
      in (case so of None \<Rightarrow> 0 | Some obj \<Rightarrow> so_Balance obj, s))"

definition GetNonce :: "crypto \<Rightarrow> StateDB \<Rightarrow> Address \<Rightarrow> u64 \<times> StateDB" where
  "GetNonce cr s addr =
     (let (so, s) = getStateObject cr s addr
      in (case so of None \<Rightarrow> 0 | Some obj \<Rightarrow> so_Nonce obj, s))"

definition GetCode :: "crypto \<Rightarrow> StateDB \<Rightarrow> Address \<Rightarrow> bytes \<times> StateDB" where
  "GetCode cr s addr =
     (let (so, s) = getStateObject cr s addr
      in case so of
           None \<Rightarrow> ([], s)
         | Some obj \<Rightarrow> (let (c, obj) = so_Code cr (sdb_db s) obj
                         in (case c of None \<Rightarrow> [] | Some b \<Rightarrow> b, setStateObject s obj)))"

definition GetCodeSize :: "crypto \<Rightarrow> StateDB \<Rightarrow> Address \<Rightarrow> nat \<times> StateDB" where
  "GetCodeSize cr s addr =
     (let (so, s) = getStateObject cr s addr
      in case so of
           None \<Rightarrow> (0, s)
         | Some obj \<Rightarrow>
             (case so_code obj of
                Some c \<Rightarrow> (length c, s)
              | None \<Rightarrow> (case ContractCode (sdb_db s) (BytesToHash (so_CodeHash obj)) of
                           None \<Rightarrow> (0, StateDB_setError s)
                         | Some c \<Rightarrow> (length c, s))))"

definition GetCodeHash :: "crypto \<Rightarrow> StateDB \<Rightarrow> Address \<Rightarrow> Hash \<times> StateDB" where
  "GetCodeHash cr s addr =
     (let (so, s) = getStateObject cr s addr
      in (case so of None \<Rightarrow> zeroHash | Some obj \<Rightarrow> BytesToHash (so_CodeHash obj), s))"

definition GetState :: "crypto \<Rightarrow> StateDB \<Rightarrow> Address \<Rightarrow> Hash \<Rightarrow> Hash \<times> StateDB" where
  "GetState cr s addr key =
     (let (so, s) = getStateObject cr s addr
      in case so of
           None \<Rightarrow> (zeroHash, s)
         | Some obj \<Rightarrow> (let (v, obj) = so_GetState (sdb_db s) obj key in (v, setStateObject s obj)))"

definition GetCommittedState :: "crypto \<Rightarrow> StateDB \<Rightarrow> Address \<Rightarrow> Hash \<Rightarrow> Hash \<times> StateDB" where
  "GetCommittedState cr s addr key =
     (let (so, s) = getStateObject cr s addr
      in case so of
           None \<Rightarrow> (zeroHash, s)
         | Some obj \<Rightarrow>
             (let (v, obj) = so_GetCommittedState (sdb_db s) obj key in (v, setStateObject s obj)))"

definition HasSuicided :: "crypto \<Rightarrow> StateDB \<Rightarrow> Address \<Rightarrow> bool \<times> StateDB" where
  "HasSuicided cr s addr =
     (let (so, s) = getStateObject cr s addr
      in (case so of None \<Rightarrow> False | Some obj \<Rightarrow> suicided obj, s))"

definition AddBalance :: "crypto \<Rightarrow> StateDB \<Rightarrow> Address \<Rightarrow> int \<Rightarrow> StateDB" where
  "AddBalance cr s addr amount =
     (let (obj, s) = GetOrNewStateObject cr s addr in so_AddBalance cr s obj amount)"

definition SubBalance :: "crypto \<Rightarrow> StateDB \<Rightarrow> Address \<Rightarrow> int \<Rightarrow> StateDB" where
  "SubBalance cr s addr amount =
     (let (obj, s) = GetOrNewStateObject cr s addr in so_SubBalance s obj amount)"

definition SetBalance :: "crypto \<Rightarrow> StateDB \<Rightarrow> Address \<Rightarrow> int \<Rightarrow> StateDB" where
  "SetBalance cr s addr amount =
     (let (obj, s) = GetOrNewStateObject cr s addr in so_SetBalance s obj amount)"

definition SetNonce :: "crypto \<Rightarrow> StateDB \<Rightarrow> Address \<Rightarrow> u64 \<Rightarrow> StateDB" where
  "SetNonce cr s addr nonce =
     (let (obj, s) = GetOrNewStateObject cr s addr in so_SetNonce s obj nonce)"

definition SetCode :: "crypto \<Rightarrow> StateDB \<Rightarrow> Address \<Rightarrow> bytes \<Rightarrow> StateDB" where
  "SetCode cr s addr code =
     (let (obj, s) = GetOrNewStateObject cr s addr in so_SetCode cr s obj (Keccak256Hash cr [code]) code)"

definition SetState :: "crypto \<Rightarrow> StateDB \<Rightarrow> Address \<Rightarrow> Hash \<Rightarrow> Hash \<Rightarrow> StateDB" where
  "SetState cr s addr key value =
     (let (obj, s) = GetOrNewStateObject cr s addr in so_SetState s obj key value)"

definition Suicide :: "crypto \<Rightarrow> StateDB \<Rightarrow> Address \<Rightarrow> bool \<times> StateDB" where
  "Suicide cr s addr =
     (let (so, s) = getStateObject cr s addr
      in case so of
           None \<Rightarrow> (False, s)
         | Some obj \<Rightarrow>
             (let s = add_entry s (suicideChange addr (suicided obj) (so_Balance obj))
              in (True, setStateObject s (so_setBalance (markSuicided obj) 0))))"

section \<open>Snapshots\<close>

text \<open>Undoing one entry; \<open>None\<close> is a nil dereference or a slice out of range.\<close>

definition on_object :: "crypto \<Rightarrow> StateDB \<Rightarrow> Address \<Rightarrow> (stateObject \<Rightarrow> stateObject) \<Rightarrow> StateDB option" where
  "on_object cr s addr f =
     (let (so, s) = getStateObject cr s addr
      in case so of None \<Rightarrow> None | Some obj \<Rightarrow> Some (setStateObject s (f obj)))"

definition revert_entry :: "crypto \<Rightarrow> journalEntry \<Rightarrow> StateDB \<Rightarrow> StateDB option" where
  "revert_entry cr e s = (case e of
     createObjectChange a \<Rightarrow>
       Some (s\<lparr>stateObjects := (stateObjects s)(a := None),
               stateObjectsDirty := stateObjectsDirty s - {a}\<rparr>)
   | resetObjectChange prev \<Rightarrow> Some (setStateObject s prev)
   | suicideChange a prev prevbalance \<Rightarrow>
       (let (so, s) = getStateObject cr s a
        in case so of
             None \<Rightarrow> Some s
           | Some obj \<Rightarrow> Some (setStateObject s (so_setBalance (obj\<lparr>suicided := prev\<rparr>) prevbalance)))
   | touchChange _ \<Rightarrow> Some s
   | balanceChange a prev \<Rightarrow> on_object cr s a (\<lambda>obj. so_setBalance obj prev)
   | nonceChange a prev \<Rightarrow> on_object cr s a (\<lambda>obj. so_setNonce obj prev)
   | codeChange a prevcode prevhash \<Rightarrow>
       on_object cr s a (\<lambda>obj. so_setCode obj (BytesToHash prevhash) prevcode)
   | storageChange a key prevalue \<Rightarrow> on_object cr s a (\<lambda>obj. so_setState obj key prevalue)
   | refundChange prev \<Rightarrow> Some (s\<lparr>refund := prev\<rparr>)
   | addLogChange txhash \<Rightarrow>
       (let lgs = (case logs s txhash of None \<Rightarrow> [] | Some l \<Rightarrow> l)
        in if length lgs = 1
           then Some (s\<lparr>logs := (logs s)(txhash := None), logSize := logSize s - 1\<rparr>)
           else if length lgs = 0 then None
           else Some (s\<lparr>logs := (logs s)(txhash \<mapsto> take (length lgs - 1) lgs),
                        logSize := logSize s - 1\<rparr>))
   | addPreimageChange hash \<Rightarrow> Some (s\<lparr>preimages := (preimages s)(hash := None)\<rparr>))"

text \<open>The loop of \<^verbatim>\<open>journal.revert\<close>, over the entries it undoes, the last one first.\<close>

fun revert_loop :: "crypto \<Rightarrow> journalEntry list \<Rightarrow> StateDB \<Rightarrow> StateDB option" where
  "revert_loop cr [] s = Some s"
| "revert_loop cr (e # es) s =
     do {
       s \<leftarrow> revert_entry cr e s;
       revert_loop cr es (s\<lparr>sdb_journal := undirty (sdb_journal s) e\<rparr>)
     }"

definition journal_revert :: "crypto \<Rightarrow> StateDB \<Rightarrow> nat \<Rightarrow> StateDB option" where
  "journal_revert cr s snapshot =
     do {
       s \<leftarrow> revert_loop cr (rev (drop snapshot (entries (sdb_journal s)))) s;
       es \<leftarrow> go_slice (entries (sdb_journal s)) 0 snapshot;
       Some (s\<lparr>sdb_journal := (sdb_journal s)\<lparr>entries := es\<rparr>\<rparr>)
     }"

text \<open>\<^verbatim>\<open>sort.Search\<close> of the standard library: binary search for the first index that satisfies \<open>f\<close>.\<close>

function search_loop :: "(nat \<Rightarrow> bool) \<Rightarrow> nat \<Rightarrow> nat \<Rightarrow> nat" where
  "search_loop f i j =
     (if i < j then (let h = (i + j) div 2 in
                     if \<not> f h then search_loop f (h + 1) j else search_loop f i h)
      else i)"
  by pat_completeness auto
termination
  by (relation "measure (\<lambda>(f, i, j). j - i)") auto

declare search_loop.simps [simp del]

definition sort_Search :: "nat \<Rightarrow> (nat \<Rightarrow> bool) \<Rightarrow> nat" where
  "sort_Search n f = search_loop f 0 n"

definition Snapshot :: "StateDB \<Rightarrow> nat \<times> StateDB" where
  "Snapshot s =
     (let id1 = nextRevisionId s;
          s = s\<lparr>nextRevisionId := nextRevisionId s + 1\<rparr>
      in (id1, s\<lparr>validRevisions := validRevisions s @
             [\<lparr>rev_id = id1, rev_journalIndex = journal_length (sdb_journal s)\<rparr>]\<rparr>))"

definition RevertToSnapshot :: "crypto \<Rightarrow> StateDB \<Rightarrow> nat \<Rightarrow> StateDB option" where
  "RevertToSnapshot cr s revid =
     (let n = length (validRevisions s);
          idx = sort_Search n (\<lambda>i. rev_id (validRevisions s ! i) \<ge> revid)
      in if idx = n \<or> rev_id (validRevisions s ! idx) \<noteq> revid then None
         else do {
           s \<leftarrow> journal_revert cr s (rev_journalIndex (validRevisions s ! idx));
           Some (s\<lparr>validRevisions := take idx (validRevisions s)\<rparr>)
         })"

definition clearJournalAndRefund :: "StateDB \<Rightarrow> StateDB" where
  "clearJournalAndRefund s = s\<lparr>sdb_journal := newJournal, validRevisions := [], refund := 0\<rparr>"

definition Prepare :: "StateDB \<Rightarrow> Hash \<Rightarrow> Hash \<Rightarrow> u64 \<Rightarrow> StateDB" where
  "Prepare s th bh ti = s\<lparr>thash := th, bhash := bh, txIndex := ti\<rparr>"

definition Reset :: "StateDB \<Rightarrow> (Address \<Rightarrow> accountRead) \<Rightarrow> StateDB" where
  "Reset s tr =
     clearJournalAndRefund
       (s\<lparr>sdb_trie := tr, stateObjects := Map.empty, stateObjectsDirty := {}, thash := zeroHash,
          bhash := zeroHash, txIndex := 0, logs := Map.empty, logSize := 0, preimages := Map.empty\<rparr>)"

section \<open>Transfers (\<^verbatim>\<open>Out/core/evm.go\<close>)\<close>

definition CanTransfer :: "crypto \<Rightarrow> StateDB \<Rightarrow> Address \<Rightarrow> int \<Rightarrow> bool \<times> StateDB" where
  "CanTransfer cr db addr amount = (let (b, db) = GetBalance cr db addr in (b \<ge> amount, db))"

definition Transfer :: "crypto \<Rightarrow> StateDB \<Rightarrow> Address \<Rightarrow> Address \<Rightarrow> int \<Rightarrow> StateDB" where
  "Transfer cr db sender recipient amount =
     AddBalance cr (SubBalance cr db sender amount) recipient amount"

end
