(* ===== verification/State_Revert.thy ===== *)
theory State_Revert
  imports State
begin

text \<open>
  What the virtual machine observes of the state database, and that the journal restores it: the
  lemmas behind \<^verbatim>\<open>Snapshot\<close> and \<^verbatim>\<open>RevertToSnapshot\<close>. The locale \<open>snapshots\<close> is the contract the virtual
  machine relies on, interpreted on the operations of the state database.
\<close>

section \<open>The observable state\<close>

record acctView =
  av_nonce :: u64
  av_balance :: int
  av_codehash :: bytes
  av_code :: "bytes option"
  av_codesize :: nat
  av_suicided :: bool
  av_storage :: "Hash \<Rightarrow> Hash"
  av_committed :: "Hash \<Rightarrow> Hash"

definition codeSize :: "Database \<Rightarrow> stateObject \<Rightarrow> nat" where
  "codeSize db obj = (case so_code obj of
     Some c \<Rightarrow> length c
   | None \<Rightarrow> (case ContractCode db (BytesToHash (so_CodeHash obj)) of None \<Rightarrow> 0 | Some c \<Rightarrow> length c))"

definition obj_view :: "crypto \<Rightarrow> Database \<Rightarrow> stateObject \<Rightarrow> acctView" where
  "obj_view cr db obj =
     \<lparr>av_nonce = acc_Nonce (so_data obj), av_balance = acc_Balance (so_data obj),
      av_codehash = acc_CodeHash (so_data obj), av_code = fst (so_Code cr db obj),
      av_codesize = codeSize db obj, av_suicided = suicided obj,
      av_storage = (\<lambda>k. fst (so_GetState db obj k)),
      av_committed = (\<lambda>k. fst (so_GetCommittedState db obj k))\<rparr>"

definition peek_obj :: "crypto \<Rightarrow> StateDB \<Rightarrow> Address \<Rightarrow> stateObject option" where
  "peek_obj cr s a = fst (getStateObject cr s a)"

definition acct :: "crypto \<Rightarrow> StateDB \<Rightarrow> Address \<Rightarrow> acctView option" where
  "acct cr s a = map_option (obj_view cr (sdb_db s)) (peek_obj cr s a)"

definition logs_of :: "StateDB \<Rightarrow> Hash \<Rightarrow> Log list" where
  "logs_of s h = (case logs s h of None \<Rightarrow> [] | Some l \<Rightarrow> l)"

text \<open>Two states the virtual machine cannot tell apart, over the same database.\<close>

definition frame :: "StateDB \<Rightarrow> Database \<times> (Address \<Rightarrow> accountRead) \<times> Hash \<times> Hash \<times> u64" where
  "frame s = (sdb_db s, sdb_trie s, thash s, bhash s, txIndex s)"

definition same_view :: "crypto \<Rightarrow> StateDB \<Rightarrow> StateDB \<Rightarrow> bool" where
  "same_view cr s t \<longleftrightarrow>
     frame s = frame t \<and> acct cr s = acct cr t \<and> refund s = refund t \<and> logs_of s = logs_of t \<and>
     logSize s = logSize t \<and> preimages s = preimages t"

lemma same_view_refl [simp]: "same_view cr s s"
  by (simp add: same_view_def)

lemma same_view_sym: "same_view cr s t \<Longrightarrow> same_view cr t s"
  by (simp add: same_view_def)

lemma same_view_trans: "same_view cr s t \<Longrightarrow> same_view cr t u \<Longrightarrow> same_view cr s u"
  by (simp add: same_view_def)

section \<open>Well-formed states\<close>

text \<open>
  Live objects sit at their address; an object marked deleted is gone from the trie; code hashes have
  32 bytes, also those of the accounts in the trie; the revisions are in order.
\<close>

definition obj_ok :: "StateDB \<Rightarrow> Address \<Rightarrow> stateObject \<Rightarrow> bool" where
  "obj_ok s a obj \<longleftrightarrow>
     so_address obj = a \<and> length (acc_CodeHash (so_data obj)) = 32 \<and>
     (deleted obj \<longrightarrow> (\<forall>acc. sdb_trie s a \<noteq> AccFound acc))"

definition trie_ok :: "(Address \<Rightarrow> accountRead) \<Rightarrow> bool" where
  "trie_ok tr \<longleftrightarrow> (\<forall>a acc. tr a = AccFound acc \<longrightarrow> length (acc_CodeHash acc) = 32)"

definition rev_ok :: "StateDB \<Rightarrow> bool" where
  "rev_ok s \<longleftrightarrow>
     sorted_wrt (<) (map rev_id (validRevisions s)) \<and>
     (\<forall>r \<in> set (validRevisions s). rev_id r < nextRevisionId s)"

definition state_wf :: "StateDB \<Rightarrow> bool" where
  "state_wf s \<longleftrightarrow>
     (\<forall>a obj. stateObjects s a = Some obj \<longrightarrow> obj_ok s a obj) \<and> trie_ok (sdb_trie s) \<and> rev_ok s"

lemma state_wf_obj: "state_wf s \<Longrightarrow> stateObjects s a = Some obj \<Longrightarrow> obj_ok s a obj"
  by (simp add: state_wf_def)

section \<open>Reading objects\<close>

lemma newObject_fields [simp]:
  "so_address (newObject cr a n b r h) = a" "deleted (newObject cr a n b r h) = False"
  by (simp_all add: newObject_def)

lemma emptyCodeHash_length [simp]: "crypto_ok cr \<Longrightarrow> length (emptyCodeHash cr) = 32"
  by (simp add: emptyCodeHash_def)

text \<open>\<open>getStateObject\<close> only fills the cache: the state it returns looks the same.\<close>

lemma getStateObject_frame:
  "getStateObject cr s a = (o1, s') \<Longrightarrow>
   frame s' = frame s \<and> refund s' = refund s \<and> logs s' = logs s \<and> logSize s' = logSize s \<and>
   preimages s' = preimages s \<and> sdb_journal s' = sdb_journal s \<and>
   validRevisions s' = validRevisions s \<and> nextRevisionId s' = nextRevisionId s"
  by (auto simp: getStateObject_def frame_def setStateObject_def StateDB_setError_def Let_def
      split: option.splits accountRead.splits if_splits)

lemma getStateObject_peek:
  "getStateObject cr s a = (o1, s') \<Longrightarrow> peek_obj cr s' = peek_obj cr s \<and> o1 = peek_obj cr s a"
  by (rule conjI, rule ext)
    (auto simp: getStateObject_def peek_obj_def setStateObject_def StateDB_setError_def Let_def
      split: option.splits accountRead.splits if_splits)

lemma peek_obj_Some:
  assumes "getStateObject cr s a = (Some obj, s')"
  shows "stateObjects s' a = Some obj \<and> \<not> deleted obj"
  using assms
  by (auto simp: getStateObject_def setStateObject_def Let_def
      split: option.splits accountRead.splits if_splits)

lemma getStateObject_wf:
  assumes "getStateObject cr s a = (o1, s')" "state_wf s"
  shows "state_wf s'"
  using assms
  by (auto simp: getStateObject_def state_wf_def obj_ok_def trie_ok_def rev_ok_def setStateObject_def
      StateDB_setError_def newObject_def Let_def
      split: option.splits accountRead.splits if_splits)

lemma getStateObject_same_view:
  "getStateObject cr s a = (o1, s') \<Longrightarrow> same_view cr s' s"
  using getStateObject_frame [of cr s a o1 s'] getStateObject_peek [of cr s a o1 s']
  by (auto simp: same_view_def acct_def frame_def logs_of_def fun_eq_iff)

section \<open>Changing objects\<close>

lemma setStateObject_fields [simp]:
  "frame (setStateObject s obj) = frame s" "refund (setStateObject s obj) = refund s"
  "logs (setStateObject s obj) = logs s" "logSize (setStateObject s obj) = logSize s"
  "preimages (setStateObject s obj) = preimages s" "sdb_journal (setStateObject s obj) = sdb_journal s"
  "validRevisions (setStateObject s obj) = validRevisions s"
  "nextRevisionId (setStateObject s obj) = nextRevisionId s"
  "sdb_db (setStateObject s obj) = sdb_db s" "sdb_trie (setStateObject s obj) = sdb_trie s"
  "logs_of (setStateObject s obj) = logs_of s"
  "stateObjects (setStateObject s obj) = (stateObjects s)(so_address obj \<mapsto> obj)"
  by (simp_all add: setStateObject_def frame_def logs_of_def fun_eq_iff)

lemma add_entry_fields [simp]:
  "frame (add_entry s e) = frame s" "refund (add_entry s e) = refund s"
  "logs (add_entry s e) = logs s" "logSize (add_entry s e) = logSize s"
  "preimages (add_entry s e) = preimages s" "validRevisions (add_entry s e) = validRevisions s"
  "nextRevisionId (add_entry s e) = nextRevisionId s" "sdb_db (add_entry s e) = sdb_db s"
  "sdb_trie (add_entry s e) = sdb_trie s" "stateObjects (add_entry s e) = stateObjects s"
  "logs_of (add_entry s e) = logs_of s" "thash (add_entry s e) = thash s"
  "bhash (add_entry s e) = bhash s" "txIndex (add_entry s e) = txIndex s"
  "entries (sdb_journal (add_entry s e)) = entries (sdb_journal s) @ [e]"
  by (simp_all add: add_entry_def frame_def logs_of_def fun_eq_iff journal_append_def journal_dirty_def
      Let_def split: option.split)

lemma peek_obj_cong:
  "stateObjects s = stateObjects t \<Longrightarrow> sdb_trie s = sdb_trie t \<Longrightarrow> peek_obj cr s = peek_obj cr t"
  by (rule ext) (simp add: peek_obj_def getStateObject_def Let_def split: option.split accountRead.split)

lemma acct_cong:
  "stateObjects s = stateObjects t \<Longrightarrow> sdb_trie s = sdb_trie t \<Longrightarrow> sdb_db s = sdb_db t \<Longrightarrow>
   acct cr s = acct cr t"
  using peek_obj_cong [of s t cr] by (simp add: acct_def fun_eq_iff)

lemma acct_add_entry [simp]: "acct cr (add_entry s e) = acct cr s"
  by (rule acct_cong) simp_all

lemma peek_obj_set:
  "\<not> deleted obj \<Longrightarrow> peek_obj cr (setStateObject s obj) = (peek_obj cr s)(so_address obj \<mapsto> obj)"
  by (rule ext) (simp add: peek_obj_def getStateObject_def Let_def split: option.split accountRead.split)

lemma acct_set:
  "\<not> deleted obj \<Longrightarrow>
   acct cr (setStateObject s obj) = (acct cr s)(so_address obj \<mapsto> obj_view cr (sdb_db s) obj)"
  by (simp add: acct_def peek_obj_set fun_eq_iff)

lemma state_wf_set:
  "state_wf s \<Longrightarrow> obj_ok s (so_address obj) obj \<Longrightarrow> state_wf (setStateObject s obj)"
  by (auto simp: state_wf_def obj_ok_def rev_ok_def)

lemma state_wf_cong:
  "state_wf s \<Longrightarrow> stateObjects t = stateObjects s \<Longrightarrow> sdb_trie t = sdb_trie s \<Longrightarrow>
   validRevisions t = validRevisions s \<Longrightarrow> nextRevisionId t = nextRevisionId s \<Longrightarrow> state_wf t"
  by (auto simp: state_wf_def obj_ok_def rev_ok_def)

lemma state_wf_add_entry [simp]: "state_wf (add_entry s e) \<longleftrightarrow> state_wf s"
  using state_wf_cong [of s "add_entry s e"] state_wf_cong [of "add_entry s e" s] by auto

lemma peek_obj_ok:
  assumes "state_wf s" "peek_obj cr s a = Some obj"
  shows "obj_ok s a obj \<and> \<not> deleted obj"
proof -
  obtain s' where g: "getStateObject cr s a = (Some obj, s')"
    using assms(2) by (metis peek_obj_def prod.collapse)
  with getStateObject_wf [OF g assms(1)] peek_obj_Some [OF g] getStateObject_frame [OF g]
  show ?thesis by (auto simp: state_wf_def obj_ok_def frame_def)
qed

lemma on_object_spec:
  assumes "peek_obj cr t a = Some obj" "state_wf t" "so_address (f obj) = a" "\<not> deleted (f obj)"
    "length (acc_CodeHash (so_data (f obj))) = 32"
  obtains t' where "on_object cr t a f = Some t'" "state_wf t'"
    "acct cr t' = (acct cr t)(a \<mapsto> obj_view cr (sdb_db t) (f obj))"
    "frame t' = frame t" "refund t' = refund t" "logs t' = logs t" "logSize t' = logSize t"
    "preimages t' = preimages t" "sdb_journal t' = sdb_journal t"
    "validRevisions t' = validRevisions t" "nextRevisionId t' = nextRevisionId t"
proof -
  obtain u where g: "getStateObject cr t a = (Some obj, u)"
    using assms(1) by (metis peek_obj_def prod.collapse)
  note fr = getStateObject_frame [OF g] and pk = getStateObject_peek [OF g]
  have "acct cr u = acct cr t" using pk fr by (simp add: acct_def frame_def fun_eq_iff)
  moreover have "state_wf (setStateObject u (f obj))"
    using getStateObject_wf [OF g assms(2)] assms(3-5) by (intro state_wf_set) (auto simp: obj_ok_def)
  moreover have "sdb_db u = sdb_db t" using fr by (simp add: frame_def)
  ultimately show ?thesis
    using that [of "setStateObject u (f obj)"] g fr assms(3,4) by (simp add: on_object_def acct_set)
qed

section \<open>How the fields of an object show in its view\<close>

definition slot_value :: "slotRead \<Rightarrow> Hash" where
  "slot_value r = (case r of SlotError \<Rightarrow> zeroHash | SlotMissing \<Rightarrow> zeroHash
     | SlotContent c \<Rightarrow> Hash_SetBytes c | SlotBadRLP c \<Rightarrow> Hash_SetBytes c)"

lemma fst_GetCommittedState:
  "fst (so_GetCommittedState db obj k) =
     (case originStorage obj k of Some v \<Rightarrow> v
      | None \<Rightarrow> slot_value (StorageTrie db (so_address obj) (acc_Root (so_data obj)) k))"
  by (simp add: so_GetCommittedState_def slot_value_def Let_def split: option.split slotRead.split)

lemma fst_GetState:
  "fst (so_GetState db obj k) =
     (case dirtyStorage obj k of Some v \<Rightarrow> v | None \<Rightarrow> fst (so_GetCommittedState db obj k))"
  by (simp add: so_GetState_def split: option.split)

definition stored_code :: "crypto \<Rightarrow> Database \<Rightarrow> bytes \<Rightarrow> bytes option" where
  "stored_code cr db h = (if h = emptyCodeHash cr then None
     else (case ContractCode db (BytesToHash h) of None \<Rightarrow> None | Some b \<Rightarrow> nil_code b))"

lemma fst_Code:
  "fst (so_Code cr db obj) = (case so_code obj of Some c \<Rightarrow> Some c
     | None \<Rightarrow> stored_code cr db (acc_CodeHash (so_data obj)))"
  by (simp add: so_Code_def stored_code_def so_CodeHash_def split: option.split)

lemma snd_GetCommittedState:
  "\<exists>e org. snd (so_GetCommittedState db obj k) = obj\<lparr>so_dbErr := e, originStorage := org\<rparr> \<and>
     (org = originStorage obj \<or> originStorage obj k = None \<and>
        org = (originStorage obj)(k \<mapsto> fst (so_GetCommittedState db obj k)))"
  unfolding so_GetCommittedState_def so_setError_def Let_def
  by (cases obj; cases "originStorage obj k";
      cases "StorageTrie db (so_address obj) (acc_Root (so_data obj)) k") auto

lemma obj_view_GetCommittedState [simp]:
  "obj_view cr db (snd (so_GetCommittedState db obj k)) = obj_view cr db obj"
proof -
  obtain e org where o: "snd (so_GetCommittedState db obj k) = obj\<lparr>so_dbErr := e, originStorage := org\<rparr>"
    and org: "org = originStorage obj \<or> originStorage obj k = None \<and>
      org = (originStorage obj)(k \<mapsto> fst (so_GetCommittedState db obj k))"
    using snd_GetCommittedState by blast
  have "fst (so_GetCommittedState db (obj\<lparr>so_dbErr := e, originStorage := org\<rparr>) k') =
      fst (so_GetCommittedState db obj k')" for k'
    using org by (auto simp: fst_GetCommittedState cong: option.case_cong)
  then show ?thesis
    by (simp add: o obj_view_def fst_GetState fst_Code codeSize_def so_CodeHash_def cong: option.case_cong)
qed

lemma obj_view_GetState [simp]: "obj_view cr db (snd (so_GetState db obj k)) = obj_view cr db obj"
  by (simp add: so_GetState_def split: option.split)

lemma obj_view_dbErr [simp]: "obj_view cr db (obj\<lparr>so_dbErr := e\<rparr>) = obj_view cr db obj"
  by (simp add: obj_view_def fst_GetState fst_GetCommittedState fst_Code codeSize_def so_CodeHash_def
      cong: option.case_cong)

lemma obj_view_code_loaded:
  assumes "so_code obj = None" "acc_CodeHash (so_data obj) \<noteq> emptyCodeHash cr"
    "ContractCode db (BytesToHash (acc_CodeHash (so_data obj))) = Some b"
  shows "obj_view cr db (obj\<lparr>so_code := nil_code b\<rparr>) = obj_view cr db obj"
  using assms
  by (cases "b = []") (simp_all add: obj_view_def fst_GetState fst_GetCommittedState fst_Code codeSize_def
      so_CodeHash_def nil_code_def stored_code_def cong: option.case_cong)

lemma obj_view_Code [simp]: "obj_view cr db (snd (so_Code cr db obj)) = obj_view cr db obj"
proof (cases "so_code obj = None \<and> so_CodeHash obj \<noteq> emptyCodeHash cr")
  case True
  show ?thesis
  proof (cases "ContractCode db (BytesToHash (so_CodeHash obj))")
    case None
    with True have "snd (so_Code cr db obj) = obj\<lparr>so_dbErr := True\<rparr>"
      by (cases obj) (simp add: so_Code_def so_CodeHash_def so_setError_def)
    then show ?thesis by simp
  next
    case (Some b)
    with True have "snd (so_Code cr db obj) = obj\<lparr>so_code := nil_code b\<rparr>"
      by (simp add: so_Code_def)
    with True Some obj_view_code_loaded [of obj cr db b] show ?thesis by (simp add: so_CodeHash_def)
  qed
next
  case False
  then have "snd (so_Code cr db obj) = obj" by (cases "so_code obj") (simp_all add: so_Code_def)
  then show ?thesis by simp
qed

lemma obj_fields_cached [simp]:
  "so_address (snd (so_GetCommittedState db obj k)) = so_address obj"
  "so_data (snd (so_GetCommittedState db obj k)) = so_data obj"
  "deleted (snd (so_GetCommittedState db obj k)) = deleted obj"
  "so_address (snd (so_GetState db obj k)) = so_address obj"
  "so_data (snd (so_GetState db obj k)) = so_data obj"
  "deleted (snd (so_GetState db obj k)) = deleted obj"
  "so_address (snd (so_Code cr db obj)) = so_address obj"
  "so_data (snd (so_Code cr db obj)) = so_data obj"
  "deleted (snd (so_Code cr db obj)) = deleted obj"
  by (simp_all add: so_GetCommittedState_def so_GetState_def so_Code_def so_setError_def Let_def
      split: option.split slotRead.split)

lemmas obj_view_simps = obj_view_def fst_GetState fst_GetCommittedState fst_Code codeSize_def so_CodeHash_def

lemma obj_view_setBalance [simp]:
  "obj_view cr db (so_setBalance obj b) = (obj_view cr db obj)\<lparr>av_balance := b\<rparr>"
  by (simp add: obj_view_simps so_setBalance_def cong: option.case_cong)

lemma obj_view_setNonce [simp]:
  "obj_view cr db (so_setNonce obj n) = (obj_view cr db obj)\<lparr>av_nonce := n\<rparr>"
  by (simp add: obj_view_simps so_setNonce_def cong: option.case_cong)

lemma obj_view_suicided [simp]:
  "obj_view cr db (obj\<lparr>suicided := b\<rparr>) = (obj_view cr db obj)\<lparr>av_suicided := b\<rparr>"
  by (simp add: obj_view_simps cong: option.case_cong)

lemma obj_view_setState [simp]:
  "obj_view cr db (so_setState obj k v) =
     (obj_view cr db obj)\<lparr>av_storage := (av_storage (obj_view cr db obj))(k := v)\<rparr>"
  by (simp add: obj_view_simps so_setState_def fun_eq_iff cong: option.case_cong)

lemma obj_view_setCode:
  "obj_view cr db (so_setCode obj h c) =
     (obj_view cr db obj)\<lparr>av_codehash := h,
        av_code := (case c of Some b \<Rightarrow> Some b | None \<Rightarrow> stored_code cr db h),
        av_codesize := (case c of Some b \<Rightarrow> length b | None \<Rightarrow>
                          (case ContractCode db (BytesToHash h) of None \<Rightarrow> 0 | Some b \<Rightarrow> length b))\<rparr>"
  by (simp add: obj_view_simps so_setCode_def cong: option.case_cong)

text \<open>Setting the code back to what \<^verbatim>\<open>SetCode\<close> remembered restores the three code fields.\<close>

lemma obj_view_restore_code:
  "obj_view cr db (so_setCode o2 (acc_CodeHash (so_data obj)) (fst (so_Code cr db obj))) =
     (obj_view cr db o2)\<lparr>av_codehash := av_codehash (obj_view cr db obj),
        av_code := av_code (obj_view cr db obj), av_codesize := av_codesize (obj_view cr db obj)\<rparr>"
  unfolding obj_view_setCode
  by (simp add: obj_view_simps stored_code_def nil_code_def split: option.split)

section \<open>What the journal can undo\<close>

definition jentries :: "StateDB \<Rightarrow> journalEntry list" where
  "jentries s = entries (sdb_journal s)"

subsection \<open>Dirty counts\<close>

text \<open>
  \<^verbatim>\<open>journal.dirties\<close> counts for every address the entries of the journal that modify it. Touching the
  address \<open>ripemd\<close> counts once more, and reverting does not take that back.
\<close>

definition dcount :: "journal \<Rightarrow> Address \<Rightarrow> int" where
  "dcount j a = (case dirties j a of None \<Rightarrow> 0 | Some n \<Rightarrow> n)"

definition ecount :: "journalEntry list \<Rightarrow> Address \<Rightarrow> int" where
  "ecount es a = int (length (filter (\<lambda>e. dirtied e = Some a) es))"

definition touches :: "journalEntry list \<Rightarrow> int" where
  "touches es = int (length (filter (\<lambda>e. e = touchChange ripemd) es))"

definition counts_ok :: "journal \<Rightarrow> bool" where
  "counts_ok j \<longleftrightarrow> (\<forall>a n. dirties j a = Some n \<longrightarrow> 0 < n)"

text \<open>How the counts change when the entries \<open>es\<close> are added.\<close>

definition dirt :: "journalEntry list \<Rightarrow> journal \<Rightarrow> journal \<Rightarrow> bool" where
  "dirt es j j' \<longleftrightarrow> (\<forall>a. a \<noteq> ripemd \<longrightarrow> dcount j' a = dcount j a + ecount es a) \<and>
     dcount j ripemd + ecount es ripemd + touches es \<le> dcount j' ripemd \<and> (counts_ok j \<longrightarrow> counts_ok j')"

lemma count_simps [simp]:
  "ecount [] a = 0" "ecount (es @ fs) a = ecount es a + ecount fs a" "ecount (rev es) a = ecount es a"
  "ecount (e # es) a = (if dirtied e = Some a then 1 else 0) + ecount es a"
  "touches [] = 0" "touches (es @ fs) = touches es + touches fs"
  "touches (e # es) = (if e = touchChange ripemd then 1 else 0) + touches es"
  by (simp_all add: ecount_def touches_def rev_filter [symmetric])

lemma touches_nonneg: "0 \<le> touches es"
  by (simp add: touches_def)

lemma counts_ok_nonneg:
  assumes "counts_ok j"
  shows "0 \<le> dcount j a"
proof (cases "dirties j a")
  case (Some n)
  with assms have "0 < n" unfolding counts_ok_def by blast
  with Some show ?thesis by (simp add: dcount_def)
qed (simp add: dcount_def)

lemma dirt_same: "dirties j' = dirties j \<Longrightarrow> dirt [] j j'"
  by (simp add: dirt_def dcount_def counts_ok_def)

lemma dirt_trans: "dirt es j j1 \<Longrightarrow> dirt fs j1 j2 \<Longrightarrow> dirt (es @ fs) j j2"
  by (auto simp: dirt_def)

lemma dcount_dirty: "dcount (journal_dirty j a) b = dcount j b + (if b = a then 1 else 0)"
  by (simp add: journal_dirty_def dcount_def)

lemma counts_ok_dirty: "counts_ok j \<Longrightarrow> counts_ok (journal_dirty j a)"
  using counts_ok_nonneg [of j a] by (auto simp: journal_dirty_def counts_ok_def dcount_def split: if_splits)

lemma dcount_append: "dcount (journal_append j e) a = dcount j a + ecount [e] a"
  by (cases "dirtied e") (simp_all add: journal_append_def Let_def dcount_dirty, simp_all add: dcount_def)

lemma counts_ok_append: "counts_ok j \<Longrightarrow> counts_ok (journal_append j e)"
  using counts_ok_dirty [of "j\<lparr>entries := entries j @ [e]\<rparr>"]
  by (auto simp: journal_append_def Let_def counts_ok_def split: option.splits)

lemma dirt_append: "e \<noteq> touchChange ripemd \<Longrightarrow> dirt [e] j (journal_append j e)"
  by (simp add: dirt_def dcount_append counts_ok_append)

lemma dirt_touch: "dirt [touchChange ripemd] j (journal_dirty (journal_append j (touchChange ripemd)) ripemd)"
  by (simp add: dirt_def dcount_append dcount_dirty counts_ok_append counts_ok_dirty)

lemma dcount_undirty: "dcount (undirty j e) a = dcount j a - ecount [e] a"
  by (auto simp: undirty_def dcount_def Let_def split: option.splits)

lemma undirty_nonzero: "\<forall>a. dirties j a \<noteq> Some 0 \<Longrightarrow> \<forall>a. dirties (undirty j e) a \<noteq> Some 0"
  by (auto simp: undirty_def Let_def split: option.splits)

lemma counts_ok_iff: "counts_ok j \<longleftrightarrow> (\<forall>a. dirties j a \<noteq> Some 0 \<and> 0 \<le> dcount j a)"
proof
  assume "\<forall>a. dirties j a \<noteq> Some 0 \<and> 0 \<le> dcount j a"
  then have "0 < n" if "dirties j a = Some n" for a n
    using that by (metis dcount_def le_less option.case(2))
  then show "counts_ok j" by (simp add: counts_ok_def)
qed (auto simp: counts_ok_nonneg, auto simp: counts_ok_def)

text \<open>Undoing an entry leaves the journal alone; the loop takes back the counts.\<close>

lemma revert_entry_journal: "revert_entry cr e s = Some s' \<Longrightarrow> sdb_journal s' = sdb_journal s"
  by (auto simp: revert_entry_def on_object_def Let_def setStateObject_def dest: getStateObject_frame
      split: journalEntry.splits prod.splits option.splits if_splits)

lemma revert_loop_counts:
  "revert_loop cr es s = Some s' \<Longrightarrow> dcount (sdb_journal s') a = dcount (sdb_journal s) a - ecount es a \<and>
     ((\<forall>a. dirties (sdb_journal s) a \<noteq> Some 0) \<longrightarrow> (\<forall>a. dirties (sdb_journal s') a \<noteq> Some 0))"
proof (induction es arbitrary: s)
  case (Cons e es)
  from Cons.prems obtain s1 where s1: "revert_entry cr e s = Some s1"
      "revert_loop cr es (s1\<lparr>sdb_journal := undirty (sdb_journal s1) e\<rparr>) = Some s'" by (auto split: Option.bind_splits)
  from Cons.IH [OF s1(2)] show ?case
    using revert_entry_journal [OF s1(1)] undirty_nonzero [of "sdb_journal s1" e] by (simp add: dcount_undirty)
qed simp

subsection \<open>Undoing\<close>

text \<open>Everything but the observable part, as far as snapshots depend on it.\<close>

definition same_revs :: "StateDB \<Rightarrow> StateDB \<Rightarrow> bool" where
  "same_revs s t \<longleftrightarrow> jentries s = jentries t \<and> validRevisions s = validRevisions t \<and>
     nextRevisionId s = nextRevisionId t"

text \<open>
  From any well-formed state that looks like \<open>s'\<close>, undoing the entries \<open>es\<close> leads to one that
  looks like \<open>s\<close>.
\<close>

definition undoes :: "crypto \<Rightarrow> journalEntry list \<Rightarrow> StateDB \<Rightarrow> StateDB \<Rightarrow> bool" where
  "undoes cr es s s' \<longleftrightarrow>
     (\<forall>t. same_view cr t s' \<longrightarrow> state_wf t \<longrightarrow>
        (\<exists>t'. revert_loop cr (rev es) t = Some t' \<and> same_view cr t' s \<and> state_wf t' \<and> same_revs t' t))"

text \<open>
  The later state \<open>s'\<close> extends \<open>s\<close>: its journal has undoable entries on top of those of \<open>s\<close> and its
  revisions are those of \<open>s\<close> and newer ones.
\<close>

definition extends :: "crypto \<Rightarrow> StateDB \<Rightarrow> StateDB \<Rightarrow> bool" where
  "extends cr s s' \<longleftrightarrow>
     state_wf s' \<and> frame s' = frame s \<and>
     (\<exists>es. jentries s' = jentries s @ es \<and> undoes cr es s s' \<and> dirt es (sdb_journal s) (sdb_journal s')) \<and>
     nextRevisionId s \<le> nextRevisionId s' \<and>
     (\<exists>rs. validRevisions s' = validRevisions s @ rs \<and> (\<forall>r \<in> set rs. nextRevisionId s \<le> rev_id r))"

lemma same_revs_refl [simp]: "same_revs s s"
  by (simp add: same_revs_def)

lemma same_revs_trans: "same_revs s t \<Longrightarrow> same_revs t u \<Longrightarrow> same_revs s u"
  by (simp add: same_revs_def)

lemma revert_loop_append:
  "revert_loop cr (es @ fs) s = revert_loop cr es s \<bind> revert_loop cr fs"
  by (induction es arbitrary: s) (simp_all split: Option.bind_split)

lemma undoes_append:
  assumes "undoes cr es s s'" "undoes cr fs s' s''"
  shows "undoes cr (es @ fs) s s''"
  unfolding undoes_def
proof (intro allI impI)
  fix t assume t: "same_view cr t s''" "state_wf t"
  with assms(2) obtain u where u: "revert_loop cr (rev fs) t = Some u" "same_view cr u s'" "state_wf u"
    "same_revs u t" unfolding undoes_def by blast
  with assms(1) obtain v where v: "revert_loop cr (rev es) u = Some v" "same_view cr v s" "state_wf v"
    "same_revs v u" unfolding undoes_def by blast
  with u show "\<exists>t'. revert_loop cr (rev (es @ fs)) t = Some t' \<and> same_view cr t' s \<and> state_wf t' \<and>
      same_revs t' t"
    by (auto simp: revert_loop_append intro: same_revs_trans)
qed

lemma undoes_same: "same_view cr s' s \<Longrightarrow> undoes cr [] s s'"
  unfolding undoes_def using same_view_trans by auto

lemma extends_same:
  assumes "state_wf s'" "same_view cr s' s" "same_revs s' s" "dirties (sdb_journal s') = dirties (sdb_journal s)"
  shows "extends cr s s'"
  using assms undoes_same [OF assms(2)] dirt_same [OF assms(4)]
  by (auto simp: extends_def same_view_def same_revs_def intro!: exI [of _ "[]"])

lemma extends_refl: "state_wf s \<Longrightarrow> extends cr s s"
  by (rule extends_same) simp_all

lemma extends_trans:
  assumes "extends cr s s'" "extends cr s' s''"
  shows "extends cr s s''"
proof -
  from assms(1) obtain es rs where 1: "jentries s' = jentries s @ es" "undoes cr es s s'"
    "validRevisions s' = validRevisions s @ rs" "\<forall>r \<in> set rs. nextRevisionId s \<le> rev_id r"
    "dirt es (sdb_journal s) (sdb_journal s')"
    unfolding extends_def by blast
  from assms(2) obtain fs qs where 2: "jentries s'' = jentries s' @ fs" "undoes cr fs s' s''"
    "validRevisions s'' = validRevisions s' @ qs" "\<forall>r \<in> set qs. nextRevisionId s' \<le> rev_id r"
    "dirt fs (sdb_journal s') (sdb_journal s'')"
    unfolding extends_def by blast
  have "jentries s'' = jentries s @ (es @ fs)" "validRevisions s'' = validRevisions s @ (rs @ qs)"
    using 1 2 by simp_all
  moreover have "\<forall>r \<in> set (rs @ qs). nextRevisionId s \<le> rev_id r"
    using 1(4) 2(4) assms(1) unfolding extends_def by fastforce
  ultimately show ?thesis
    using undoes_append [OF 1(2) 2(2)] dirt_trans [OF 1(5) 2(5)] assms unfolding extends_def by auto
qed

lemma extends_wf: "extends cr s s' \<Longrightarrow> state_wf s'"
  by (simp add: extends_def)

lemma undirty_same [simp]:
  "same_view cr (t\<lparr>sdb_journal := undirty (sdb_journal t) e\<rparr>) s \<longleftrightarrow> same_view cr t s"
  "state_wf (t\<lparr>sdb_journal := undirty (sdb_journal t) e\<rparr>) \<longleftrightarrow> state_wf t"
  "same_revs (t\<lparr>sdb_journal := undirty (sdb_journal t) e\<rparr>) u \<longleftrightarrow> same_revs t u"
proof -
  let ?t = "t\<lparr>sdb_journal := undirty (sdb_journal t) e\<rparr>"
  have "acct cr ?t = acct cr t" by (rule acct_cong) simp_all
  then show "same_view cr ?t s \<longleftrightarrow> same_view cr t s"
    by (simp add: same_view_def frame_def logs_of_def fun_eq_iff)
  show "state_wf ?t \<longleftrightarrow> state_wf t"
    using state_wf_cong [of t ?t] state_wf_cong [of ?t t] by auto
  show "same_revs ?t u \<longleftrightarrow> same_revs t u"
    by (simp add: same_revs_def jentries_def undirty_def Let_def split: option.split)
qed

text \<open>One journalled change: enough that undoing its entry is right.\<close>

lemma extends_entry:
  assumes "state_wf s'" "frame s' = frame s" "jentries s' = jentries s @ [e]"
    "validRevisions s' = validRevisions s" "nextRevisionId s' = nextRevisionId s"
    and dirt: "dirt [e] (sdb_journal s) (sdb_journal s')"
    and undo: "\<And>t. same_view cr t s' \<Longrightarrow> state_wf t \<Longrightarrow>
      \<exists>t'. revert_entry cr e t = Some t' \<and> same_view cr t' s \<and> state_wf t' \<and> same_revs t' t"
  shows "extends cr s s'"
proof -
  have "undoes cr [e] s s'"
    unfolding undoes_def
  proof (intro allI impI)
    fix t assume "same_view cr t s'" "state_wf t"
    from undo [OF this] show "\<exists>t'. revert_loop cr (rev [e]) t = Some t' \<and> same_view cr t' s \<and>
        state_wf t' \<and> same_revs t' t"
      by auto
  qed
  with assms show ?thesis by (auto simp: extends_def)
qed

text \<open>A journalled change of one live object that \<open>f\<close> takes back.\<close>

lemma extends_object:
  assumes wf: "state_wf s" and obj: "stateObjects s a = Some obj" "\<not> deleted obj"
    and new: "so_address obj' = a" "\<not> deleted obj'" "length (acc_CodeHash (so_data obj')) = 32"
    and e: "\<And>t o2. peek_obj cr t a = Some o2 \<Longrightarrow> revert_entry cr e t = on_object cr t a f" "e \<noteq> touchChange ripemd"
    and f: "\<And>o2. so_address (f o2) = so_address o2" "\<And>o2. deleted (f o2) = deleted o2"
      "\<And>o2. length (acc_CodeHash (so_data o2)) = 32 \<Longrightarrow> length (acc_CodeHash (so_data (f o2))) = 32"
      "\<And>o2. obj_view cr (sdb_db s) o2 = obj_view cr (sdb_db s) obj' \<Longrightarrow>
        obj_view cr (sdb_db s) (f o2) = obj_view cr (sdb_db s) obj"
  shows "extends cr s (setStateObject (add_entry s e) obj')" (is "extends cr s ?s'")
proof (rule extends_entry)
  show "state_wf ?s'" using wf new by (intro state_wf_set) (auto simp: obj_ok_def)
  show "jentries ?s' = jentries s @ [e]" by (simp add: jentries_def)
  show "dirt [e] (sdb_journal s) (sdb_journal ?s')" using dirt_append [OF e(2)] by (simp add: add_entry_def)
  have view': "acct cr ?s' = (acct cr s)(a \<mapsto> obj_view cr (sdb_db s) obj')"
    using new by (simp add: acct_set)
  have pk: "peek_obj cr s a = Some obj" using obj by (simp add: peek_obj_def getStateObject_def)
  fix t assume t: "same_view cr t ?s'" "state_wf t"
  then have db: "sdb_db t = sdb_db s" by (simp add: same_view_def frame_def)
  from t(1) view' have "acct cr t a = Some (obj_view cr (sdb_db s) obj')" by (simp add: same_view_def)
  then obtain o2 where o2: "peek_obj cr t a = Some o2" "obj_view cr (sdb_db s) o2 = obj_view cr (sdb_db s) obj'"
    by (auto simp: acct_def db)
  from peek_obj_ok [OF t(2) o2(1)] have ok: "so_address o2 = a" "\<not> deleted o2"
    "length (acc_CodeHash (so_data o2)) = 32" by (simp_all add: obj_ok_def)
  obtain t' where t': "on_object cr t a f = Some t'" "state_wf t'"
    "acct cr t' = (acct cr t)(a \<mapsto> obj_view cr (sdb_db t) (f o2))"
    "frame t' = frame t" "refund t' = refund t" "logs t' = logs t" "logSize t' = logSize t"
    "preimages t' = preimages t" "sdb_journal t' = sdb_journal t"
    "validRevisions t' = validRevisions t" "nextRevisionId t' = nextRevisionId t"
    using on_object_spec [OF o2(1) t(2), of f] f(1-3) ok by metis
  have "acct cr t' = acct cr s"
    using t'(3) t(1) view' f(4) [OF o2(2)] db pk
    by (auto simp: same_view_def acct_def fun_eq_iff)
  with t t' have "same_view cr t' s" "same_revs t' t"
    by (auto simp: same_view_def same_revs_def jentries_def logs_of_def fun_eq_iff)
  with t'(1,2) e(1) [OF o2(1)] show "\<exists>t'. revert_entry cr e t = Some t' \<and> same_view cr t' s \<and> state_wf t' \<and> same_revs t' t"
    by simp
qed simp_all

section \<open>Every operation extends the state\<close>

lemma getStateObject_extends:
  assumes "state_wf s" "getStateObject cr s a = (o1, s')"
  shows "extends cr s s'"
  using getStateObject_same_view [OF assms(2)] getStateObject_wf [OF assms(2,1)]
    getStateObject_frame [OF assms(2)]
  by (intro extends_same) (simp_all add: same_revs_def jentries_def)

lemma crypto_codehash [simp]:
  "crypto_ok cr \<Longrightarrow> length (acc_CodeHash (so_data (newObject cr a n b r None))) = 32"
  by (simp add: newObject_def)

text \<open>Replacing the object at an address by a fresh one.\<close>

lemma extends_replace:
  assumes wf: "state_wf s" and g: "getStateObject cr s a = (prev, s1)"
    and new: "so_address obj' = a" "\<not> deleted obj'" "length (acc_CodeHash (so_data obj')) = 32"
    and e: "e = (case prev of None \<Rightarrow> createObjectChange a | Some p \<Rightarrow> resetObjectChange p)"
  shows "extends cr s (setStateObject (add_entry s1 e) obj')" (is "extends cr s ?s'")
proof (rule extends_entry)
  note fr = getStateObject_frame [OF g] and pk = getStateObject_peek [OF g]
    and wf1 = getStateObject_wf [OF g wf]
  show "state_wf ?s'" using wf1 new by (intro state_wf_set) (auto simp: obj_ok_def)
  show "frame ?s' = frame s" "jentries ?s' = jentries s @ [e]" "validRevisions ?s' = validRevisions s"
    "nextRevisionId ?s' = nextRevisionId s"
    using fr by (simp_all add: jentries_def)
  have "e \<noteq> touchChange ripemd" using e by (simp split: option.split)
  then show "dirt [e] (sdb_journal s) (sdb_journal ?s')" using dirt_append fr by (simp add: add_entry_def)
  fix t assume t: "same_view cr t ?s'" "state_wf t"
  have db: "sdb_db t = sdb_db s" "sdb_trie t = sdb_trie s" "sdb_db s1 = sdb_db s"
    using t(1) fr by (simp_all add: same_view_def frame_def)
  have acct_s1: "acct cr s1 = acct cr s"
    using pk db by (simp add: acct_def fun_eq_iff)
  have view': "acct cr ?s' = (acct cr s)(a \<mapsto> obj_view cr (sdb_db s) obj')"
    using new db by (simp add: acct_set acct_s1)
  define t' where "t' = (case prev of
      None \<Rightarrow> t\<lparr>stateObjects := (stateObjects t)(a := None), stateObjectsDirty := stateObjectsDirty t - {a}\<rparr>
    | Some p \<Rightarrow> setStateObject t p)"
  have "revert_entry cr e t = Some t'"
    by (simp add: t'_def e revert_entry_def split: option.split)
  moreover have "state_wf t' \<and> acct cr t' = acct cr s"
  proof (cases prev)
    case None
    have nf: "\<forall>acc. sdb_trie s a \<noteq> AccFound acc"
    proof (cases "stateObjects s a")
      case (Some obj)
      with g None have "deleted obj" by (simp add: getStateObject_def split: if_splits)
      with state_wf_obj [OF wf Some] show ?thesis by (simp add: obj_ok_def)
    next
      case N: None
      show ?thesis
      proof (intro allI notI)
        fix acc assume "sdb_trie s a = AccFound acc"
        with g None N show False by (simp add: getStateObject_def Let_def)
      qed
    qed
    have p: "peek_obj cr t' = (peek_obj cr t)(a := None)"
      using nf None db by (auto simp: t'_def peek_obj_def getStateObject_def Let_def fun_eq_iff
          split: option.split accountRead.split)
    have d: "sdb_db t' = sdb_db t" using None by (simp add: t'_def)
    have "acct cr t' = (acct cr t)(a := None)"
      unfolding acct_def p d by (simp add: fun_eq_iff)
    moreover have "acct cr s a = None" using pk None by (simp add: acct_def)
    moreover have "state_wf t'" using t(2) None by (auto simp: t'_def state_wf_def obj_ok_def rev_ok_def)
    ultimately show ?thesis using t(1) view' by (auto simp: same_view_def fun_eq_iff)
  next
    case (Some p)
    with pk have ps: "peek_obj cr s a = Some p" by simp
    from peek_obj_ok [OF wf this] have ok: "so_address p = a" "\<not> deleted p"
      "length (acc_CodeHash (so_data p)) = 32" by (simp_all add: obj_ok_def)
    then have "state_wf t'" using Some t(2) by (auto simp: t'_def obj_ok_def intro!: state_wf_set)
    moreover have "acct cr t' = (acct cr t)(a \<mapsto> obj_view cr (sdb_db s) p)"
      using Some ok db by (simp add: t'_def acct_set)
    ultimately show ?thesis using t(1) view' ps by (auto simp: same_view_def acct_def fun_eq_iff)
  qed
  moreover have "frame t' = frame t" "refund t' = refund t" "logs_of t' = logs_of t"
    "logSize t' = logSize t" "preimages t' = preimages t" "same_revs t' t"
    by (simp_all add: t'_def frame_def logs_of_def same_revs_def jentries_def setStateObject_def fun_eq_iff
        split: option.split)
  ultimately show "\<exists>t'. revert_entry cr e t = Some t' \<and> same_view cr t' s \<and> state_wf t' \<and> same_revs t' t"
    using t(1) fr by (auto simp: same_view_def logs_of_def fun_eq_iff)
qed

lemma createObject_extends:
  assumes "crypto_ok cr" "state_wf s" "createObject cr s a = (n, prev, s')"
  shows "extends cr s s' \<and> stateObjects s' a = Some n \<and> \<not> deleted n \<and> so_address n = a"
proof -
  obtain o1 s1 where g: "getStateObject cr s a = (o1, s1)" by (cases "getStateObject cr s a")
  let ?e = "case o1 of None \<Rightarrow> createObjectChange a | Some p \<Rightarrow> resetObjectChange p"
  have n: "n = so_setNonce (newObject cr a 0 None zeroHash None) 0"
    and s': "s' = setStateObject (add_entry s1 ?e) n"
    using assms(3) g by (auto simp: createObject_def Let_def split: option.splits)
  have ok: "so_address n = a" "\<not> deleted n" "length (acc_CodeHash (so_data n)) = 32"
    using assms(1) by (simp_all add: n so_setNonce_def)
  with extends_replace [OF assms(2) g ok refl] s' show ?thesis by simp
qed

lemma GetOrNewStateObject_extends:
  assumes "crypto_ok cr" "state_wf s" "GetOrNewStateObject cr s a = (obj, s')"
  shows "extends cr s s' \<and> stateObjects s' a = Some obj \<and> \<not> deleted obj \<and> so_address obj = a"
proof -
  obtain o1 s1 where g: "getStateObject cr s a = (o1, s1)" by (cases "getStateObject cr s a")
  note ext = getStateObject_extends [OF assms(2) g]
  obtain n p s2 where c: "createObject cr s1 a = (n, p, s2)" by (cases "createObject cr s1 a")
  note ce = createObject_extends [OF assms(1) extends_wf [OF ext] c]
  show ?thesis
  proof (cases o1)
    case None
    with assms(3) g c have "obj = n" "s' = s2" by (simp_all add: GetOrNewStateObject_def)
    with ce extends_trans [OF ext] show ?thesis by blast
  next
    case (Some o2)
    from peek_obj_Some [OF g [unfolded Some]] have "stateObjects s1 a = Some o2" "\<not> deleted o2" by auto
    moreover from this extends_wf [OF ext] have "so_address o2 = a" by (auto simp: state_wf_def obj_ok_def)
    moreover have "obj = o2" "s' = s1" using assms(3) g Some \<open>\<not> deleted o2\<close>
      by (simp_all add: GetOrNewStateObject_def)
    ultimately show ?thesis using ext by simp
  qed
qed

lemma CreateAccount_extends:
  assumes "crypto_ok cr" "state_wf s"
  shows "extends cr s (CreateAccount cr s a)"
proof -
  obtain o1 s1 where g: "getStateObject cr s a = (o1, s1)" by (cases "getStateObject cr s a")
  let ?e = "case o1 of None \<Rightarrow> createObjectChange a | Some p \<Rightarrow> resetObjectChange p"
  let ?n = "so_setNonce (newObject cr a 0 None zeroHash None) 0"
  define obj where "obj = (case o1 of None \<Rightarrow> ?n | Some p \<Rightarrow> so_setBalance ?n (acc_Balance (so_data p)))"
  have ok: "so_address obj = a" "\<not> deleted obj" "length (acc_CodeHash (so_data obj)) = 32"
    using assms(1) by (simp_all add: obj_def so_setNonce_def so_setBalance_def split: option.split)
  have "CreateAccount cr s a = setStateObject (add_entry s1 ?e) obj"
    by (cases o1) (simp_all add: CreateAccount_def createObject_def g obj_def Let_def setStateObject_def
        so_setBalance_def so_setNonce_def)
  then show ?thesis using extends_replace [OF assms(2) g ok refl] by simp
qed

definition live :: "StateDB \<Rightarrow> Address \<Rightarrow> stateObject \<Rightarrow> bool" where
  "live s a obj \<longleftrightarrow> stateObjects s a = Some obj \<and> \<not> deleted obj \<and> so_address obj = a"

lemma live_codehash: "state_wf s \<Longrightarrow> live s a obj \<Longrightarrow> length (acc_CodeHash (so_data obj)) = 32"
  by (auto simp: live_def state_wf_def obj_ok_def)

lemma live_setStateObject [simp]:
  "so_address obj = a \<Longrightarrow> \<not> deleted obj \<Longrightarrow> live (setStateObject s obj) a obj"
  by (simp add: live_def)

text \<open>Storing back an object that looks the same (a filled cache).\<close>

lemma extends_cached:
  assumes "state_wf s" "live s a obj" "so_address obj' = a" "\<not> deleted obj'"
    "so_data obj' = so_data obj" "obj_view cr (sdb_db s) obj' = obj_view cr (sdb_db s) obj"
  shows "extends cr s (setStateObject s obj')"
proof (rule extends_same)
  show "state_wf (setStateObject s obj')"
    using assms(1,3-5) live_codehash [OF assms(1,2)] by (intro state_wf_set) (auto simp: obj_ok_def)
  have "acct cr s a = Some (obj_view cr (sdb_db s) obj)"
    using assms(2) by (simp add: acct_def peek_obj_def getStateObject_def live_def)
  then have "acct cr (setStateObject s obj') = acct cr s"
    using assms(3,4,6) by (auto simp: acct_set fun_eq_iff)
  then show "same_view cr (setStateObject s obj') s" by (simp add: same_view_def)
  show "same_revs (setStateObject s obj') s" by (simp add: same_revs_def jentries_def)
  show "dirties (sdb_journal (setStateObject s obj')) = dirties (sdb_journal s)" by simp
qed

lemma obj_view_self:
  "(obj_view cr db obj)\<lparr>av_balance := acc_Balance (so_data obj)\<rparr> = obj_view cr db obj"
  "(obj_view cr db obj)\<lparr>av_nonce := acc_Nonce (so_data obj)\<rparr> = obj_view cr db obj"
  "(obj_view cr db obj)\<lparr>av_suicided := suicided obj\<rparr> = obj_view cr db obj"
  by (simp_all add: obj_view_def)

lemma acctView_self:
  "v\<lparr>av_codehash := av_codehash v, av_code := av_code v, av_codesize := av_codesize v\<rparr> = (v :: acctView)"
  by (cases v) simp

lemma so_SetBalance_extends:
  assumes "state_wf s" "live s a obj"
  shows "extends cr s (so_SetBalance s obj b)"
  unfolding so_SetBalance_def Let_def
proof (rule extends_object [where a = a and f = "\<lambda>o2. so_setBalance o2 (acc_Balance (so_data obj))"])
  show "length (acc_CodeHash (so_data (so_setBalance obj b))) = 32"
    using live_codehash [OF assms] by (simp add: so_setBalance_def)
  show "obj_view cr (sdb_db s) o2 = obj_view cr (sdb_db s) (so_setBalance obj b) \<Longrightarrow>
    obj_view cr (sdb_db s) (so_setBalance o2 (acc_Balance (so_data obj))) = obj_view cr (sdb_db s) obj" for o2
    by (simp add: obj_view_self)
qed (use assms in \<open>auto simp: live_def so_setBalance_def revert_entry_def\<close>)

lemma so_SetNonce_extends:
  assumes "state_wf s" "live s a obj"
  shows "extends cr s (so_SetNonce s obj n)"
  unfolding so_SetNonce_def Let_def
proof (rule extends_object [where a = a and f = "\<lambda>o2. so_setNonce o2 (acc_Nonce (so_data obj))"])
  show "length (acc_CodeHash (so_data (so_setNonce obj n))) = 32"
    using live_codehash [OF assms] by (simp add: so_setNonce_def)
  show "obj_view cr (sdb_db s) o2 = obj_view cr (sdb_db s) (so_setNonce obj n) \<Longrightarrow>
    obj_view cr (sdb_db s) (so_setNonce o2 (acc_Nonce (so_data obj))) = obj_view cr (sdb_db s) obj" for o2
    by (simp add: obj_view_self)
qed (use assms in \<open>auto simp: live_def so_setNonce_def revert_entry_def\<close>)

lemma so_SetState_extends:
  assumes "state_wf s" "live s a obj"
  shows "extends cr s (so_SetState s obj k v)"
proof -
  define o1 where "o1 = snd (so_GetState (sdb_db s) obj k)"
  define prev where "prev = fst (so_GetState (sdb_db s) obj k)"
  have g: "so_GetState (sdb_db s) obj k = (prev, o1)" by (simp add: o1_def prev_def)
  have a: "so_address obj = a" "\<not> deleted obj" using assms(2) by (simp_all add: live_def)
  have o1: "so_address o1 = a" "\<not> deleted o1" "so_data o1 = so_data obj"
    "obj_view cr (sdb_db s) o1 = obj_view cr (sdb_db s) obj"
    using a by (simp_all add: o1_def)
  note e1 = extends_cached [OF assms o1]
  show ?thesis
  proof (cases "prev = v")
    case True
    with e1 show ?thesis by (simp add: so_SetState_def g)
  next
    case False
    let ?s1 = "setStateObject s o1"
    have "extends cr ?s1 (setStateObject (add_entry ?s1 (storageChange a k prev)) (so_setState o1 k v))"
    proof (rule extends_object [where a = a and f = "\<lambda>o2. so_setState o2 k prev"])
      show "length (acc_CodeHash (so_data (so_setState o1 k v))) = 32"
        using live_codehash [OF assms] o1 by (simp add: so_setState_def)
      have st: "av_storage (obj_view cr (sdb_db s) o1) k = prev"
        using o1(4) by (simp add: obj_view_def prev_def)
      fix o2
      assume v2: "obj_view cr (sdb_db ?s1) o2 = obj_view cr (sdb_db ?s1) (so_setState o1 k v)"
      have "(av_storage (obj_view cr (sdb_db s) o1))(k := v, k := prev) = av_storage (obj_view cr (sdb_db s) o1)"
        using st by auto
      with v2 show "obj_view cr (sdb_db ?s1) (so_setState o2 k prev) = obj_view cr (sdb_db ?s1) o1"
        by simp
    qed (use extends_wf [OF e1] o1 in \<open>auto simp: so_setState_def revert_entry_def\<close>)
    moreover have "so_SetState s obj k v =
        setStateObject (add_entry ?s1 (storageChange a k prev)) (so_setState o1 k v)"
      using False o1(1) by (simp add: so_SetState_def g Let_def setStateObject_def add_entry_def so_setState_def)
    ultimately show ?thesis using extends_trans [OF e1] by simp
  qed
qed

lemma so_SetCode_extends:
  assumes "state_wf s" "live s a obj" "length h = 32"
  shows "extends cr s (so_SetCode cr s obj h c)"
proof -
  define o1 where "o1 = snd (so_Code cr (sdb_db s) obj)"
  define prev where "prev = fst (so_Code cr (sdb_db s) obj)"
  have g: "so_Code cr (sdb_db s) obj = (prev, o1)" by (simp add: o1_def prev_def)
  have a: "so_address obj = a" "\<not> deleted obj" using assms(2) by (simp_all add: live_def)
  have o1: "so_address o1 = a" "\<not> deleted o1" "so_data o1 = so_data obj"
    "obj_view cr (sdb_db s) o1 = obj_view cr (sdb_db s) obj"
    using a by (simp_all add: o1_def)
  note e1 = extends_cached [OF assms(1,2) o1]
  let ?s1 = "setStateObject s o1" and ?e = "codeChange a prev (so_CodeHash o1)"
  have h1: "BytesToHash (so_CodeHash o1) = acc_CodeHash (so_data obj)"
    using live_codehash [OF assms(1,2)] o1 by (simp add: so_CodeHash_def BytesToHash_id)
  have "extends cr ?s1 (setStateObject (add_entry ?s1 ?e) (so_setCode o1 h (nil_code c)))"
  proof (rule extends_object [where a = a and
        f = "\<lambda>o2. so_setCode o2 (acc_CodeHash (so_data obj)) prev"])
    fix o2
    assume "obj_view cr (sdb_db ?s1) o2 = obj_view cr (sdb_db ?s1) (so_setCode o1 h (nil_code c))"
    then obtain h' c' n where "obj_view cr (sdb_db s) o2 =
        (obj_view cr (sdb_db s) obj)\<lparr>av_codehash := h', av_code := c', av_codesize := n\<rparr>"
      by (auto simp: obj_view_setCode o1(4))
    then show "obj_view cr (sdb_db ?s1) (so_setCode o2 (acc_CodeHash (so_data obj)) prev) = obj_view cr (sdb_db ?s1) o1"
      unfolding prev_def setStateObject_fields obj_view_restore_code
      by (simp add: o1(4) acctView_self)
  qed (use extends_wf [OF e1] o1 assms(3) h1 live_codehash [OF assms(1,2)]
      in \<open>auto simp: so_setCode_def revert_entry_def\<close>)
  moreover have "so_SetCode cr s obj h c = setStateObject (add_entry ?s1 ?e) (so_setCode o1 h (nil_code c))"
    using o1(1) by (simp add: so_SetCode_def g Let_def setStateObject_def add_entry_def so_setCode_def)
  ultimately show ?thesis using extends_trans [OF e1] by simp
qed

text \<open>Changes outside the account objects.\<close>

lemma touch_extends:
  assumes "state_wf s"
  shows "extends cr s (so_touch s obj)"
proof (rule extends_entry)
  have a: "acct cr (so_touch s obj) = acct cr s" by (rule acct_cong) (simp_all add: so_touch_def Let_def)
  have v: "same_view cr (so_touch s obj) s"
    using a by (simp add: same_view_def so_touch_def Let_def frame_def logs_of_def fun_eq_iff)
  show "state_wf (so_touch s obj)"
    by (rule state_wf_cong [OF assms]) (simp_all add: so_touch_def Let_def)
  show "frame (so_touch s obj) = frame s" using v by (simp add: same_view_def)
  show "jentries (so_touch s obj) = jentries s @ [touchChange (so_address obj)]"
    by (simp add: jentries_def so_touch_def Let_def journal_dirty_def)
  show "dirt [touchChange (so_address obj)] (sdb_journal s) (sdb_journal (so_touch s obj))"
    using dirt_append [of "touchChange (so_address obj)"] dirt_touch by (simp add: so_touch_def add_entry_def Let_def)
  fix t assume "same_view cr t (so_touch s obj)" "state_wf t"
  with same_view_trans [OF _ v] show "\<exists>t'. revert_entry cr (touchChange (so_address obj)) t = Some t' \<and>
      same_view cr t' s \<and> state_wf t' \<and> same_revs t' t"
    by (simp add: revert_entry_def)
qed (simp_all add: so_touch_def Let_def)

lemma AddRefund_extends:
  assumes "state_wf s"
  shows "extends cr s ((add_entry s (refundChange (refund s)))\<lparr>refund := r\<rparr>)" (is "extends cr s ?s'")
proof (rule extends_entry)
  show "state_wf ?s'" by (rule state_wf_cong [OF assms]) simp_all
  have a: "acct cr ?s' = acct cr s" by (rule acct_cong) simp_all
  show "frame ?s' = frame s" "jentries ?s' = jentries s @ [refundChange (refund s)]"
    by (simp_all add: jentries_def frame_def)
  show "dirt [refundChange (refund s)] (sdb_journal s) (sdb_journal ?s')" by (simp add: dirt_append add_entry_def)
  fix t assume t: "same_view cr t ?s'" "state_wf t"
  let ?t = "t\<lparr>refund := refund s\<rparr>"
  have "acct cr ?t = acct cr t" by (rule acct_cong) simp_all
  with t a have "same_view cr ?t s" by (simp add: same_view_def frame_def logs_of_def fun_eq_iff)
  moreover have "state_wf ?t" by (rule state_wf_cong [OF t(2)]) simp_all
  ultimately show "\<exists>t'. revert_entry cr (refundChange (refund s)) t = Some t' \<and>
      same_view cr t' s \<and> state_wf t' \<and> same_revs t' t"
    by (simp add: revert_entry_def same_revs_def jentries_def)
qed simp_all

lemma AddPreimage_extends:
  assumes "state_wf s"
  shows "extends cr s (AddPreimage s h p)"
proof (cases "preimages s h")
  case None
  let ?s' = "(add_entry s (addPreimageChange h))\<lparr>preimages := (preimages s)(h \<mapsto> p)\<rparr>"
  have "extends cr s ?s'"
  proof (rule extends_entry)
    show "state_wf ?s'" by (rule state_wf_cong [OF assms]) simp_all
    have a: "acct cr ?s' = acct cr s" by (rule acct_cong) simp_all
    show "frame ?s' = frame s" "jentries ?s' = jentries s @ [addPreimageChange h]"
      by (simp_all add: jentries_def frame_def)
    show "dirt [addPreimageChange h] (sdb_journal s) (sdb_journal ?s')" by (simp add: dirt_append add_entry_def)
    fix t assume t: "same_view cr t ?s'" "state_wf t"
    let ?t = "t\<lparr>preimages := (preimages t)(h := None)\<rparr>"
    have "acct cr ?t = acct cr t" by (rule acct_cong) simp_all
    with t a None have "same_view cr ?t s"
      by (auto simp: same_view_def frame_def logs_of_def fun_eq_iff)
    moreover have "state_wf ?t" by (rule state_wf_cong [OF t(2)]) simp_all
    ultimately show "\<exists>t'. revert_entry cr (addPreimageChange h) t = Some t' \<and>
        same_view cr t' s \<and> state_wf t' \<and> same_revs t' t"
      by (simp add: revert_entry_def same_revs_def jentries_def)
  qed simp_all
  with None show ?thesis by (simp add: AddPreimage_def Let_def)
qed (simp add: AddPreimage_def extends_refl assms)

lemma AddLog_extends:
  assumes "state_wf s"
  shows "extends cr s (AddLog s log)"
proof (rule extends_entry)
  obtain l where l: "logs_of (AddLog s log) = (logs_of s)(thash s := logs_of s (thash s) @ [l])"
    by (auto simp: AddLog_def logs_of_def Let_def fun_eq_iff split: option.split)
  show "state_wf (AddLog s log)" by (rule state_wf_cong [OF assms]) (simp_all add: AddLog_def Let_def)
  have a: "acct cr (AddLog s log) = acct cr s" by (rule acct_cong) (simp_all add: AddLog_def Let_def)
  show "frame (AddLog s log) = frame s" "jentries (AddLog s log) = jentries s @ [addLogChange (thash s)]"
    by (simp_all add: jentries_def frame_def AddLog_def Let_def)
  show "dirt [addLogChange (thash s)] (sdb_journal s) (sdb_journal (AddLog s log))"
    by (simp add: AddLog_def Let_def add_entry_def dirt_append)
  fix t assume t: "same_view cr t (AddLog s log)" "state_wf t"
  have lt: "logs_of t = (logs_of s)(thash s := logs_of s (thash s) @ [l])" "logSize t = logSize s + 1"
    using t(1) l by (simp_all add: same_view_def AddLog_def Let_def)
  then have lh: "(case logs t (thash s) of None \<Rightarrow> [] | Some x \<Rightarrow> x) = logs_of s (thash s) @ [l]"
    by (simp add: logs_of_def fun_eq_iff)
  let ?t = "t\<lparr>logs := (logs t)(thash s := (if logs_of s (thash s) = [] then None else Some (logs_of s (thash s)))),
      logSize := logSize t - 1\<rparr>"
  have "acct cr ?t = acct cr t" by (rule acct_cong) simp_all
  moreover have "logs_of ?t = logs_of s" using lt(1) by (auto simp: logs_of_def fun_eq_iff)
  ultimately have "same_view cr ?t s"
    using t a lt(2) by (simp add: same_view_def frame_def AddLog_def Let_def)
  moreover have "state_wf ?t" by (rule state_wf_cong [OF t(2)]) simp_all
  moreover have "revert_entry cr (addLogChange (thash s)) t = Some ?t"
    by (simp add: revert_entry_def lh Let_def)
  ultimately show "\<exists>t'. revert_entry cr (addLogChange (thash s)) t = Some t' \<and>
      same_view cr t' s \<and> state_wf t' \<and> same_revs t' t"
    by (simp add: same_revs_def jentries_def)
qed (simp_all add: AddLog_def Let_def)

lemma obj_view_self2:
  "(obj_view cr db obj)\<lparr>av_suicided := suicided obj, av_balance := acc_Balance (so_data obj)\<rparr> = obj_view cr db obj"
  by (simp add: obj_view_def)

lemma Suicide_extends:
  assumes "crypto_ok cr" "state_wf s" "Suicide cr s a = (b, s')"
  shows "extends cr s s'"
proof -
  obtain o1 s1 where g: "getStateObject cr s a = (o1, s1)" by (cases "getStateObject cr s a")
  note e1 = getStateObject_extends [OF assms(2) g]
  show ?thesis
  proof (cases o1)
    case None
    with assms(3) g e1 show ?thesis by (simp add: Suicide_def)
  next
    case (Some obj)
    have lv: "live s1 a obj"
      using peek_obj_Some [OF g [unfolded Some]] extends_wf [OF e1]
      by (auto simp: live_def state_wf_def obj_ok_def)
    let ?e = "suicideChange a (suicided obj) (so_Balance obj)"
    let ?f = "\<lambda>o2. so_setBalance (o2\<lparr>suicided := suicided obj\<rparr>) (so_Balance obj)"
    have "extends cr s1 (setStateObject (add_entry s1 ?e) (so_setBalance (markSuicided obj) 0))"
    proof (rule extends_object [where a = a and f = ?f])
      fix o2
      assume "obj_view cr (sdb_db s1) o2 = obj_view cr (sdb_db s1) (so_setBalance (markSuicided obj) 0)"
      then show "obj_view cr (sdb_db s1) (?f o2) = obj_view cr (sdb_db s1) obj"
        by (simp add: markSuicided_def so_Balance_def obj_view_self2)
    next
      fix t o2 assume "peek_obj cr t a = Some o2"
      then show "revert_entry cr ?e t = on_object cr t a ?f"
        by (cases "getStateObject cr t a") (simp add: revert_entry_def on_object_def peek_obj_def)
    qed (use lv extends_wf [OF e1] live_codehash [OF extends_wf [OF e1] lv]
        in \<open>auto simp: live_def so_setBalance_def markSuicided_def\<close>)
    with extends_trans [OF e1] assms(3) g Some show ?thesis by (auto simp: Suicide_def Let_def)
  qed
qed

text \<open>The operations of the interface \<^verbatim>\<open>vm.StateDB\<close>.\<close>

named_theorems extends_intros \<open>operations of the state database that extend the state\<close>

lemma extends_via_new:
  assumes "crypto_ok cr" "state_wf s"
    and "\<And>obj s1. extends cr s s1 \<Longrightarrow> live s1 a obj \<Longrightarrow> extends cr s1 (f obj s1)"
  shows "extends cr s (let (obj, s) = GetOrNewStateObject cr s a in f obj s)"
proof -
  obtain obj s1 where g: "GetOrNewStateObject cr s a = (obj, s1)" by (cases "GetOrNewStateObject cr s a")
  from GetOrNewStateObject_extends [OF assms(1,2) g] have "extends cr s s1" "live s1 a obj"
    by (simp_all add: live_def)
  with assms(3) extends_trans g show ?thesis by auto
qed

lemma AddBalance_extends [extends_intros]:
  "crypto_ok cr \<Longrightarrow> state_wf s \<Longrightarrow> extends cr s (AddBalance cr s a v)"
  unfolding AddBalance_def
  by (rule extends_via_new)
    (auto simp: so_AddBalance_def dest: extends_wf intro: touch_extends so_SetBalance_extends extends_refl)

lemma SubBalance_extends [extends_intros]:
  "crypto_ok cr \<Longrightarrow> state_wf s \<Longrightarrow> extends cr s (SubBalance cr s a v)"
  unfolding SubBalance_def
  by (rule extends_via_new)
    (auto simp: so_SubBalance_def dest: extends_wf intro: so_SetBalance_extends extends_refl)

lemma SetBalance_extends [extends_intros]:
  "crypto_ok cr \<Longrightarrow> state_wf s \<Longrightarrow> extends cr s (SetBalance cr s a v)"
  unfolding SetBalance_def
  by (rule extends_via_new) (auto dest: extends_wf intro: so_SetBalance_extends)

lemma SetNonce_extends [extends_intros]:
  "crypto_ok cr \<Longrightarrow> state_wf s \<Longrightarrow> extends cr s (SetNonce cr s a v)"
  unfolding SetNonce_def
  by (rule extends_via_new) (auto dest: extends_wf intro: so_SetNonce_extends)

lemma SetCode_extends [extends_intros]:
  "crypto_ok cr \<Longrightarrow> state_wf s \<Longrightarrow> extends cr s (SetCode cr s a c)"
  unfolding SetCode_def
  by (rule extends_via_new) (auto dest: extends_wf intro: so_SetCode_extends)

lemma SetState_extends [extends_intros]:
  "crypto_ok cr \<Longrightarrow> state_wf s \<Longrightarrow> extends cr s (SetState cr s a k v)"
  unfolding SetState_def
  by (rule extends_via_new) (auto dest: extends_wf intro: so_SetState_extends)

lemma Transfer_extends [extends_intros]:
  "crypto_ok cr \<Longrightarrow> state_wf s \<Longrightarrow> extends cr s (Transfer cr s a b v)"
  unfolding Transfer_def
  by (meson AddBalance_extends SubBalance_extends extends_trans extends_wf)

lemma AddRefund_extends' [extends_intros]: "state_wf s \<Longrightarrow> extends cr s (AddRefund s g)"
  using AddRefund_extends [of s cr "refund s + g"] by (simp add: AddRefund_def Let_def)

lemma SubRefund_extends [extends_intros]:
  "state_wf s \<Longrightarrow> SubRefund s g = Some s' \<Longrightarrow> extends cr s s'"
  using AddRefund_extends [of s cr "refund s - g"] by (auto simp: SubRefund_def Let_def split: if_splits)

text \<open>Reads: the value is the one of the view, and the state only has more in its caches.\<close>

definition read_ok :: "crypto \<Rightarrow> StateDB \<Rightarrow> StateDB \<Rightarrow> bool" where
  "read_ok cr s s' \<longleftrightarrow> same_view cr s' s \<and> same_revs s' s \<and> sdb_journal s' = sdb_journal s \<and> state_wf s'"

lemma read_ok_extends [extends_intros]: "read_ok cr s s' \<Longrightarrow> extends cr s s'"
  by (simp add: read_ok_def extends_same)

lemma read_ok_refl [simp]: "state_wf s \<Longrightarrow> read_ok cr s s"
  by (simp add: read_ok_def)

lemma read_ok_trans: "read_ok cr s t \<Longrightarrow> read_ok cr t u \<Longrightarrow> read_ok cr s u"
  unfolding read_ok_def using same_view_trans same_revs_trans by metis

lemma getStateObject_read:
  assumes "state_wf s" "getStateObject cr s a = (o1, s')"
  shows "read_ok cr s s'"
  using getStateObject_same_view [OF assms(2)] getStateObject_wf [OF assms(2,1)]
    getStateObject_frame [OF assms(2)]
  by (simp add: read_ok_def same_revs_def jentries_def)

lemma cached_read:
  assumes "state_wf s" "live s a obj" "so_address obj' = a" "\<not> deleted obj'"
    "so_data obj' = so_data obj" "obj_view cr (sdb_db s) obj' = obj_view cr (sdb_db s) obj"
  shows "read_ok cr s (setStateObject s obj')"
proof -
  have "acct cr s a = Some (obj_view cr (sdb_db s) obj)"
    using assms(2) by (simp add: acct_def peek_obj_def getStateObject_def live_def)
  then have "acct cr (setStateObject s obj') = acct cr s"
    using assms(3,4,6) by (auto simp: acct_set fun_eq_iff)
  moreover have "state_wf (setStateObject s obj')"
    using assms(1,3-5) live_codehash [OF assms(1,2)] by (intro state_wf_set) (auto simp: obj_ok_def)
  ultimately show ?thesis by (simp add: read_ok_def same_view_def same_revs_def jentries_def)
qed

lemma get_live:
  assumes "state_wf s" "getStateObject cr s a = (Some obj, s')"
  shows "live s' a obj \<and> acct cr s a = Some (obj_view cr (sdb_db s') obj)"
proof -
  note pk = getStateObject_peek [OF assms(2)] and fr = getStateObject_frame [OF assms(2)]
  have "stateObjects s' a = Some obj" "\<not> deleted obj" using peek_obj_Some [OF assms(2)] by auto
  moreover from this getStateObject_wf [OF assms(2,1)] have "so_address obj = a"
    by (auto simp: state_wf_def obj_ok_def)
  moreover have "peek_obj cr s a = Some obj" using pk by simp
  ultimately show ?thesis using fr by (simp add: live_def acct_def frame_def)
qed

lemma get_none: "getStateObject cr s a = (None, s') \<Longrightarrow> acct cr s a = None"
  using getStateObject_peek [of cr s a None s'] by (simp add: acct_def)

lemma set_live_self: "live s a obj \<Longrightarrow> setStateObject s obj = s"
  by (simp add: live_def setStateObject_def fun_upd_idem)

lemma GetBalance_read [extends_intros]:
  "state_wf s \<Longrightarrow> GetBalance cr s a = (v, s') \<Longrightarrow>
   read_ok cr s s' \<and> v = (case acct cr s a of None \<Rightarrow> 0 | Some x \<Rightarrow> av_balance x)"
  by (cases "getStateObject cr s a"; cases "fst (getStateObject cr s a)")
    (auto simp: GetBalance_def so_Balance_def obj_view_def dest: getStateObject_read get_live get_none)

lemma GetNonce_read [extends_intros]:
  "state_wf s \<Longrightarrow> GetNonce cr s a = (v, s') \<Longrightarrow>
   read_ok cr s s' \<and> v = (case acct cr s a of None \<Rightarrow> 0 | Some x \<Rightarrow> av_nonce x)"
  by (cases "getStateObject cr s a"; cases "fst (getStateObject cr s a)")
    (auto simp: GetNonce_def so_Nonce_def obj_view_def dest: getStateObject_read get_live get_none)

lemma GetCodeHash_read [extends_intros]:
  "state_wf s \<Longrightarrow> GetCodeHash cr s a = (v, s') \<Longrightarrow>
   read_ok cr s s' \<and> v = (case acct cr s a of None \<Rightarrow> zeroHash | Some x \<Rightarrow> BytesToHash (av_codehash x))"
  by (cases "getStateObject cr s a"; cases "fst (getStateObject cr s a)")
    (auto simp: GetCodeHash_def so_CodeHash_def obj_view_def dest: getStateObject_read get_live get_none)

lemma Exist_read [extends_intros]:
  "state_wf s \<Longrightarrow> Exist cr s a = (v, s') \<Longrightarrow> read_ok cr s s' \<and> v = (acct cr s a \<noteq> None)"
  by (cases "getStateObject cr s a"; cases "fst (getStateObject cr s a)")
    (auto simp: Exist_def dest: getStateObject_read get_live get_none)

lemma Empty_read [extends_intros]:
  "state_wf s \<Longrightarrow> Empty cr s a = (v, s') \<Longrightarrow>
   read_ok cr s s' \<and> v = (case acct cr s a of None \<Rightarrow> True | Some x \<Rightarrow>
     av_nonce x = 0 \<and> av_balance x = 0 \<and> av_codehash x = emptyCodeHash cr)"
  by (cases "getStateObject cr s a"; cases "fst (getStateObject cr s a)")
    (auto simp: Empty_def so_empty_def obj_view_def dest: getStateObject_read get_live get_none)

lemma HasSuicided_read [extends_intros]:
  "state_wf s \<Longrightarrow> HasSuicided cr s a = (v, s') \<Longrightarrow>
   read_ok cr s s' \<and> v = (case acct cr s a of None \<Rightarrow> False | Some x \<Rightarrow> av_suicided x)"
  by (cases "getStateObject cr s a"; cases "fst (getStateObject cr s a)")
    (auto simp: HasSuicided_def obj_view_def dest: getStateObject_read get_live get_none)

lemma CanTransfer_read [extends_intros]:
  "state_wf s \<Longrightarrow> CanTransfer cr s a v = (b, s') \<Longrightarrow>
   read_ok cr s s' \<and> b = (v \<le> (case acct cr s a of None \<Rightarrow> 0 | Some x \<Rightarrow> av_balance x))"
  using GetBalance_read [of s cr a] by (cases "GetBalance cr s a") (auto simp: CanTransfer_def)

lemma so_read_store:
  assumes "state_wf s" "live s a obj"
  shows "read_ok cr s (setStateObject s (snd (so_GetState (sdb_db s) obj k)))"
    "read_ok cr s (setStateObject s (snd (so_GetCommittedState (sdb_db s) obj k)))"
    "read_ok cr s (setStateObject s (snd (so_Code cr (sdb_db s) obj)))"
  using assms(2) by (auto intro!: cached_read [OF assms] simp: live_def)

lemma get_then_read:
  assumes "state_wf s" "getStateObject cr s a = (Some obj, s1)" "read_ok cr s1 s'"
  shows "read_ok cr s s'"
  using read_ok_trans [OF getStateObject_read [OF assms(1,2)] assms(3)] .

lemma GetState_read [extends_intros]:
  assumes "state_wf s" "GetState cr s a k = (v, s')"
  shows "read_ok cr s s' \<and> v = (case acct cr s a of None \<Rightarrow> zeroHash | Some x \<Rightarrow> av_storage x k)"
proof (cases "getStateObject cr s a")
  case (Pair o1 s1)
  show ?thesis
  proof (cases o1)
    case None
    with assms Pair get_none show ?thesis by (auto simp: GetState_def dest: getStateObject_read)
  next
    case (Some obj)
    note g = Pair [unfolded Some] and lv = get_live [OF assms(1) Pair [unfolded Some]]
    have "v = fst (so_GetState (sdb_db s1) obj k)"
      "s' = setStateObject s1 (snd (so_GetState (sdb_db s1) obj k))"
      using assms(2) g by (simp_all add: GetState_def split: prod.splits)
    with get_then_read [OF assms(1) g so_read_store(1)] lv extends_wf
      getStateObject_extends [OF assms(1) g] show ?thesis by (auto simp: obj_view_def)
  qed
qed

lemma GetCommittedState_read [extends_intros]:
  assumes "state_wf s" "GetCommittedState cr s a k = (v, s')"
  shows "read_ok cr s s' \<and> v = (case acct cr s a of None \<Rightarrow> zeroHash | Some x \<Rightarrow> av_committed x k)"
proof (cases "getStateObject cr s a")
  case (Pair o1 s1)
  show ?thesis
  proof (cases o1)
    case None
    with assms Pair get_none show ?thesis by (auto simp: GetCommittedState_def dest: getStateObject_read)
  next
    case (Some obj)
    note g = Pair [unfolded Some] and lv = get_live [OF assms(1) Pair [unfolded Some]]
    have "v = fst (so_GetCommittedState (sdb_db s1) obj k)"
      "s' = setStateObject s1 (snd (so_GetCommittedState (sdb_db s1) obj k))"
      using assms(2) g by (simp_all add: GetCommittedState_def split: prod.splits)
    with get_then_read [OF assms(1) g so_read_store(2)] lv extends_wf
      getStateObject_extends [OF assms(1) g] show ?thesis by (auto simp: obj_view_def)
  qed
qed

definition code_bytes :: "bytes option \<Rightarrow> bytes" where
  "code_bytes c = (case c of None \<Rightarrow> [] | Some b \<Rightarrow> b)"

lemma GetCode_read [extends_intros]:
  assumes "state_wf s" "GetCode cr s a = (v, s')"
  shows "read_ok cr s s' \<and> v = (case acct cr s a of None \<Rightarrow> [] | Some x \<Rightarrow> code_bytes (av_code x))"
proof (cases "getStateObject cr s a")
  case (Pair o1 s1)
  show ?thesis
  proof (cases o1)
    case None
    with assms Pair get_none show ?thesis by (auto simp: GetCode_def dest: getStateObject_read)
  next
    case (Some obj)
    note g = Pair [unfolded Some] and lv = get_live [OF assms(1) Pair [unfolded Some]]
    have "v = code_bytes (fst (so_Code cr (sdb_db s1) obj))"
      "s' = setStateObject s1 (snd (so_Code cr (sdb_db s1) obj))"
      using assms(2) g by (auto simp: GetCode_def code_bytes_def split: prod.splits)
    with get_then_read [OF assms(1) g so_read_store(3)] lv extends_wf
      getStateObject_extends [OF assms(1) g] show ?thesis by (auto simp: obj_view_def)
  qed
qed

lemma setError_read: "state_wf s \<Longrightarrow> read_ok cr s (StateDB_setError s)"
proof -
  assume wf: "state_wf s"
  have "acct cr (StateDB_setError s) = acct cr s" by (rule acct_cong) (simp_all add: StateDB_setError_def)
  moreover have "state_wf (StateDB_setError s)"
    by (rule state_wf_cong [OF wf]) (simp_all add: StateDB_setError_def)
  ultimately show ?thesis
    by (simp add: read_ok_def same_view_def same_revs_def jentries_def StateDB_setError_def frame_def
        logs_of_def fun_eq_iff)
qed

lemma GetCodeSize_read [extends_intros]:
  assumes "state_wf s" "GetCodeSize cr s a = (v, s')"
  shows "read_ok cr s s' \<and> v = (case acct cr s a of None \<Rightarrow> 0 | Some x \<Rightarrow> av_codesize x)"
proof (cases "getStateObject cr s a")
  case (Pair o1 s1)
  note r1 = getStateObject_read [OF assms(1) Pair]
  then have wf1: "state_wf s1" by (simp add: read_ok_def)
  show ?thesis
  proof (cases o1)
    case None
    with assms Pair get_none r1 show ?thesis by (auto simp: GetCodeSize_def)
  next
    case (Some obj)
    note lv = get_live [OF assms(1) Pair [unfolded Some]]
    have "v = codeSize (sdb_db s1) obj \<and> (s' = s1 \<or> s' = StateDB_setError s1)"
      using assms(2) Pair Some
      by (auto simp: GetCodeSize_def codeSize_def split: option.splits)
    with lv r1 read_ok_trans [OF r1 setError_read [OF wf1]] show ?thesis by (auto simp: obj_view_def)
  qed
qed

section \<open>Snapshots\<close>

lemma search_loop_first:
  assumes mono: "\<And>k l. k \<le> l \<Longrightarrow> f k \<Longrightarrow> f l"
    and "i \<le> j" "\<And>k. k < i \<Longrightarrow> \<not> f k" "f j"
  shows "f (search_loop f i j) \<and> (\<forall>k < search_loop f i j. \<not> f k)"
  using assms(2-4)
proof (induction "j - i" arbitrary: i j rule: less_induct)
  case less
  show ?case
  proof (cases "i < j")
    case True
    define h where "h = (i + j) div 2"
    have h: "i \<le> h" "h < j" using True by (simp_all add: h_def)
    show ?thesis
    proof (cases "f h")
      case fh: True
      have "search_loop f i j = search_loop f i h"
        using True fh by (subst search_loop.simps) (simp add: h_def [symmetric])
      with less.hyps [of h i] h fh less.prems(2) show ?thesis by simp
    next
      case nf: False
      have "search_loop f i j = search_loop f (h + 1) j"
        using True nf by (subst search_loop.simps) (simp add: h_def [symmetric])
      moreover have "\<not> f k" if "k < h + 1" for k using that nf mono [of k h] by auto
      ultimately show ?thesis using less.hyps [of j "h + 1"] h less.prems(3) by simp
    qed
  next
    case False
    with less.prems show ?thesis by (subst search_loop.simps, subst (2) search_loop.simps) simp
  qed
qed

text \<open>The binary search of \<^verbatim>\<open>RevertToSnapshot\<close> finds the revision when the identifiers are in order.\<close>

lemma search_loop_cong:
  "(\<And>k. i \<le> k \<Longrightarrow> k < j \<Longrightarrow> f k = g k) \<Longrightarrow> search_loop f i j = search_loop g i j"
proof (induction "j - i" arbitrary: i j rule: less_induct)
  case less
  show ?case
  proof (cases "i < j")
    case True
    define h where "h = (i + j) div 2"
    have h: "i \<le> h" "h < j" using True by (simp_all add: h_def)
    with less.prems have fg: "f h = g h" by blast
    have "search_loop f i h = search_loop g i h" "search_loop f (h + 1) j = search_loop g (h + 1) j"
      using less.hyps [of h i] less.hyps [of j "h + 1"] less.prems h by simp_all
    with True fg show ?thesis
      by (subst search_loop.simps, subst (2) search_loop.simps) (simp add: h_def [symmetric] Let_def)
  next
    case False
    then show ?thesis by (subst search_loop.simps, subst (2) search_loop.simps) simp
  qed
qed

lemma sort_Search_sorted:
  assumes "sorted_wrt (<) (map rev_id rs)" "i < length rs" "rev_id (rs ! i) = v"
  shows "sort_Search (length rs) (\<lambda>k. rev_id (rs ! k) \<ge> v) = i"
proof -
  have less: "rev_id (rs ! k) < rev_id (rs ! l)" if "k < l" "l < length rs" for k l
    using sorted_wrt_nth_less [OF assms(1), of k l] that by simp
  have iff: "rev_id (rs ! k) \<ge> v \<longleftrightarrow> i \<le> k" if "k < length rs" for k
    using less [of k i] less [of i k] assms(2,3) that by (cases k i rule: linorder_cases) auto
  let ?g = "\<lambda>k. i \<le> k"
  have "sort_Search (length rs) (\<lambda>k. rev_id (rs ! k) \<ge> v) = search_loop ?g 0 (length rs)"
    unfolding sort_Search_def by (rule search_loop_cong) (simp add: iff)
  moreover have "?g (search_loop ?g 0 (length rs)) \<and> (\<forall>k < search_loop ?g 0 (length rs). \<not> ?g k)"
    using assms(2) by (intro search_loop_first) auto
  ultimately show ?thesis by (metis le_neq_implies_less order_refl)
qed

lemma Snapshot_extends:
  assumes "state_wf s" "Snapshot s = (i, s1)"
  shows "extends cr s s1" "same_view cr s1 s" "i = nextRevisionId s" "jentries s1 = jentries s"
    "validRevisions s1 = validRevisions s @ [\<lparr>rev_id = i, rev_journalIndex = length (jentries s)\<rparr>]"
    "nextRevisionId s1 = Suc i" "sdb_journal s1 = sdb_journal s"
proof -
  have s1: "s1 = s\<lparr>nextRevisionId := Suc (nextRevisionId s), validRevisions := validRevisions s @
      [\<lparr>rev_id = nextRevisionId s, rev_journalIndex = length (jentries s)\<rparr>]\<rparr>"
    and i: "i = nextRevisionId s"
    using assms(2) by (auto simp: Snapshot_def Let_def journal_length_def jentries_def)
  have a: "acct cr s1 = acct cr s" by (rule acct_cong) (simp_all add: s1)
  show v: "same_view cr s1 s" using a by (simp add: same_view_def s1 frame_def logs_of_def fun_eq_iff)
  have "state_wf s1"
    using assms(1) by (auto simp: s1 state_wf_def obj_ok_def rev_ok_def sorted_wrt_append)
  then show "extends cr s s1"
    using undoes_same [OF v] dirt_same [of "sdb_journal s" "sdb_journal s"] by (auto simp: extends_def s1 frame_def jentries_def)
  show "sdb_journal s1 = sdb_journal s" by (simp add: s1)
  show "i = nextRevisionId s" "jentries s1 = jentries s" "nextRevisionId s1 = Suc i"
    "validRevisions s1 = validRevisions s @ [\<lparr>rev_id = i, rev_journalIndex = length (jentries s)\<rparr>]"
    by (simp_all add: s1 i jentries_def)
qed

lemma RevertToSnapshot_undoes:
  assumes "state_wf s" "Snapshot s = (i, s1)" "extends cr s1 s2"
  shows "\<exists>s3. RevertToSnapshot cr s2 i = Some s3 \<and> same_view cr s3 s \<and> extends cr s s3 \<and>
    jentries s3 = jentries s \<and> validRevisions s3 = validRevisions s \<and>
    (\<forall>a. a \<noteq> ripemd \<longrightarrow> dcount (sdb_journal s3) a = dcount (sdb_journal s) a) \<and>
    dcount (sdb_journal s) ripemd + touches (drop (length (jentries s)) (jentries s2)) \<le> dcount (sdb_journal s3) ripemd \<and>
    (counts_ok (sdb_journal s) \<longrightarrow> counts_ok (sdb_journal s3))"
proof -
  note sn = Snapshot_extends [OF assms(1,2)]
  from assms(3) obtain es rs where e: "jentries s2 = jentries s @ es" "undoes cr es s1 s2"
    "validRevisions s2 = validRevisions s @ \<lparr>rev_id = i, rev_journalIndex = length (jentries s)\<rparr> # rs"
    "state_wf s2" "frame s2 = frame s1" "nextRevisionId s1 \<le> nextRevisionId s2"
    and d: "dirt es (sdb_journal s) (sdb_journal s2)"
    unfolding extends_def sn(4,5,7) by auto
  let ?n = "length (validRevisions s)"
  have "sorted_wrt (<) (map rev_id (validRevisions s2))" using e(4) by (simp add: state_wf_def rev_ok_def)
  from sort_Search_sorted [OF this, of ?n i]
  have idx: "sort_Search (length (validRevisions s2)) (\<lambda>k. i \<le> rev_id (validRevisions s2 ! k)) = ?n"
    by (simp add: e(3))
  from e(2,4) obtain t where t: "revert_loop cr (rev es) s2 = Some t" "same_view cr t s1" "state_wf t"
    "same_revs t s2" unfolding undoes_def using same_view_refl by blast
  let ?j = "(sdb_journal t)\<lparr>entries := jentries s\<rparr>"
  have "journal_revert cr s2 (length (jentries s)) = Some (t\<lparr>sdb_journal := ?j\<rparr>)"
    using t(1,4) e(1) by (simp add: journal_revert_def jentries_def same_revs_def go_slice_def)
  then have rv: "RevertToSnapshot cr s2 i = Some (t\<lparr>sdb_journal := ?j, validRevisions := validRevisions s\<rparr>)"
    using t(4) unfolding RevertToSnapshot_def Let_def idx by (simp add: e(3) same_revs_def)
  let ?s3 = "t\<lparr>sdb_journal := ?j, validRevisions := validRevisions s\<rparr>"
  have a: "acct cr ?s3 = acct cr t" by (rule acct_cong) simp_all
  have v: "same_view cr ?s3 s"
    using a same_view_trans [OF t(2) sn(2)] by (simp add: same_view_def frame_def logs_of_def fun_eq_iff)
  have "nextRevisionId s \<le> nextRevisionId t" using t(4) e(6) sn(3,6) by (simp add: same_revs_def)
  moreover have "state_wf ?s3"
    using t(3) assms(1) calculation unfolding state_wf_def obj_ok_def rev_ok_def
    by (auto intro: order_less_le_trans)
  moreover have cnt: "dcount (sdb_journal ?s3) a = dcount (sdb_journal s2) a - ecount es a" for a
    using revert_loop_counts [OF t(1), of a] by (simp add: dcount_def)
  moreover have ok: "counts_ok (sdb_journal s) \<longrightarrow> counts_ok (sdb_journal ?s3)"
  proof
    assume c: "counts_ok (sdb_journal s)"
    have "0 \<le> dcount (sdb_journal ?s3) a" for a
      using counts_ok_nonneg [OF c, of a] cnt [of a] d touches_nonneg [of es] by (cases "a = ripemd") (auto simp: dirt_def)
    moreover have "\<forall>a. dirties (sdb_journal s2) a \<noteq> Some 0" using c d by (auto simp: dirt_def counts_ok_iff)
    ultimately show "counts_ok (sdb_journal ?s3)" using revert_loop_counts [OF t(1)] by (simp add: counts_ok_iff)
  qed
  moreover have "dirt [] (sdb_journal s) (sdb_journal ?s3)"
    using cnt ok d touches_nonneg [of es] by (auto simp: dirt_def)
  ultimately have "extends cr s ?s3"
    using undoes_same [OF v] v by (auto simp: extends_def jentries_def same_view_def)
  moreover have "touches (drop (length (jentries s)) (jentries s2)) = touches es" using e(1) by simp
  ultimately show ?thesis using rv v cnt ok d by (auto simp: jentries_def dirt_def)
qed

section \<open>The contract of snapshots\<close>

text \<open>
  What the virtual machine relies on: running an operation that only extends the state and then
  reverting to the snapshot taken before it gives back a state that looks like the one before.
\<close>

locale snapshots =
  fixes wf :: "'s \<Rightarrow> bool"
    and ext :: "'s \<Rightarrow> 's \<Rightarrow> bool"
    and same :: "'s \<Rightarrow> 's \<Rightarrow> bool"
    and snap :: "'s \<Rightarrow> nat \<times> 's"
    and rvt :: "'s \<Rightarrow> nat \<Rightarrow> 's option"
  assumes ext_refl: "wf s \<Longrightarrow> ext s s"
    and ext_trans: "ext s t \<Longrightarrow> ext t u \<Longrightarrow> ext s u"
    and ext_wf: "ext s t \<Longrightarrow> wf t"
    and snap_ext: "wf s \<Longrightarrow> ext s (snd (snap s)) \<and> same (snd (snap s)) s"
    and rvt_same: "wf s \<Longrightarrow> ext (snd (snap s)) t \<Longrightarrow>
      \<exists>u. rvt t (fst (snap s)) = Some u \<and> same u s \<and> ext s u"
begin

text \<open>A guarded computation: keep its state on success, revert it on failure.\<close>

lemma guarded:
  assumes "wf s" "ext (snd (snap s)) t"
  shows "\<exists>u. (if ok then Some t else rvt t (fst (snap s))) = Some u \<and> ext s u \<and> (\<not> ok \<longrightarrow> same u s)"
proof (cases ok)
  case True
  with snap_ext [OF assms(1)] ext_trans [OF _ assms(2)] show ?thesis by auto
next
  case False
  with rvt_same [OF assms] show ?thesis by auto
qed

end

interpretation sdb: snapshots state_wf "extends cr" "same_view cr" Snapshot "RevertToSnapshot cr" for cr
proof unfold_locales
  fix s t :: StateDB
  assume wf: "state_wf s"
  have sn: "Snapshot s = (fst (Snapshot s), snd (Snapshot s))" by simp
  show "extends cr s (snd (Snapshot s)) \<and> same_view cr (snd (Snapshot s)) s"
    using Snapshot_extends [OF wf sn] by blast
  assume "extends cr (snd (Snapshot s)) t"
  from RevertToSnapshot_undoes [OF wf sn this]
  show "\<exists>u. RevertToSnapshot cr t (fst (Snapshot s)) = Some u \<and> same_view cr u s \<and> extends cr s u"
    by blast
qed (auto intro: extends_refl extends_trans extends_wf)

lemma counts_ok_dirties: "counts_ok j \<Longrightarrow> dirties j a = (if dcount j a = 0 then None else Some (dcount j a))"
  by (auto simp: counts_ok_def dcount_def split: option.splits)

lemma touched_counts:
  "counts_ok j \<Longrightarrow> dirties j ripemd \<noteq> None \<or> touchChange ripemd \<in> set es \<Longrightarrow> 0 < dcount j ripemd + touches es"
proof -
  assume j: "counts_ok j" and t: "dirties j ripemd \<noteq> None \<or> touchChange ripemd \<in> set es"
  have "0 < touches es" if "touchChange ripemd \<in> set es" using that by (auto simp: touches_def filter_empty_conv)
  moreover have "0 < dcount j ripemd" if "dirties j ripemd \<noteq> None" using that j by (auto simp: counts_ok_def dcount_def)
  ultimately show ?thesis using t counts_ok_nonneg [OF j, of ripemd] touches_nonneg [of es] by linarith
qed

section \<open>Sequences of operations\<close>

text \<open>
  The state-changing operations of \<^verbatim>\<open>vm.StateDB\<close>, in any order, with nested blocks that take a
  snapshot, run, and either keep their changes or revert to the snapshot.
\<close>

datatype db_op =
    OCreateAccount Address
  | OSubBalance Address int
  | OAddBalance Address int
  | OSetNonce Address u64
  | OSetCode Address bytes
  | OSetState Address Hash Hash
  | OGetState Address Hash
  | OGetCode Address
  | OAddRefund u64
  | OSubRefund u64
  | OSuicide Address
  | OAddLog Log
  | OAddPreimage Hash bytes
  | OBlock "db_op list" bool

fun run_op :: "crypto \<Rightarrow> db_op \<Rightarrow> StateDB \<Rightarrow> StateDB option"
  and run_ops :: "crypto \<Rightarrow> db_op list \<Rightarrow> StateDB \<Rightarrow> StateDB option" where
  "run_op cr (OCreateAccount a) s = Some (CreateAccount cr s a)"
| "run_op cr (OSubBalance a v) s = Some (SubBalance cr s a v)"
| "run_op cr (OAddBalance a v) s = Some (AddBalance cr s a v)"
| "run_op cr (OSetNonce a n) s = Some (SetNonce cr s a n)"
| "run_op cr (OSetCode a c) s = Some (SetCode cr s a c)"
| "run_op cr (OSetState a k v) s = Some (SetState cr s a k v)"
| "run_op cr (OGetState a k) s = Some (snd (GetState cr s a k))"
| "run_op cr (OGetCode a) s = Some (snd (GetCode cr s a))"
| "run_op cr (OAddRefund g) s = Some (AddRefund s g)"
| "run_op cr (OSubRefund g) s = SubRefund s g"
| "run_op cr (OSuicide a) s = Some (snd (Suicide cr s a))"
| "run_op cr (OAddLog l) s = Some (AddLog s l)"
| "run_op cr (OAddPreimage h p) s = Some (AddPreimage s h p)"
| "run_op cr (OBlock ops keep) s =
     do {
       let (i, s) = Snapshot s;
       s \<leftarrow> run_ops cr ops s;
       if keep then Some s else RevertToSnapshot cr s i
     }"
| "run_ops cr [] s = Some s"
| "run_ops cr (op # ops) s = do { s \<leftarrow> run_op cr op s; run_ops cr ops s }"

lemma run_extends:
  "crypto_ok cr \<Longrightarrow> state_wf s \<Longrightarrow> run_op cr op s = Some s' \<Longrightarrow> extends cr s s'"
  "crypto_ok cr \<Longrightarrow> state_wf s \<Longrightarrow> run_ops cr ops s = Some s' \<Longrightarrow> extends cr s s'"
proof (induction cr op s and cr ops s arbitrary: s' and s' rule: run_op_run_ops.induct)
  case (7 cr a k s)
  then show ?case using GetState_read [of s cr a k] by (cases "GetState cr s a k") (auto intro: read_ok_extends)
next
  case (8 cr a s)
  then show ?case using GetCode_read [of s cr a] by (cases "GetCode cr s a") (auto intro: read_ok_extends)
next
  case (11 cr a s)
  then show ?case using Suicide_extends [of cr s a] by (cases "Suicide cr s a") auto
next
  case (14 cr ops keep s)
  obtain i s1 where sn: "Snapshot s = (i, s1)" by (cases "Snapshot s")
  from "14.prems" sn obtain s2 where s2: "run_ops cr ops s1 = Some s2"
    "(if keep then Some s2 else RevertToSnapshot cr s2 i) = Some s'"
    by (auto split: Option.bind_splits)
  have "state_wf s1" using Snapshot_extends(1) [OF "14.prems"(2) sn] by (rule extends_wf)
  with "14.IH" [OF sn [symmetric] refl] "14.prems"(1) s2 have "extends cr s1 s2" by blast
  with sdb.guarded [OF "14.prems"(2), of cr s2 keep] sn s2(2) show ?case by (cases keep) auto
next
  case (16 cr op ops s)
  then show ?case
    by (auto split: Option.bind_splits dest: extends_wf intro: extends_trans)
qed (auto intro: CreateAccount_extends extends_intros AddLog_extends AddPreimage_extends extends_refl)

text \<open>
  (C5) Reverting to a snapshot: after any sequence of state-changing operations, with reads in between
  and with nested snapshots kept or reverted, \<^verbatim>\<open>RevertToSnapshot\<close> does not panic and gives a state in
  which every account (its existence, nonce, balance, code, code hash, code size, storage, committed storage and
  suicide mark), the refund counter, the logs and the preimages are as they were when the snapshot was taken;
  the entries of the journal and the list of revisions are restored too. So are the dirty counts of the journal, for every address
  but \<open>ripemd\<close>: there the touches that are reverted stay counted, so that the address remains dirty.
\<close>

theorem RevertToSnapshot_restores:
  assumes "crypto_ok cr" "state_wf s" "counts_ok (sdb_journal s)" "Snapshot s = (i, s1)" "run_ops cr ops s1 = Some s2"
  shows "\<exists>s3. RevertToSnapshot cr s2 i = Some s3 \<and> same_view cr s3 s \<and>
    entries (sdb_journal s3) = entries (sdb_journal s) \<and> validRevisions s3 = validRevisions s \<and>
    (\<forall>a. a \<noteq> ripemd \<longrightarrow> dirties (sdb_journal s3) a = dirties (sdb_journal s) a) \<and>
    (dirties (sdb_journal s) ripemd \<noteq> None \<or>
     touchChange ripemd \<in> set (drop (length (entries (sdb_journal s))) (entries (sdb_journal s2))) \<longrightarrow>
     dirties (sdb_journal s3) ripemd \<noteq> None) \<and>
    counts_ok (sdb_journal s3)"
proof -
  have "state_wf s1" using Snapshot_extends(1) [OF assms(2,4)] by (rule extends_wf)
  with run_extends(2) assms(1,5) have "extends cr s1 s2" by blast
  from RevertToSnapshot_undoes [OF assms(2,4) this] obtain s3 where s3: "RevertToSnapshot cr s2 i = Some s3" "same_view cr s3 s"
      "jentries s3 = jentries s" "validRevisions s3 = validRevisions s" "counts_ok (sdb_journal s3)"
      "\<And>a. a \<noteq> ripemd \<Longrightarrow> dcount (sdb_journal s3) a = dcount (sdb_journal s) a"
      "dcount (sdb_journal s) ripemd + touches (drop (length (jentries s)) (jentries s2)) \<le> dcount (sdb_journal s3) ripemd"
    using assms(3) by blast
  have "dirties (sdb_journal s3) a = dirties (sdb_journal s) a" if "a \<noteq> ripemd" for a
    using s3(6) [OF that] counts_ok_dirties assms(3) s3(5) by metis
  moreover have "dirties (sdb_journal s3) ripemd \<noteq> None"
    if "dirties (sdb_journal s) ripemd \<noteq> None \<or> touchChange ripemd \<in> set (drop (length (jentries s)) (jentries s2))"
  proof
    assume "dirties (sdb_journal s3) ripemd = None"
    then have "dcount (sdb_journal s3) ripemd = 0" by (simp add: dcount_def)
    with s3(7) touched_counts [OF assms(3) that] show False by simp
  qed
  ultimately show ?thesis using s3 by (auto simp: jentries_def)
qed

definition sample_crypto :: crypto where
  "sample_crypto = \<lparr>keccak256 = (\<lambda>_. replicate 32 7), sha256_Sum256 = (\<lambda>_. replicate 32 0),
     ripemd160_Sum = (\<lambda>_. replicate 20 0), Ecrecover = (\<lambda>_ _. None), G1_Unmarshal = (\<lambda>_. None),
     G2_Unmarshal = (\<lambda>_. None), G1_Add = (\<lambda>x _. x), G1_ScalarMult = (\<lambda>x _. x), PairingCheck = (\<lambda>_ _. False)\<rparr>"

lemma sample_crypto_ok: "crypto_ok sample_crypto"
  by (simp add: crypto_ok_def sample_crypto_def)

definition sample_db :: Database where
  "sample_db = \<lparr>StorageTrie = (\<lambda>_ _ _. SlotMissing), ContractCode = (\<lambda>_. None)\<rparr>"

definition sample_state :: StateDB where
  "sample_state = StateDB_New sample_db (\<lambda>_. AccMissing)"

lemma sample_state_wf: "state_wf sample_state"
  by (simp add: sample_state_def StateDB_New_def state_wf_def trie_ok_def rev_ok_def)

lemma ripemd_ne_zero: "zeroAddress \<noteq> ripemd"
  by code_simp

theorem RevertToSnapshot_restores_witness:
  "\<exists>s3. RevertToSnapshot sample_crypto
       (SetNonce sample_crypto (AddBalance sample_crypto (snd (Snapshot sample_state)) zeroAddress 5) zeroAddress 1) 0 =
       Some s3 \<and> same_view sample_crypto s3 sample_state \<and> dirties (sdb_journal s3) zeroAddress = None"
proof -
  have sn: "Snapshot sample_state = (0, snd (Snapshot sample_state))"
    by (simp add: Snapshot_def sample_state_def StateDB_New_def Let_def)
  have j: "sdb_journal sample_state = newJournal" by (simp add: sample_state_def StateDB_New_def)
  then have ok: "counts_ok (sdb_journal sample_state)" by (simp add: counts_ok_def newJournal_def)
  have "zeroAddress \<noteq> ripemd" by (simp add: ripemd_ne_zero)
  then show ?thesis
    using RevertToSnapshot_restores [OF sample_crypto_ok sample_state_wf ok sn,
        of "[OAddBalance zeroAddress 5, OSetNonce zeroAddress 1]"] by (auto simp: j newJournal_def)
qed

end
