(* ===== verification/Vm_Types.thy ===== *)
theory Vm_Types
  imports Opcodes Memory Contract State
begin

text \<open>
  The data of the virtual machine, shared by the instructions, the gas functions and the
  interpreter: the errors (\<^verbatim>\<open>errors.go\<close>, \<^verbatim>\<open>instructions.go\<close>, \<^verbatim>\<open>jump_table.go\<close>), \<^verbatim>\<open>Config\<close> and
  \<^verbatim>\<open>EVMInterpreter\<close> (\<^verbatim>\<open>interpreter.go\<close>), \<^verbatim>\<open>Context\<close> and \<^verbatim>\<open>EVM\<close> (\<^verbatim>\<open>evm.go\<close>), and the tracer \<^verbatim>\<open>StructLogger\<close>
  (\<^verbatim>\<open>logger.go\<close>).

  \<^item> The \<^verbatim>\<open>EVM\<close> has one interpreter, which points back to it; both are the one record \<open>EVM\<close>. The fields
    \<open>gasTable\<close>, \<open>instrSet\<close>, \<open>readOnly\<close> and \<open>returnData\<close> are those of \<^verbatim>\<open>EVMInterpreter\<close>. The pool of
    integers and the reused hasher are storage only and have no field.
  \<^item> The table of instructions in \<^verbatim>\<open>Config.JumpTable\<close> is one of the four instruction sets; the record
    holds which.
  \<^item> \<open>jumpdests_of\<close> is the map of analysed code that the contracts of a call tree share (see
    \<^verbatim>\<open>contract.go\<close>).
  \<^item> \<^verbatim>\<open>Cancel\<close> may be called by another goroutine at any time. \<open>abort\<close> is the number of times the flag is
    still read as 0 before the other goroutine has set it; \<open>None\<close>: it is never set.
  \<^item> \<open>GetHash\<close> and \<open>tracer\<close> may be nil (\<open>None\<close>); using them then panics.
\<close>

section \<open>Errors\<close>

datatype vmError =
    ErrOutOfGas
  | ErrCodeStoreOutOfGas
  | ErrDepth
  | ErrTraceLimitReached
  | ErrInsufficientBalance
  | ErrContractAddressCollision
  | ErrNoCompatibleInterpreter
  | errWriteProtection
  | errReturnDataOutOfBounds
  | errExecutionReverted
  | errMaxCodeSizeExceeded
  | errInvalidJump
  | errGasUintOverflow
  | errBadPairingInput
  | errInvalidOpcode OpCode
  | errStackUnderflow nat int
  | errStackLimit nat int
  | errUnmarshal

section \<open>The tracer\<close>

record LogConfig =
  DisableMemory :: bool
  DisableStack :: bool
  DisableStorage :: bool
  LogDebug :: bool
  Limit :: int

record StructLog =
  sl_Pc :: u64
  sl_Op :: OpCode
  sl_Gas :: u64
  sl_GasCost :: u64
  sl_Memory :: bytes
  sl_MemorySize :: nat
  sl_Stack :: "int list"
  sl_Storage :: Storage
  sl_Depth :: nat
  sl_RefundCounter :: u64
  sl_Err :: "vmError option"

record StructLogger =
  lg_cfg :: LogConfig
  lg_logs :: "StructLog list"
  changedValues :: "Address \<Rightarrow> Storage option"
  lg_output :: bytes
  lg_err :: "vmError option"

definition NewStructLogger :: "LogConfig option \<Rightarrow> StructLogger" where
  "NewStructLogger cfg =
     \<lparr>lg_cfg = (case cfg of
        None \<Rightarrow> \<lparr>DisableMemory = False, DisableStack = False, DisableStorage = False, LogDebug = False, Limit = 0\<rparr>
      | Some c \<Rightarrow> c),
      lg_logs = [], changedValues = Map.empty, lg_output = [], lg_err = None\<rparr>"

section \<open>The machine\<close>

record Config =
  Debug :: bool
  NoRecursion :: bool
  EnablePreimageRecording :: bool

record Context =
  CanTransferFn :: "StateDB \<Rightarrow> Address \<Rightarrow> int \<Rightarrow> bool \<times> StateDB"
  TransferFn :: "StateDB \<Rightarrow> Address \<Rightarrow> Address \<Rightarrow> int \<Rightarrow> StateDB"
  GetHash :: "(u64 \<Rightarrow> Hash) option"
  Origin :: Address
  GasPrice :: int
  Coinbase :: Address
  GasLimit :: u64
  BlockNumber :: int
  Time :: int
  Difficulty :: int

datatype instructionSet = FrontierSet | HomesteadSet | ByzantiumSet | ConstantinopleSet

record EVM =
  ctx :: Context
  sdb :: StateDB
  depth :: nat
  chainConfig :: ChainConfig
  chainRules :: Rules
  vmConfig :: Config
  abort :: "nat option"
  callGasTemp :: u64
  gasTable :: GasTable
  instrSet :: instructionSet
  readOnly :: bool
  returnData :: bytes
  tracer :: "StructLogger option"
  jumpdests_of :: jumpdests

definition Cancel :: "EVM \<Rightarrow> EVM" where
  "Cancel e = e\<lparr>abort := Some 0\<rparr>"

definition Cancelled :: "EVM \<Rightarrow> bool" where
  "Cancelled e \<longleftrightarrow> abort e = Some 0"

text \<open>Reading the flag, as the loop of the interpreter does.\<close>

definition load_abort :: "EVM \<Rightarrow> bool \<times> EVM" where
  "load_abort e =
     (case abort e of
        None \<Rightarrow> (False, e)
      | Some 0 \<Rightarrow> (True, e)
      | Some (Suc n) \<Rightarrow> (False, e\<lparr>abort := Some n\<rparr>))"

subsection \<open>Methods of the tracer\<close>

definition CaptureState ::
  "StructLogger \<Rightarrow> EVM \<Rightarrow> u64 \<Rightarrow> OpCode \<Rightarrow> u64 \<Rightarrow> u64 \<Rightarrow> Memory \<Rightarrow> Stack \<Rightarrow> Contract \<Rightarrow> nat \<Rightarrow>
   vmError option \<Rightarrow> vmError option \<times> StructLogger" where
  "CaptureState l env pc op gas cost memory stack contract dep err =
     (if Limit (lg_cfg l) \<noteq> 0 \<and> Limit (lg_cfg l) \<le> int (length (lg_logs l))
      then (Some ErrTraceLimitReached, l)
      else
        let addr = Contract_Address contract;
            values = (case changedValues l addr of None \<Rightarrow> Map.empty | Some st \<Rightarrow> st);
            values = (if op = SSTORE \<and> Stack_len stack \<ge> 2
                      then values(BigToHash (data stack ! (Stack_len stack - 1)) \<mapsto>
                                  BigToHash (data stack ! (Stack_len stack - 2)))
                      else values);
            l = l\<lparr>changedValues := (changedValues l)(addr \<mapsto> values)\<rparr>;
            mem = (if \<not> DisableMemory (lg_cfg l) then Memory_Data memory else []);
            stck = (if \<not> DisableStack (lg_cfg l) then data stack else []);
            storage = (if \<not> DisableStorage (lg_cfg l) then values else Map.empty);
            log = \<lparr>sl_Pc = pc, sl_Op = op, sl_Gas = gas, sl_GasCost = cost, sl_Memory = mem,
                   sl_MemorySize = Memory_Len memory, sl_Stack = stck, sl_Storage = storage,
                   sl_Depth = dep, sl_RefundCounter = GetRefund (sdb env), sl_Err = err\<rparr>
        in (None, l\<lparr>lg_logs := lg_logs l @ [log]\<rparr>))"

definition CaptureStart :: "StructLogger \<Rightarrow> vmError option \<times> StructLogger" where
  "CaptureStart l = (None, l)"

definition CaptureFault :: "StructLogger \<Rightarrow> vmError option \<times> StructLogger" where
  "CaptureFault l = (None, l)"

definition CaptureEnd :: "StructLogger \<Rightarrow> bytes \<Rightarrow> vmError option \<Rightarrow> vmError option \<times> StructLogger" where
  "CaptureEnd l output err = (None, l\<lparr>lg_output := output, lg_err := err\<rparr>)"

text \<open>A call of a method of \<^verbatim>\<open>Tracer\<close>, whose error the code ignores; a nil \<^verbatim>\<open>Tracer\<close> panics.\<close>

definition trace :: "EVM \<Rightarrow> (StructLogger \<Rightarrow> vmError option \<times> StructLogger) \<Rightarrow> EVM option" where
  "trace e m = (case tracer e of None \<Rightarrow> None | Some l \<Rightarrow> Some (e\<lparr>tracer := Some (snd (m l))\<rparr>))"

section \<open>Frames and the host\<close>

text \<open>
  What an instruction can modify: the program counter, the machine, its contract, memory and stack.
  It returns data and an error. The instructions that call or create run the interpreter again, by the methods
  of the machine; these are the fields of the record \<open>host\<close>, which also holds the parameters of the model. The
  results of such a run may be cut off (\<open>OutOfFuel\<close>).
\<close>

record Frame =
  f_pc :: u64
  f_evm :: EVM
  f_contract :: Contract
  f_memory :: Memory
  f_stack :: Stack

type_synonym callResult = "(bytes \<times> u64 \<times> vmError option \<times> EVM) outcome option"
type_synonym createResult = "(bytes \<times> Address \<times> u64 \<times> vmError option \<times> EVM) outcome option"

record host =
  h_crypto :: crypto
  h_Call :: "EVM \<Rightarrow> ContractRef \<Rightarrow> Address \<Rightarrow> bytes \<Rightarrow> u64 \<Rightarrow> int \<Rightarrow> callResult"
  h_CallCode :: "EVM \<Rightarrow> ContractRef \<Rightarrow> Address \<Rightarrow> bytes \<Rightarrow> u64 \<Rightarrow> int \<Rightarrow> callResult"
  h_DelegateCall :: "EVM \<Rightarrow> ContractRef \<Rightarrow> Address \<Rightarrow> bytes \<Rightarrow> u64 \<Rightarrow> callResult"
  h_StaticCall :: "EVM \<Rightarrow> ContractRef \<Rightarrow> Address \<Rightarrow> bytes \<Rightarrow> u64 \<Rightarrow> callResult"
  h_Create :: "EVM \<Rightarrow> ContractRef \<Rightarrow> bytes \<Rightarrow> u64 \<Rightarrow> int \<Rightarrow> createResult"
  h_Create2 :: "EVM \<Rightarrow> ContractRef \<Rightarrow> bytes \<Rightarrow> u64 \<Rightarrow> int \<Rightarrow> int \<Rightarrow> createResult"

type_synonym execResult = "(bytes \<times> vmError option \<times> Frame) outcome option"
type_synonym executionFunc = "host \<Rightarrow> Frame \<Rightarrow> execResult"

text \<open>\<^verbatim>\<open>return nil, nil\<close>\<close>

definition ret_nil :: "Frame \<Rightarrow> execResult" where
  "ret_nil f = Some (Done ([], None, f))"

end
