(* ===== verification/Gas_Table.thy ===== *)
theory Gas_Table
  imports Vm_Types
begin

text \<open>
  \<^verbatim>\<open>gas.go\<close> and \<^verbatim>\<open>gas_table.go\<close>: the dynamic gas of the instructions. A gas function reads the stack
  (\<open>None\<close>: below its bottom), may charge memory expansion to the memory, and may touch the machine (caches and
  refunds of the state, \<open>callGasTemp\<close>). \<open>Inl\<close> is the pair of gas 0 and an error, \<open>Inr\<close> gas and no error.
\<close>

abbreviation (input) GasQuickStep :: u64 where "GasQuickStep \<equiv> 2"
abbreviation (input) GasFastestStep :: u64 where "GasFastestStep \<equiv> 3"
abbreviation (input) GasFastStep :: u64 where "GasFastStep \<equiv> 5"
abbreviation (input) GasMidStep :: u64 where "GasMidStep \<equiv> 8"
abbreviation (input) GasSlowStep :: u64 where "GasSlowStep \<equiv> 10"
abbreviation (input) GasExtStep :: u64 where "GasExtStep \<equiv> 20"

definition callGas :: "GasTable \<Rightarrow> u64 \<Rightarrow> u64 \<Rightarrow> int \<Rightarrow> vmError + u64" where
  "callGas gt availableGas base callCost =
     (let availableGas = availableGas - base;
          gas = availableGas - availableGas div 64
      in if gt_CreateBySuicide gt > 0 \<and> (\<not> IsUint64 callCost \<or> gas < Uint64 callCost) then Inr gas
         else if \<not> IsUint64 callCost then Inl errGasUintOverflow
         else Inr (Uint64 callCost))"

definition memoryGasCost :: "Memory \<Rightarrow> u64 \<Rightarrow> (vmError + u64) \<times> Memory" where
  "memoryGasCost mem newMemSize =
     (if newMemSize = 0 then (Inr 0, mem)
      else if newMemSize > 0x1FFFFFFFE0 then (Inl errGasUintOverflow, mem)
      else
        let newMemSizeWords = toWordSize newMemSize;
            newMemSize = newMemSizeWords * 32
        in if newMemSize > word_of_nat (Memory_Len mem)
           then
             let square = newMemSizeWords * newMemSizeWords;
                 linCoef = newMemSizeWords * MemoryGas;
                 quadCoef = square div QuadCoeffDiv;
                 newTotalFee = linCoef + quadCoef;
                 fee = newTotalFee - lastGasCost mem
             in (Inr fee, mem\<lparr>lastGasCost := newTotalFee\<rparr>)
           else (Inr 0, mem))"

type_synonym gasFunc =
  "crypto \<Rightarrow> GasTable \<Rightarrow> EVM \<Rightarrow> Contract \<Rightarrow> Stack \<Rightarrow> Memory \<Rightarrow> u64 \<Rightarrow> ((vmError + u64) \<times> EVM \<times> Memory) option"

definition gasCallDataCopy :: gasFunc where
  "gasCallDataCopy cr gt evm contract stack mem memorySize =
     (let (r, mem) = memoryGasCost mem memorySize
      in case r of
           Inl err \<Rightarrow> Some (Inl err, evm, mem)
         | Inr gas \<Rightarrow>
            let (gas, overflow) = SafeAdd gas GasFastestStep
            in if overflow then Some (Inl errGasUintOverflow, evm, mem)
            else
            do {
              b \<leftarrow> Back stack 2;
              let (words, overflow) = bigUint64 b;
              if overflow then Some (Inl errGasUintOverflow, evm, mem)
              else
              let (words, overflow) = SafeMul (toWordSize words) CopyGas
              in if overflow then Some (Inl errGasUintOverflow, evm, mem)
              else
              let (gas, overflow) = SafeAdd gas words
              in if overflow then Some (Inl errGasUintOverflow, evm, mem)
              else Some (Inr gas, evm, mem)
            })"

definition gasReturnDataCopy :: gasFunc where
  "gasReturnDataCopy cr gt evm contract stack mem memorySize =
     (let (r, mem) = memoryGasCost mem memorySize
      in case r of
           Inl err \<Rightarrow> Some (Inl err, evm, mem)
         | Inr gas \<Rightarrow>
            let (gas, overflow) = SafeAdd gas GasFastestStep
            in if overflow then Some (Inl errGasUintOverflow, evm, mem)
            else
            do {
              b \<leftarrow> Back stack 2;
              let (words, overflow) = bigUint64 b;
              if overflow then Some (Inl errGasUintOverflow, evm, mem)
              else
              let (words, overflow) = SafeMul (toWordSize words) CopyGas
              in if overflow then Some (Inl errGasUintOverflow, evm, mem)
              else
              let (gas, overflow) = SafeAdd gas words
              in if overflow then Some (Inl errGasUintOverflow, evm, mem)
              else Some (Inr gas, evm, mem)
            })"

definition gasSStore :: gasFunc where
  "gasSStore cr gt evm contract stack mem memorySize =
     do {
       y \<leftarrow> Back stack 1;
       x \<leftarrow> Back stack 0;
       let (current, s) = GetState cr (sdb evm) (Contract_Address contract) (BigToHash x);
       let evm = evm\<lparr>sdb := s\<rparr>;
       if rIsPetersburg (chainRules evm) \<or> \<not> rIsConstantinople (chainRules evm)
       then
         if current = zeroHash \<and> y \<noteq> 0 then Some (Inr SstoreSetGas, evm, mem)
         else if current \<noteq> zeroHash \<and> y = 0
         then Some (Inr SstoreClearGas, evm\<lparr>sdb := AddRefund (sdb evm) SstoreRefundGas\<rparr>, mem)
         else Some (Inr SstoreResetGas, evm, mem)
       else
         let val1 = BigToHash y in
         if current = val1 then Some (Inr NetSstoreNoopGas, evm, mem)
         else
           let (original, s) = GetCommittedState cr (sdb evm) (Contract_Address contract) (BigToHash x);
               evm = evm\<lparr>sdb := s\<rparr>
           in if original = current
              then
                if original = zeroHash then Some (Inr NetSstoreInitGas, evm, mem)
                else if val1 = zeroHash
                then Some (Inr NetSstoreCleanGas, evm\<lparr>sdb := AddRefund (sdb evm) NetSstoreClearRefund\<rparr>, mem)
                else Some (Inr NetSstoreCleanGas, evm, mem)
              else do {
                s \<leftarrow> (if original \<noteq> zeroHash
                     then if current = zeroHash then SubRefund (sdb evm) NetSstoreClearRefund
                          else if val1 = zeroHash then Some (AddRefund (sdb evm) NetSstoreClearRefund)
                          else Some (sdb evm)
                     else Some (sdb evm));
                let s = (if original = val1
                         then if original = zeroHash then AddRefund s NetSstoreResetClearRefund
                              else AddRefund s NetSstoreResetRefund
                         else s);
                Some (Inr NetSstoreDirtyGas, evm\<lparr>sdb := s\<rparr>, mem)
              }
     }"

definition makeGasLog :: "u64 \<Rightarrow> gasFunc" where
  "makeGasLog n cr gt evm contract stack mem memorySize =
     do {
       b \<leftarrow> Back stack 1;
       let (requestedSize, overflow) = bigUint64 b;
       if overflow then Some (Inl errGasUintOverflow, evm, mem)
       else
         let (r, mem) = memoryGasCost mem memorySize
         in case r of
              Inl err \<Rightarrow> Some (Inl err, evm, mem)
            | Inr gas \<Rightarrow>
                let (gas, overflow) = SafeAdd gas LogGas
                in if overflow then Some (Inl errGasUintOverflow, evm, mem)
                else
                let (gas, overflow) = SafeAdd gas (n * LogTopicGas)
                in if overflow then Some (Inl errGasUintOverflow, evm, mem)
                else
                let (memorySizeGas, overflow) = SafeMul requestedSize LogDataGas
                in if overflow then Some (Inl errGasUintOverflow, evm, mem)
                else
                let (gas, overflow) = SafeAdd gas memorySizeGas
                in if overflow then Some (Inl errGasUintOverflow, evm, mem)
                else Some (Inr gas, evm, mem)
     }"

definition gasSha3 :: gasFunc where
  "gasSha3 cr gt evm contract stack mem memorySize =
     (let (r, mem) = memoryGasCost mem memorySize
      in case r of
           Inl err \<Rightarrow> Some (Inl err, evm, mem)
         | Inr gas \<Rightarrow>
            let (gas, overflow) = SafeAdd gas Sha3Gas
            in if overflow then Some (Inl errGasUintOverflow, evm, mem)
            else
            do {
              b \<leftarrow> Back stack 1;
              let (wordGas, overflow) = bigUint64 b;
              if overflow then Some (Inl errGasUintOverflow, evm, mem)
              else
              let (wordGas, overflow) = SafeMul (toWordSize wordGas) Sha3WordGas
              in if overflow then Some (Inl errGasUintOverflow, evm, mem)
              else
              let (gas, overflow) = SafeAdd gas wordGas
              in if overflow then Some (Inl errGasUintOverflow, evm, mem)
              else Some (Inr gas, evm, mem)
            })"

definition gasCodeCopy :: gasFunc where
  "gasCodeCopy cr gt evm contract stack mem memorySize =
     (let (r, mem) = memoryGasCost mem memorySize
      in case r of
           Inl err \<Rightarrow> Some (Inl err, evm, mem)
         | Inr gas \<Rightarrow>
            let (gas, overflow) = SafeAdd gas GasFastestStep
            in if overflow then Some (Inl errGasUintOverflow, evm, mem)
            else
            do {
              b \<leftarrow> Back stack 2;
              let (wordGas, overflow) = bigUint64 b;
              if overflow then Some (Inl errGasUintOverflow, evm, mem)
              else
              let (wordGas, overflow) = SafeMul (toWordSize wordGas) CopyGas
              in if overflow then Some (Inl errGasUintOverflow, evm, mem)
              else
              let (gas, overflow) = SafeAdd gas wordGas
              in if overflow then Some (Inl errGasUintOverflow, evm, mem)
              else Some (Inr gas, evm, mem)
            })"

definition gasExtCodeCopy :: gasFunc where
  "gasExtCodeCopy cr gt evm contract stack mem memorySize =
     (let (r, mem) = memoryGasCost mem memorySize
      in case r of
           Inl err \<Rightarrow> Some (Inl err, evm, mem)
         | Inr gas \<Rightarrow>
            let (gas, overflow) = SafeAdd gas (gt_ExtcodeCopy gt)
            in if overflow then Some (Inl errGasUintOverflow, evm, mem)
            else
            do {
              b \<leftarrow> Back stack 3;
              let (wordGas, overflow) = bigUint64 b;
              if overflow then Some (Inl errGasUintOverflow, evm, mem)
              else
              let (wordGas, overflow) = SafeMul (toWordSize wordGas) CopyGas
              in if overflow then Some (Inl errGasUintOverflow, evm, mem)
              else
              let (gas, overflow) = SafeAdd gas wordGas
              in if overflow then Some (Inl errGasUintOverflow, evm, mem)
              else Some (Inr gas, evm, mem)
            })"

definition gasExtCodeHash :: gasFunc where
  "gasExtCodeHash cr gt evm contract stack mem memorySize =
     Some (Inr (gt_ExtcodeHash gt), evm, mem)"

definition gasMLoad :: gasFunc where
  "gasMLoad cr gt evm contract stack mem memorySize =
     (let (r, mem) = memoryGasCost mem memorySize
      in case r of
           Inl err \<Rightarrow> Some (Inl errGasUintOverflow, evm, mem)
         | Inr gas \<Rightarrow>
            let (gas, overflow) = SafeAdd gas GasFastestStep
            in if overflow then Some (Inl errGasUintOverflow, evm, mem)
            else
            Some (Inr gas, evm, mem))"

definition gasMStore8 :: gasFunc where
  "gasMStore8 cr gt evm contract stack mem memorySize =
     (let (r, mem) = memoryGasCost mem memorySize
      in case r of
           Inl err \<Rightarrow> Some (Inl errGasUintOverflow, evm, mem)
         | Inr gas \<Rightarrow>
            let (gas, overflow) = SafeAdd gas GasFastestStep
            in if overflow then Some (Inl errGasUintOverflow, evm, mem)
            else
            Some (Inr gas, evm, mem))"

definition gasMStore :: gasFunc where
  "gasMStore cr gt evm contract stack mem memorySize =
     (let (r, mem) = memoryGasCost mem memorySize
      in case r of
           Inl err \<Rightarrow> Some (Inl errGasUintOverflow, evm, mem)
         | Inr gas \<Rightarrow>
            let (gas, overflow) = SafeAdd gas GasFastestStep
            in if overflow then Some (Inl errGasUintOverflow, evm, mem)
            else
            Some (Inr gas, evm, mem))"

definition gasCreate :: gasFunc where
  "gasCreate cr gt evm contract stack mem memorySize =
     (let (r, mem) = memoryGasCost mem memorySize
      in case r of
           Inl err \<Rightarrow> Some (Inl err, evm, mem)
         | Inr gas \<Rightarrow>
            let (gas, overflow) = SafeAdd gas CreateGas
            in if overflow then Some (Inl errGasUintOverflow, evm, mem)
            else
            Some (Inr gas, evm, mem))"

definition gasCreate2 :: gasFunc where
  "gasCreate2 cr gt evm contract stack mem memorySize =
     (let (r, mem) = memoryGasCost mem memorySize
      in case r of
           Inl err \<Rightarrow> Some (Inl err, evm, mem)
         | Inr gas \<Rightarrow>
            let (gas, overflow) = SafeAdd gas Create2Gas
            in if overflow then Some (Inl errGasUintOverflow, evm, mem)
            else
            do {
              b \<leftarrow> Back stack 2;
              let (wordGas, overflow) = bigUint64 b;
              if overflow then Some (Inl errGasUintOverflow, evm, mem)
              else
              let (wordGas, overflow) = SafeMul (toWordSize wordGas) Sha3WordGas
              in if overflow then Some (Inl errGasUintOverflow, evm, mem)
              else
              let (gas, overflow) = SafeAdd gas wordGas
              in if overflow then Some (Inl errGasUintOverflow, evm, mem)
              else Some (Inr gas, evm, mem)
            })"

definition gasBalance :: gasFunc where
  "gasBalance cr gt evm contract stack mem memorySize =
     Some (Inr (gt_Balance gt), evm, mem)"

definition gasExtCodeSize :: gasFunc where
  "gasExtCodeSize cr gt evm contract stack mem memorySize =
     Some (Inr (gt_ExtcodeSize gt), evm, mem)"

definition gasSLoad :: gasFunc where
  "gasSLoad cr gt evm contract stack mem memorySize =
     Some (Inr (gt_SLoad gt), evm, mem)"

definition gasExp :: gasFunc where
  "gasExp cr gt evm contract stack mem memorySize =
     do {
       e \<leftarrow> (if Stack_len stack \<ge> 2 then Some (data stack ! (Stack_len stack - 2)) else None);
       let expByteLen = word_of_nat ((BitLen e + 7) div 8);
       let gas = expByteLen * gt_ExpByte gt;
       let (gas, overflow) = SafeAdd gas ExpGas;
       if overflow then Some (Inl errGasUintOverflow, evm, mem) else Some (Inr gas, evm, mem)
     }"

text \<open>
  The end of the gas functions of the calls: the gas for the callee, which is remembered in
  \<open>callGasTemp\<close>, on top of the cost \<open>gas\<close> of the call itself. On an error of \<^verbatim>\<open>callGas\<close> the code has
  stored the gas 0 that comes with it.
\<close>

definition gasCallee ::
  "GasTable \<Rightarrow> EVM \<Rightarrow> Contract \<Rightarrow> Stack \<Rightarrow> Memory \<Rightarrow> u64 \<Rightarrow> ((vmError + u64) \<times> EVM \<times> Memory) option" where
  "gasCallee gt evm contract stack mem gas =
     do {
       cost \<leftarrow> Back stack 0;
       case callGas gt (Gas contract) gas cost of
         Inl err \<Rightarrow> Some (Inl err, evm\<lparr>callGasTemp := 0\<rparr>, mem)
       | Inr temp \<Rightarrow>
           let evm = evm\<lparr>callGasTemp := temp\<rparr>;
               (gas, overflow) = SafeAdd gas (callGasTemp evm)
           in if overflow then Some (Inl errGasUintOverflow, evm, mem) else Some (Inr gas, evm, mem)
     }"

text \<open>The surcharge of \<^verbatim>\<open>gasCall\<close> for a new account.\<close>

definition new_account_cost :: "crypto \<Rightarrow> EVM \<Rightarrow> bool \<Rightarrow> Address \<Rightarrow> u64 \<Rightarrow> u64 \<times> EVM" where
  "new_account_cost cr evm transfersValue address gas =
     (let eip158 = IsEIP158 (chainConfig evm) (Some (BlockNumber (ctx evm)))
      in if eip158
         then if transfersValue
              then (let (e, s) = Empty cr (sdb evm) address
                    in (if e then gas + CallNewAccountGas else gas, evm\<lparr>sdb := s\<rparr>))
              else (gas, evm)
         else (let (ex, s) = Exist cr (sdb evm) address
               in (if \<not> ex then gas + CallNewAccountGas else gas, evm\<lparr>sdb := s\<rparr>)))"

definition gasCall :: gasFunc where
  "gasCall cr gt evm contract stack mem memorySize =
     do {
       v \<leftarrow> Back stack 2;
       let transfersValue = (v \<noteq> 0);
       a \<leftarrow> Back stack 1;
       let (gas, evm) = new_account_cost cr evm transfersValue (BigToAddress a) (gt_Calls gt);
       let gas = (if transfersValue then gas + CallValueTransferGas else gas);
       let (r, mem) = memoryGasCost mem memorySize;
       case r of
         Inl err \<Rightarrow> Some (Inl err, evm, mem)
       | Inr memoryGas \<Rightarrow>
           let (gas, overflow) = SafeAdd gas memoryGas
           in if overflow then Some (Inl errGasUintOverflow, evm, mem)
              else gasCallee gt evm contract stack mem gas
     }"

definition gasCallCode :: gasFunc where
  "gasCallCode cr gt evm contract stack mem memorySize =
     do {
       let gas = gt_Calls gt;
       v \<leftarrow> Back stack 2;
       let gas = (if v \<noteq> 0 then gas + CallValueTransferGas else gas);
       let (r, mem) = memoryGasCost mem memorySize;
       case r of
         Inl err \<Rightarrow> Some (Inl err, evm, mem)
       | Inr memoryGas \<Rightarrow>
           let (gas, overflow) = SafeAdd gas memoryGas
           in if overflow then Some (Inl errGasUintOverflow, evm, mem)
              else gasCallee gt evm contract stack mem gas
     }"

definition gasReturn :: gasFunc where
  "gasReturn cr gt evm contract stack mem memorySize =
     (let (r, mem) = memoryGasCost mem memorySize in Some (r, evm, mem))"

definition gasRevert :: gasFunc where
  "gasRevert cr gt evm contract stack mem memorySize =
     (let (r, mem) = memoryGasCost mem memorySize in Some (r, evm, mem))"

text \<open>The part of \<^verbatim>\<open>gasSuicide\<close> under EIP 150.\<close>

definition gasSuicide_eip150 ::
  "crypto \<Rightarrow> GasTable \<Rightarrow> EVM \<Rightarrow> Contract \<Rightarrow> Stack \<Rightarrow> (u64 \<times> EVM) option" where
  "gasSuicide_eip150 cr gt evm contract stack =
     do {
       let gas = gt_Suicide gt;
       a \<leftarrow> Back stack 0;
       let address = BigToAddress a;
       let eip158 = IsEIP158 (chainConfig evm) (Some (BlockNumber (ctx evm)));
       if eip158
       then (let (e, s) = Empty cr (sdb evm) address
             in if e
                then (let (b, s) = GetBalance cr s (Contract_Address contract)
                      in Some (if b \<noteq> 0 then gas + gt_CreateBySuicide gt else gas, evm\<lparr>sdb := s\<rparr>))
                else Some (gas, evm\<lparr>sdb := s\<rparr>))
       else (let (ex, s) = Exist cr (sdb evm) address
             in Some (if \<not> ex then gas + gt_CreateBySuicide gt else gas, evm\<lparr>sdb := s\<rparr>))
     }"

definition gasSuicide :: gasFunc where
  "gasSuicide cr gt evm contract stack mem memorySize =
     do {
       (gas, evm) \<leftarrow>
         (if IsEIP150 (chainConfig evm) (Some (BlockNumber (ctx evm)))
          then gasSuicide_eip150 cr gt evm contract stack
          else Some (0, evm));
       let (sui, s) = HasSuicided cr (sdb evm) (Contract_Address contract);
       let s = (if \<not> sui then AddRefund s SuicideRefundGas else s);
       Some (Inr gas, evm\<lparr>sdb := s\<rparr>, mem)
     }"

definition gasDelegateCall :: gasFunc where
  "gasDelegateCall cr gt evm contract stack mem memorySize =
     (let (r, mem) = memoryGasCost mem memorySize
      in case r of
           Inl err \<Rightarrow> Some (Inl err, evm, mem)
         | Inr gas \<Rightarrow>
             let (gas, overflow) = SafeAdd gas (gt_Calls gt)
             in if overflow then Some (Inl errGasUintOverflow, evm, mem)
                else gasCallee gt evm contract stack mem gas)"

definition gasStaticCall :: gasFunc where
  "gasStaticCall cr gt evm contract stack mem memorySize =
     (let (r, mem) = memoryGasCost mem memorySize
      in case r of
           Inl err \<Rightarrow> Some (Inl err, evm, mem)
         | Inr gas \<Rightarrow>
             let (gas, overflow) = SafeAdd gas (gt_Calls gt)
             in if overflow then Some (Inl errGasUintOverflow, evm, mem)
                else gasCallee gt evm contract stack mem gas)"

end
