(* ===== verification/Instructions.thy ===== *)
theory Instructions
  imports Gas_Table
begin

text \<open>
  \<^verbatim>\<open>instructions.go\<close>: the execution functions of the instructions. They take the stack, the memory, the
  contract and the machine of a frame and return the changed frame with return data and an error;
  \<open>None\<close> is a panic. The integers of the stack are values, so handing an operand back to the integer pool has no
  effect here.
\<close>

section \<open>Arithmetic\<close>

text \<open>Euclidean division and modulus of \<^verbatim>\<open>math/big\<close>, for a divisor other than 0.\<close>

definition big_Div :: "int \<Rightarrow> int \<Rightarrow> int" where
  "big_Div x y = (if y > 0 then x div y else - (x div (- y)))"

definition big_Mod :: "int \<Rightarrow> int \<Rightarrow> int" where
  "big_Mod x y = x mod \<bar>y\<bar>"

definition opAdd :: executionFunc where
  "opAdd h f = do {
     (x, st) \<leftarrow> pop (f_stack f);
     y \<leftarrow> peek st;
     st \<leftarrow> set_peek st (U256 (x + y));
     ret_nil (f\<lparr>f_stack := st\<rparr>)
   }"

definition opSub :: executionFunc where
  "opSub h f = do {
     (x, st) \<leftarrow> pop (f_stack f);
     y \<leftarrow> peek st;
     st \<leftarrow> set_peek st (U256 (x - y));
     ret_nil (f\<lparr>f_stack := st\<rparr>)
   }"

definition opMul :: executionFunc where
  "opMul h f = do {
     (x, st) \<leftarrow> pop (f_stack f);
     (y, st) \<leftarrow> pop st;
     ret_nil (f\<lparr>f_stack := push st (U256 (x * y))\<rparr>)
   }"

definition opDiv :: executionFunc where
  "opDiv h f = do {
     (x, st) \<leftarrow> pop (f_stack f);
     y \<leftarrow> peek st;
     st \<leftarrow> set_peek st (if y \<noteq> 0 then U256 (big_Div x y) else 0);
     ret_nil (f\<lparr>f_stack := st\<rparr>)
   }"

definition opSdiv :: executionFunc where
  "opSdiv h f = do {
     (x, st) \<leftarrow> pop (f_stack f);
     (y, st) \<leftarrow> pop st;
     let x = S256 x;
     let y = S256 y;
     if y = 0 \<or> x = 0 then ret_nil (f\<lparr>f_stack := push st 0\<rparr>)
     else
       let res = (if sgn x \<noteq> sgn y then - big_Div \<bar>x\<bar> \<bar>y\<bar> else big_Div \<bar>x\<bar> \<bar>y\<bar>)
       in ret_nil (f\<lparr>f_stack := push st (U256 res)\<rparr>)
   }"

definition opMod :: executionFunc where
  "opMod h f = do {
     (x, st) \<leftarrow> pop (f_stack f);
     (y, st) \<leftarrow> pop st;
     if y = 0 then ret_nil (f\<lparr>f_stack := push st 0\<rparr>)
     else ret_nil (f\<lparr>f_stack := push st (U256 (big_Mod x y))\<rparr>)
   }"

definition opSmod :: executionFunc where
  "opSmod h f = do {
     (x, st) \<leftarrow> pop (f_stack f);
     (y, st) \<leftarrow> pop st;
     let x = S256 x;
     let y = S256 y;
     if y = 0 then ret_nil (f\<lparr>f_stack := push st 0\<rparr>)
     else
       let res = (if x < 0 then - big_Mod \<bar>x\<bar> \<bar>y\<bar> else big_Mod \<bar>x\<bar> \<bar>y\<bar>)
       in ret_nil (f\<lparr>f_stack := push st (U256 res)\<rparr>)
   }"

definition opExp :: executionFunc where
  "opExp h f = do {
     (base, st) \<leftarrow> pop (f_stack f);
     (exponent, st) \<leftarrow> pop st;
     if exponent < 1 then ret_nil (f\<lparr>f_stack := push st 1\<rparr>)
     else if base = 0 then ret_nil (f\<lparr>f_stack := push st 0\<rparr>)
     else if exponent = 1 then ret_nil (f\<lparr>f_stack := push st base\<rparr>)
     else ret_nil (f\<lparr>f_stack := push st (fst (Exp base exponent))\<rparr>)
   }"

definition opSignExtend :: executionFunc where
  "opSignExtend h f = do {
     (back, st) \<leftarrow> pop (f_stack f);
     if back < 31
     then do {
       let bit1 = Uint64 back * 8 + 7;
       (num, st) \<leftarrow> pop st;
       let mask = push_bit (unat bit1) 1 - 1;
       let num = (if bit num (unat bit1) then num OR NOT mask else num AND mask);
       ret_nil (f\<lparr>f_stack := push st (U256 num)\<rparr>)
     }
     else ret_nil (f\<lparr>f_stack := st\<rparr>)
   }"

section \<open>Comparison and bitwise logic\<close>

definition opNot :: executionFunc where
  "opNot h f = do {
     x \<leftarrow> peek (f_stack f);
     st \<leftarrow> set_peek (f_stack f) (U256 (NOT x));
     ret_nil (f\<lparr>f_stack := st\<rparr>)
   }"

definition opLt :: executionFunc where
  "opLt h f = do {
     (x, st) \<leftarrow> pop (f_stack f);
     y \<leftarrow> peek st;
     st \<leftarrow> set_peek st (if x < y then 1 else 0);
     ret_nil (f\<lparr>f_stack := st\<rparr>)
   }"

definition opGt :: executionFunc where
  "opGt h f = do {
     (x, st) \<leftarrow> pop (f_stack f);
     y \<leftarrow> peek st;
     st \<leftarrow> set_peek st (if x > y then 1 else 0);
     ret_nil (f\<lparr>f_stack := st\<rparr>)
   }"

definition opSlt :: executionFunc where
  "opSlt h f = do {
     (x, st) \<leftarrow> pop (f_stack f);
     y \<leftarrow> peek st;
     st \<leftarrow> set_peek st
       (if x \<ge> tt255 \<and> y < tt255 then 1
        else if x < tt255 \<and> y \<ge> tt255 then 0
        else if x < y then 1 else 0);
     ret_nil (f\<lparr>f_stack := st\<rparr>)
   }"

definition opSgt :: executionFunc where
  "opSgt h f = do {
     (x, st) \<leftarrow> pop (f_stack f);
     y \<leftarrow> peek st;
     st \<leftarrow> set_peek st
       (if x \<ge> tt255 \<and> y < tt255 then 0
        else if x < tt255 \<and> y \<ge> tt255 then 1
        else if x > y then 1 else 0);
     ret_nil (f\<lparr>f_stack := st\<rparr>)
   }"

definition opEq :: executionFunc where
  "opEq h f = do {
     (x, st) \<leftarrow> pop (f_stack f);
     y \<leftarrow> peek st;
     st \<leftarrow> set_peek st (if x = y then 1 else 0);
     ret_nil (f\<lparr>f_stack := st\<rparr>)
   }"

definition opIszero :: executionFunc where
  "opIszero h f = do {
     x \<leftarrow> peek (f_stack f);
     st \<leftarrow> set_peek (f_stack f) (if x > 0 then 0 else 1);
     ret_nil (f\<lparr>f_stack := st\<rparr>)
   }"

definition opAnd :: executionFunc where
  "opAnd h f = do {
     (x, st) \<leftarrow> pop (f_stack f);
     (y, st) \<leftarrow> pop st;
     ret_nil (f\<lparr>f_stack := push st (x AND y)\<rparr>)
   }"

definition opOr :: executionFunc where
  "opOr h f = do {
     (x, st) \<leftarrow> pop (f_stack f);
     y \<leftarrow> peek st;
     st \<leftarrow> set_peek st (x OR y);
     ret_nil (f\<lparr>f_stack := st\<rparr>)
   }"

definition opXor :: executionFunc where
  "opXor h f = do {
     (x, st) \<leftarrow> pop (f_stack f);
     y \<leftarrow> peek st;
     st \<leftarrow> set_peek st (x XOR y);
     ret_nil (f\<lparr>f_stack := st\<rparr>)
   }"

definition opByte :: executionFunc where
  "opByte h f = do {
     (th, st) \<leftarrow> pop (f_stack f);
     v \<leftarrow> peek st;
     st \<leftarrow> set_peek st (if th < 32 then uint (Byte v 32 (nat (Int64 th))) else 0);
     ret_nil (f\<lparr>f_stack := st\<rparr>)
   }"

definition opAddmod :: executionFunc where
  "opAddmod h f = do {
     (x, st) \<leftarrow> pop (f_stack f);
     (y, st) \<leftarrow> pop st;
     (z, st) \<leftarrow> pop st;
     if z > 0 then ret_nil (f\<lparr>f_stack := push st (U256 (big_Mod (x + y) z))\<rparr>)
     else ret_nil (f\<lparr>f_stack := push st 0\<rparr>)
   }"

definition opMulmod :: executionFunc where
  "opMulmod h f = do {
     (x, st) \<leftarrow> pop (f_stack f);
     (y, st) \<leftarrow> pop st;
     (z, st) \<leftarrow> pop st;
     if z > 0 then ret_nil (f\<lparr>f_stack := push st (U256 (big_Mod (x * y) z))\<rparr>)
     else ret_nil (f\<lparr>f_stack := push st 0\<rparr>)
   }"

definition opSHL :: executionFunc where
  "opSHL h f = do {
     (s, st) \<leftarrow> pop (f_stack f);
     let shift = U256 s;
     v \<leftarrow> peek st;
     let v = U256 v;
     st \<leftarrow> set_peek st (if shift \<ge> 256 then 0 else U256 (push_bit (unat (Uint64 shift)) v));
     ret_nil (f\<lparr>f_stack := st\<rparr>)
   }"

definition opSHR :: executionFunc where
  "opSHR h f = do {
     (s, st) \<leftarrow> pop (f_stack f);
     let shift = U256 s;
     v \<leftarrow> peek st;
     let v = U256 v;
     st \<leftarrow> set_peek st (if shift \<ge> 256 then 0 else U256 (drop_bit (unat (Uint64 shift)) v));
     ret_nil (f\<lparr>f_stack := st\<rparr>)
   }"

definition opSAR :: executionFunc where
  "opSAR h f = do {
     (s, st) \<leftarrow> pop (f_stack f);
     let shift = U256 s;
     (v, st) \<leftarrow> pop st;
     let v = S256 v;
     if shift \<ge> 256
     then ret_nil (f\<lparr>f_stack := push st (U256 (if v \<ge> 0 then 0 else - 1))\<rparr>)
     else ret_nil (f\<lparr>f_stack := push st (U256 (drop_bit (unat (Uint64 shift)) v))\<rparr>)
   }"

section \<open>Hashing, environment and block information\<close>

definition opSha3 :: executionFunc where
  "opSha3 h f = do {
     (offset, st) \<leftarrow> pop (f_stack f);
     (size1, st) \<leftarrow> pop st;
     dat \<leftarrow> Memory_Get (f_memory f) (Int64 offset) (Int64 size1);
     let hasherBuf = Keccak256Hash (h_crypto h) [dat];
     let evm = f_evm f;
     let evm = (if EnablePreimageRecording (vmConfig evm)
                then evm\<lparr>sdb := AddPreimage (sdb evm) hasherBuf dat\<rparr> else evm);
     ret_nil (f\<lparr>f_evm := evm, f_stack := push st (SetBytes hasherBuf)\<rparr>)
   }"

definition opAddress :: executionFunc where
  "opAddress h f = ret_nil (f\<lparr>f_stack := push (f_stack f) (SetBytes (Contract_Address (f_contract f)))\<rparr>)"

definition opBalance :: executionFunc where
  "opBalance h f = do {
     slot \<leftarrow> peek (f_stack f);
     let (b, s) = GetBalance (h_crypto h) (sdb (f_evm f)) (BigToAddress slot);
     st \<leftarrow> set_peek (f_stack f) b;
     ret_nil (f\<lparr>f_evm := (f_evm f)\<lparr>sdb := s\<rparr>, f_stack := st\<rparr>)
   }"

definition opOrigin :: executionFunc where
  "opOrigin h f = ret_nil (f\<lparr>f_stack := push (f_stack f) (SetBytes (Origin (ctx (f_evm f))))\<rparr>)"

definition opCaller :: executionFunc where
  "opCaller h f = ret_nil (f\<lparr>f_stack := push (f_stack f) (SetBytes (Contract_Caller (f_contract f)))\<rparr>)"

definition opCallValue :: executionFunc where
  "opCallValue h f = do {
     v \<leftarrow> val (f_contract f);
     ret_nil (f\<lparr>f_stack := push (f_stack f) v\<rparr>)
   }"

definition opCallDataLoad :: executionFunc where
  "opCallDataLoad h f = do {
     (x, st) \<leftarrow> pop (f_stack f);
     d \<leftarrow> getDataBig (Input (f_contract f)) x 32;
     ret_nil (f\<lparr>f_stack := push st (SetBytes d)\<rparr>)
   }"

definition opCallDataSize :: executionFunc where
  "opCallDataSize h f = ret_nil (f\<lparr>f_stack := push (f_stack f) (int (length (Input (f_contract f))))\<rparr>)"

definition opCallDataCopy :: executionFunc where
  "opCallDataCopy h f = do {
     (memOffset, st) \<leftarrow> pop (f_stack f);
     (dataOffset, st) \<leftarrow> pop st;
     (length1, st) \<leftarrow> pop st;
     d \<leftarrow> getDataBig (Input (f_contract f)) dataOffset length1;
     mem \<leftarrow> Memory_Set (f_memory f) (Uint64 memOffset) (Uint64 length1) d;
     ret_nil (f\<lparr>f_memory := mem, f_stack := st\<rparr>)
   }"

definition opReturnDataSize :: executionFunc where
  "opReturnDataSize h f =
     ret_nil (f\<lparr>f_stack := push (f_stack f) (uint (word_of_nat (length (returnData (f_evm f))) :: u64))\<rparr>)"

definition opReturnDataCopy :: executionFunc where
  "opReturnDataCopy h f = do {
     (memOffset, st) \<leftarrow> pop (f_stack f);
     (dataOffset, st) \<leftarrow> pop st;
     (length1, st) \<leftarrow> pop st;
     let end1 = dataOffset + length1;
     if \<not> IsUint64 end1 \<or> word_of_nat (length (returnData (f_evm f))) < Uint64 end1
     then Some (Done ([], Some errReturnDataOutOfBounds, f\<lparr>f_stack := st\<rparr>))
     else do {
       d \<leftarrow> go_slice (returnData (f_evm f)) (unat (Uint64 dataOffset)) (unat (Uint64 end1));
       mem \<leftarrow> Memory_Set (f_memory f) (Uint64 memOffset) (Uint64 length1) d;
       ret_nil (f\<lparr>f_memory := mem, f_stack := st\<rparr>)
     }
   }"

definition opExtCodeSize :: executionFunc where
  "opExtCodeSize h f = do {
     slot \<leftarrow> peek (f_stack f);
     let (n, s) = GetCodeSize (h_crypto h) (sdb (f_evm f)) (BigToAddress slot);
     st \<leftarrow> set_peek (f_stack f) (uint (word_of_nat n :: u64));
     ret_nil (f\<lparr>f_evm := (f_evm f)\<lparr>sdb := s\<rparr>, f_stack := st\<rparr>)
   }"

definition opCodeSize :: executionFunc where
  "opCodeSize h f = ret_nil (f\<lparr>f_stack := push (f_stack f) (int (length (Code (f_contract f))))\<rparr>)"

definition opCodeCopy :: executionFunc where
  "opCodeCopy h f = do {
     (memOffset, st) \<leftarrow> pop (f_stack f);
     (codeOffset, st) \<leftarrow> pop st;
     (length1, st) \<leftarrow> pop st;
     codeCopy \<leftarrow> getDataBig (Code (f_contract f)) codeOffset length1;
     mem \<leftarrow> Memory_Set (f_memory f) (Uint64 memOffset) (Uint64 length1) codeCopy;
     ret_nil (f\<lparr>f_memory := mem, f_stack := st\<rparr>)
   }"

definition opExtCodeCopy :: executionFunc where
  "opExtCodeCopy h f = do {
     (a, st) \<leftarrow> pop (f_stack f);
     (memOffset, st) \<leftarrow> pop st;
     (codeOffset, st) \<leftarrow> pop st;
     (length1, st) \<leftarrow> pop st;
     let (code, s) = GetCode (h_crypto h) (sdb (f_evm f)) (BigToAddress a);
     codeCopy \<leftarrow> getDataBig code codeOffset length1;
     mem \<leftarrow> Memory_Set (f_memory f) (Uint64 memOffset) (Uint64 length1) codeCopy;
     ret_nil (f\<lparr>f_evm := (f_evm f)\<lparr>sdb := s\<rparr>, f_memory := mem, f_stack := st\<rparr>)
   }"

definition opExtCodeHash :: executionFunc where
  "opExtCodeHash h f = do {
     slot \<leftarrow> peek (f_stack f);
     let address = BigToAddress slot;
     let (e, s) = Empty (h_crypto h) (sdb (f_evm f)) address;
     if e then do {
       st \<leftarrow> set_peek (f_stack f) 0;
       ret_nil (f\<lparr>f_evm := (f_evm f)\<lparr>sdb := s\<rparr>, f_stack := st\<rparr>)
     }
     else do {
       let (hash, s) = GetCodeHash (h_crypto h) s address;
       st \<leftarrow> set_peek (f_stack f) (SetBytes hash);
       ret_nil (f\<lparr>f_evm := (f_evm f)\<lparr>sdb := s\<rparr>, f_stack := st\<rparr>)
     }
   }"

definition opGasprice :: executionFunc where
  "opGasprice h f = ret_nil (f\<lparr>f_stack := push (f_stack f) (GasPrice (ctx (f_evm f)))\<rparr>)"

definition opBlockhash :: executionFunc where
  "opBlockhash h f = do {
     (num, st) \<leftarrow> pop (f_stack f);
     let n = BlockNumber (ctx (f_evm f)) - 257;
     if num > n \<and> num < BlockNumber (ctx (f_evm f))
     then do {
       getHash \<leftarrow> GetHash (ctx (f_evm f));
       ret_nil (f\<lparr>f_stack := push st (Hash_Big (getHash (Uint64 num)))\<rparr>)
     }
     else ret_nil (f\<lparr>f_stack := push st 0\<rparr>)
   }"

definition opCoinbase :: executionFunc where
  "opCoinbase h f = ret_nil (f\<lparr>f_stack := push (f_stack f) (SetBytes (Coinbase (ctx (f_evm f))))\<rparr>)"

definition opTimestamp :: executionFunc where
  "opTimestamp h f = ret_nil (f\<lparr>f_stack := push (f_stack f) (U256 (Time (ctx (f_evm f))))\<rparr>)"

definition opNumber :: executionFunc where
  "opNumber h f = ret_nil (f\<lparr>f_stack := push (f_stack f) (U256 (BlockNumber (ctx (f_evm f))))\<rparr>)"

definition opDifficulty :: executionFunc where
  "opDifficulty h f = ret_nil (f\<lparr>f_stack := push (f_stack f) (U256 (Difficulty (ctx (f_evm f))))\<rparr>)"

definition opGasLimit :: executionFunc where
  "opGasLimit h f = ret_nil (f\<lparr>f_stack := push (f_stack f) (U256 (uint (GasLimit (ctx (f_evm f)))))\<rparr>)"

section \<open>Stack, memory, storage and flow\<close>

definition opPop :: executionFunc where
  "opPop h f = do {
     (x, st) \<leftarrow> pop (f_stack f);
     ret_nil (f\<lparr>f_stack := st\<rparr>)
   }"

definition opMload :: executionFunc where
  "opMload h f = do {
     (offset, st) \<leftarrow> pop (f_stack f);
     d \<leftarrow> Memory_Get (f_memory f) (Int64 offset) 32;
     ret_nil (f\<lparr>f_stack := push st (SetBytes d)\<rparr>)
   }"

definition opMstore :: executionFunc where
  "opMstore h f = do {
     (mStart, st) \<leftarrow> pop (f_stack f);
     (v, st) \<leftarrow> pop st;
     mem \<leftarrow> Set32 (f_memory f) (Uint64 mStart) v;
     ret_nil (f\<lparr>f_memory := mem, f_stack := st\<rparr>)
   }"

definition opMstore8 :: executionFunc where
  "opMstore8 h f = do {
     (x, st) \<leftarrow> pop (f_stack f);
     let off = Int64 x;
     (y, st) \<leftarrow> pop st;
     let v = Int64 y;
     let mem = f_memory f;
     if 0 \<le> off \<and> off < int (length (store mem))
     then ret_nil (f\<lparr>f_memory := mem\<lparr>store := (store mem)[nat off := word_of_int (v AND 0xff)]\<rparr>, f_stack := st\<rparr>)
     else None
   }"

definition opSload :: executionFunc where
  "opSload h f = do {
     loc \<leftarrow> peek (f_stack f);
     let (v, s) = GetState (h_crypto h) (sdb (f_evm f)) (Contract_Address (f_contract f)) (BigToHash loc);
     st \<leftarrow> set_peek (f_stack f) (SetBytes v);
     ret_nil (f\<lparr>f_evm := (f_evm f)\<lparr>sdb := s\<rparr>, f_stack := st\<rparr>)
   }"

definition opSstore :: executionFunc where
  "opSstore h f = do {
     (x, st) \<leftarrow> pop (f_stack f);
     let loc = BigToHash x;
     (v, st) \<leftarrow> pop st;
     let s = SetState (h_crypto h) (sdb (f_evm f)) (Contract_Address (f_contract f)) loc (BigToHash v);
     ret_nil (f\<lparr>f_evm := (f_evm f)\<lparr>sdb := s\<rparr>, f_stack := st\<rparr>)
   }"

text \<open>\<^verbatim>\<open>validJumpdest\<close> of the contract of a frame, with the shared map.\<close>

definition f_validJumpdest :: "Frame \<Rightarrow> int \<Rightarrow> (bool \<times> Frame) option" where
  "f_validJumpdest f pos = do {
     (ok, c, jd) \<leftarrow> validJumpdest (f_contract f) (jumpdests_of (f_evm f)) pos;
     Some (ok, f\<lparr>f_contract := c, f_evm := (f_evm f)\<lparr>jumpdests_of := jd\<rparr>\<rparr>)
   }"

definition opJump :: executionFunc where
  "opJump h f = do {
     (pos, st) \<leftarrow> pop (f_stack f);
     (ok, f) \<leftarrow> f_validJumpdest f pos;
     if \<not> ok then Some (Done ([], Some errInvalidJump, f\<lparr>f_stack := st\<rparr>))
     else ret_nil (f\<lparr>f_pc := Uint64 pos, f_stack := st\<rparr>)
   }"

definition opJumpi :: executionFunc where
  "opJumpi h f = do {
     (pos, st) \<leftarrow> pop (f_stack f);
     (cond1, st) \<leftarrow> pop st;
     if cond1 \<noteq> 0
     then do {
       (ok, f) \<leftarrow> f_validJumpdest f pos;
       if \<not> ok then Some (Done ([], Some errInvalidJump, f\<lparr>f_stack := st\<rparr>))
       else ret_nil (f\<lparr>f_pc := Uint64 pos, f_stack := st\<rparr>)
     }
     else ret_nil (f\<lparr>f_pc := f_pc f + 1, f_stack := st\<rparr>)
   }"

definition opJumpdest :: executionFunc where
  "opJumpdest h f = ret_nil f"

definition opPc :: executionFunc where
  "opPc h f = ret_nil (f\<lparr>f_stack := push (f_stack f) (uint (f_pc f))\<rparr>)"

definition opMsize :: executionFunc where
  "opMsize h f = ret_nil (f\<lparr>f_stack := push (f_stack f) (int (Memory_Len (f_memory f)))\<rparr>)"

definition opGas :: executionFunc where
  "opGas h f = ret_nil (f\<lparr>f_stack := push (f_stack f) (uint (Gas (f_contract f)))\<rparr>)"

section \<open>Creating and calling\<close>

definition opCreate :: executionFunc where
  "opCreate h f = do {
     (v, st) \<leftarrow> pop (f_stack f);
     (offset, st) \<leftarrow> pop st;
     (size1, st) \<leftarrow> pop st;
     input \<leftarrow> Memory_Get (f_memory f) (Int64 offset) (Int64 size1);
     let evm = f_evm f;
     let gas = Gas (f_contract f);
     let gas = (if IsEIP150 (chainConfig evm) (Some (BlockNumber (ctx evm))) then gas - gas div 64 else gas);
     let (_, contract) = UseGas (f_contract f) gas;
     and_then (h_Create h evm (contract_ref contract) input gas v) (\<lambda>(res, addr, returnGas, suberr, evm).
       let item = (if IsHomestead (chainConfig evm) (Some (BlockNumber (ctx evm))) \<and> suberr = Some ErrCodeStoreOutOfGas
                   then 0
                   else if suberr \<noteq> None \<and> suberr \<noteq> Some ErrCodeStoreOutOfGas then 0
                   else SetBytes addr);
           contract = contract\<lparr>Gas := Gas contract + returnGas\<rparr>;
           f = f\<lparr>f_evm := evm, f_contract := contract, f_stack := push st item\<rparr>
       in if suberr = Some errExecutionReverted then Some (Done (res, None, f)) else ret_nil f)
   }"

definition opCreate2 :: executionFunc where
  "opCreate2 h f = do {
     (endowment, st) \<leftarrow> pop (f_stack f);
     (offset, st) \<leftarrow> pop st;
     (size1, st) \<leftarrow> pop st;
     (salt, st) \<leftarrow> pop st;
     input \<leftarrow> Memory_Get (f_memory f) (Int64 offset) (Int64 size1);
     let gas = Gas (f_contract f);
     let gas = gas - gas div 64;
     let (_, contract) = UseGas (f_contract f) gas;
     and_then (h_Create2 h (f_evm f) (contract_ref contract) input gas endowment salt)
       (\<lambda>(res, addr, returnGas, suberr, evm).
       let item = (if suberr \<noteq> None then 0 else SetBytes addr);
           contract = contract\<lparr>Gas := Gas contract + returnGas\<rparr>;
           f = f\<lparr>f_evm := evm, f_contract := contract, f_stack := push st item\<rparr>
       in if suberr = Some errExecutionReverted then Some (Done (res, None, f)) else ret_nil f)
   }"

text \<open>The common end of the four calls: push the outcome, copy the returned data, take back the gas.\<close>

definition finish_call ::
  "Frame \<Rightarrow> Stack \<Rightarrow> int \<Rightarrow> int \<Rightarrow> bytes \<times> u64 \<times> vmError option \<times> EVM \<Rightarrow> execResult" where
  "finish_call f st retOffset retSize = (\<lambda>(ret, returnGas, err, evm).
     do {
       let st = push st (if err \<noteq> None then 0 else 1);
       mem \<leftarrow> (if err = None \<or> err = Some errExecutionReverted
              then Memory_Set (f_memory f) (Uint64 retOffset) (Uint64 retSize) ret else Some (f_memory f));
       let contract = (f_contract f)\<lparr>Gas := Gas (f_contract f) + returnGas\<rparr>;
       Some (Done (ret, None, f\<lparr>f_evm := evm, f_contract := contract, f_memory := mem, f_stack := st\<rparr>))
     })"

definition opCall :: executionFunc where
  "opCall h f = do {
     (_, st) \<leftarrow> pop (f_stack f);
     let gas = callGasTemp (f_evm f);
     (addr, st) \<leftarrow> pop st;
     (v, st) \<leftarrow> pop st;
     (inOffset, st) \<leftarrow> pop st;
     (inSize, st) \<leftarrow> pop st;
     (retOffset, st) \<leftarrow> pop st;
     (retSize, st) \<leftarrow> pop st;
     let toAddr = BigToAddress addr;
     let v = U256 v;
     args \<leftarrow> Memory_Get (f_memory f) (Int64 inOffset) (Int64 inSize);
     let gas = (if v \<noteq> 0 then gas + CallStipend else gas);
     and_then (h_Call h (f_evm f) (contract_ref (f_contract f)) toAddr args gas v)
       (finish_call f st retOffset retSize)
   }"

definition opCallCode :: executionFunc where
  "opCallCode h f = do {
     (_, st) \<leftarrow> pop (f_stack f);
     let gas = callGasTemp (f_evm f);
     (addr, st) \<leftarrow> pop st;
     (v, st) \<leftarrow> pop st;
     (inOffset, st) \<leftarrow> pop st;
     (inSize, st) \<leftarrow> pop st;
     (retOffset, st) \<leftarrow> pop st;
     (retSize, st) \<leftarrow> pop st;
     let toAddr = BigToAddress addr;
     let v = U256 v;
     args \<leftarrow> Memory_Get (f_memory f) (Int64 inOffset) (Int64 inSize);
     let gas = (if v \<noteq> 0 then gas + CallStipend else gas);
     and_then (h_CallCode h (f_evm f) (contract_ref (f_contract f)) toAddr args gas v)
       (finish_call f st retOffset retSize)
   }"

definition opDelegateCall :: executionFunc where
  "opDelegateCall h f = do {
     (_, st) \<leftarrow> pop (f_stack f);
     let gas = callGasTemp (f_evm f);
     (addr, st) \<leftarrow> pop st;
     (inOffset, st) \<leftarrow> pop st;
     (inSize, st) \<leftarrow> pop st;
     (retOffset, st) \<leftarrow> pop st;
     (retSize, st) \<leftarrow> pop st;
     let toAddr = BigToAddress addr;
     args \<leftarrow> Memory_Get (f_memory f) (Int64 inOffset) (Int64 inSize);
     and_then (h_DelegateCall h (f_evm f) (contract_ref (f_contract f)) toAddr args gas)
       (finish_call f st retOffset retSize)
   }"

definition opStaticCall :: executionFunc where
  "opStaticCall h f = do {
     (_, st) \<leftarrow> pop (f_stack f);
     let gas = callGasTemp (f_evm f);
     (addr, st) \<leftarrow> pop st;
     (inOffset, st) \<leftarrow> pop st;
     (inSize, st) \<leftarrow> pop st;
     (retOffset, st) \<leftarrow> pop st;
     (retSize, st) \<leftarrow> pop st;
     let toAddr = BigToAddress addr;
     args \<leftarrow> Memory_Get (f_memory f) (Int64 inOffset) (Int64 inSize);
     and_then (h_StaticCall h (f_evm f) (contract_ref (f_contract f)) toAddr args gas)
       (finish_call f st retOffset retSize)
   }"

definition opReturn :: executionFunc where
  "opReturn h f = do {
     (offset, st) \<leftarrow> pop (f_stack f);
     (size1, st) \<leftarrow> pop st;
     ret \<leftarrow> GetPtr (f_memory f) (Int64 offset) (Int64 size1);
     Some (Done (ret, None, f\<lparr>f_stack := st\<rparr>))
   }"

definition opRevert :: executionFunc where
  "opRevert h f = do {
     (offset, st) \<leftarrow> pop (f_stack f);
     (size1, st) \<leftarrow> pop st;
     ret \<leftarrow> GetPtr (f_memory f) (Int64 offset) (Int64 size1);
     Some (Done (ret, None, f\<lparr>f_stack := st\<rparr>))
   }"

definition opStop :: executionFunc where
  "opStop h f = ret_nil f"

definition opSuicide :: executionFunc where
  "opSuicide h f = do {
     let cr = h_crypto h;
     let self1 = Contract_Address (f_contract f);
     let (balance, s) = GetBalance cr (sdb (f_evm f)) self1;
     (x, st) \<leftarrow> pop (f_stack f);
     let s = AddBalance cr s (BigToAddress x) balance;
     let (_, s) = Suicide cr s self1;
     ret_nil (f\<lparr>f_evm := (f_evm f)\<lparr>sdb := s\<rparr>, f_stack := st\<rparr>)
   }"

section \<open>Families of instructions\<close>

primrec pop_topics :: "nat \<Rightarrow> Stack \<Rightarrow> (Hash list \<times> Stack) option" where
  "pop_topics 0 st = Some ([], st)"
| "pop_topics (Suc n) st = do {
     (x, st) \<leftarrow> pop st;
     (topics, st) \<leftarrow> pop_topics n st;
     Some (BigToHash x # topics, st)
   }"

definition makeLog :: "nat \<Rightarrow> executionFunc" where
  "makeLog size1 h f = do {
     (mStart, st) \<leftarrow> pop (f_stack f);
     (mSize, st) \<leftarrow> pop st;
     (topics, st) \<leftarrow> pop_topics size1 st;
     d \<leftarrow> Memory_Get (f_memory f) (Int64 mStart) (Int64 mSize);
     let evm = f_evm f;
     let log = \<lparr>log_Address = Contract_Address (f_contract f), log_Topics = topics, log_Data = d,
                log_BlockNumber = Uint64 (BlockNumber (ctx evm)), log_TxHash = zeroHash, log_TxIndex = 0,
                log_BlockHash = zeroHash, log_Index = 0, log_Removed = False\<rparr>;
     ret_nil (f\<lparr>f_evm := evm\<lparr>sdb := AddLog (sdb evm) log\<rparr>, f_stack := st\<rparr>)
   }"

definition opPush1 :: executionFunc where
  "opPush1 h f =
     (let code = Code (f_contract f);
          codeLen = word_of_nat (length code);
          pc = f_pc f + 1
      in ret_nil (f\<lparr>f_pc := pc,
           f_stack := push (f_stack f) (if pc < codeLen then uint (code ! unat pc) else 0)\<rparr>))"

definition makePush :: "u64 \<Rightarrow> int \<Rightarrow> executionFunc" where
  "makePush size1 pushByteSize h f = do {
     let code = Code (f_contract f);
     let codeLen = int (length code);
     let startMin = (if sint (f_pc f + 1) < codeLen then sint (f_pc f + 1) else codeLen);
     let endMin = (if startMin + pushByteSize < codeLen then startMin + pushByteSize else codeLen);
     d \<leftarrow> (if 0 \<le> startMin \<and> 0 \<le> endMin then go_slice code (nat startMin) (nat endMin) else None);
     ret_nil (f\<lparr>f_pc := f_pc f + size1,
                f_stack := push (f_stack f) (SetBytes (RightPadBytes d pushByteSize))\<rparr>)
   }"

definition makeDup :: "nat \<Rightarrow> executionFunc" where
  "makeDup size1 h f = do {
     st \<leftarrow> dup (f_stack f) size1;
     ret_nil (f\<lparr>f_stack := st\<rparr>)
   }"

definition makeSwap :: "nat \<Rightarrow> executionFunc" where
  "makeSwap size1 h f = do {
     let size1 = size1 + 1;
     st \<leftarrow> swap (f_stack f) size1;
     ret_nil (f\<lparr>f_stack := st\<rparr>)
   }"

end
