(* ===== verification/Jump_Table.thy ===== *)
theory Jump_Table
  imports Instructions
begin

text \<open>
  \<^verbatim>\<open>jump_table.go\<close>: the four instruction sets. An array of 256 operations is a function from opcodes; an entry
  the source does not give is the zero value of \<^verbatim>\<open>operation\<close>, which is not valid. The composite literal of the
  Frontier set is split into consecutive parts.
\<close>

record operation =
  execute :: executionFunc
  constantGas :: u64
  dynamicGas :: "gasFunc option"
  op_minStack :: int
  op_maxStack :: int
  op_memorySize :: "memorySizeFunc option"
  halts :: bool
  jumps :: bool
  writes :: bool
  valid :: bool
  reverts :: bool
  returns :: bool

text \<open>The zero value; calling its nil function panics.\<close>

definition zero_op :: operation where
  "zero_op = \<lparr>execute = (\<lambda>_ _. None), constantGas = 0, dynamicGas = None, op_minStack = 0, op_maxStack = 0,
     op_memorySize = None, halts = False, jumps = False, writes = False, valid = False, reverts = False,
     returns = False\<rparr>"

definition frontier_part1 :: "(OpCode \<times> operation) list" where
  "frontier_part1 =
    [(STOP, zero_op\<lparr>execute := opStop, constantGas := 0, op_minStack := minStack 0 0,
         op_maxStack := maxStack 0 0, halts := True, valid := True\<rparr>),
     (ADD, zero_op\<lparr>execute := opAdd, constantGas := GasFastestStep, op_minStack := minStack 2 1,
         op_maxStack := maxStack 2 1, valid := True\<rparr>),
     (MUL, zero_op\<lparr>execute := opMul, constantGas := GasFastStep, op_minStack := minStack 2 1,
         op_maxStack := maxStack 2 1, valid := True\<rparr>),
     (SUB, zero_op\<lparr>execute := opSub, constantGas := GasFastestStep, op_minStack := minStack 2 1,
         op_maxStack := maxStack 2 1, valid := True\<rparr>),
     (DIV, zero_op\<lparr>execute := opDiv, constantGas := GasFastStep, op_minStack := minStack 2 1,
         op_maxStack := maxStack 2 1, valid := True\<rparr>),
     (SDIV, zero_op\<lparr>execute := opSdiv, constantGas := GasFastStep, op_minStack := minStack 2 1,
         op_maxStack := maxStack 2 1, valid := True\<rparr>),
     (MOD, zero_op\<lparr>execute := opMod, constantGas := GasFastStep, op_minStack := minStack 2 1,
         op_maxStack := maxStack 2 1, valid := True\<rparr>),
     (SMOD, zero_op\<lparr>execute := opSmod, constantGas := GasFastStep, op_minStack := minStack 2 1,
         op_maxStack := maxStack 2 1, valid := True\<rparr>),
     (ADDMOD, zero_op\<lparr>execute := opAddmod, constantGas := GasMidStep, op_minStack := minStack 3 1,
         op_maxStack := maxStack 3 1, valid := True\<rparr>),
     (MULMOD, zero_op\<lparr>execute := opMulmod, constantGas := GasMidStep, op_minStack := minStack 3 1,
         op_maxStack := maxStack 3 1, valid := True\<rparr>),
     (EXP, zero_op\<lparr>execute := opExp, dynamicGas := Some gasExp, op_minStack := minStack 2 1,
         op_maxStack := maxStack 2 1, valid := True\<rparr>),
     (SIGNEXTEND, zero_op\<lparr>execute := opSignExtend, constantGas := GasFastStep,
         op_minStack := minStack 2 1, op_maxStack := maxStack 2 1, valid := True\<rparr>),
     (LT, zero_op\<lparr>execute := opLt, constantGas := GasFastestStep, op_minStack := minStack 2 1,
         op_maxStack := maxStack 2 1, valid := True\<rparr>),
     (GT, zero_op\<lparr>execute := opGt, constantGas := GasFastestStep, op_minStack := minStack 2 1,
         op_maxStack := maxStack 2 1, valid := True\<rparr>),
     (SLT, zero_op\<lparr>execute := opSlt, constantGas := GasFastestStep, op_minStack := minStack 2 1,
         op_maxStack := maxStack 2 1, valid := True\<rparr>),
     (SGT, zero_op\<lparr>execute := opSgt, constantGas := GasFastestStep, op_minStack := minStack 2 1,
         op_maxStack := maxStack 2 1, valid := True\<rparr>),
     (EQ, zero_op\<lparr>execute := opEq, constantGas := GasFastestStep, op_minStack := minStack 2 1,
         op_maxStack := maxStack 2 1, valid := True\<rparr>),
     (ISZERO, zero_op\<lparr>execute := opIszero, constantGas := GasFastestStep,
         op_minStack := minStack 1 1, op_maxStack := maxStack 1 1, valid := True\<rparr>),
     (AND_op, zero_op\<lparr>execute := opAnd, constantGas := GasFastestStep,
         op_minStack := minStack 2 1, op_maxStack := maxStack 2 1, valid := True\<rparr>)]"

definition frontier_part2 :: "(OpCode \<times> operation) list" where
  "frontier_part2 =
    [(XOR_op, zero_op\<lparr>execute := opXor, constantGas := GasFastestStep,
         op_minStack := minStack 2 1, op_maxStack := maxStack 2 1, valid := True\<rparr>),
     (OR_op, zero_op\<lparr>execute := opOr, constantGas := GasFastestStep, op_minStack := minStack 2 1,
         op_maxStack := maxStack 2 1, valid := True\<rparr>),
     (NOT_op, zero_op\<lparr>execute := opNot, constantGas := GasFastestStep,
         op_minStack := minStack 1 1, op_maxStack := maxStack 1 1, valid := True\<rparr>),
     (BYTE, zero_op\<lparr>execute := opByte, constantGas := GasFastestStep, op_minStack := minStack 2 1,
         op_maxStack := maxStack 2 1, valid := True\<rparr>),
     (SHA3, zero_op\<lparr>execute := opSha3, dynamicGas := Some gasSha3, op_minStack := minStack 2 1,
         op_maxStack := maxStack 2 1, op_memorySize := Some memorySha3, valid := True\<rparr>),
     (ADDRESS, zero_op\<lparr>execute := opAddress, constantGas := GasQuickStep,
         op_minStack := minStack 0 1, op_maxStack := maxStack 0 1, valid := True\<rparr>),
     (BALANCE, zero_op\<lparr>execute := opBalance, dynamicGas := Some gasBalance,
         op_minStack := minStack 1 1, op_maxStack := maxStack 1 1, valid := True\<rparr>),
     (ORIGIN, zero_op\<lparr>execute := opOrigin, constantGas := GasQuickStep,
         op_minStack := minStack 0 1, op_maxStack := maxStack 0 1, valid := True\<rparr>),
     (CALLER, zero_op\<lparr>execute := opCaller, constantGas := GasQuickStep,
         op_minStack := minStack 0 1, op_maxStack := maxStack 0 1, valid := True\<rparr>),
     (CALLVALUE, zero_op\<lparr>execute := opCallValue, constantGas := GasQuickStep,
         op_minStack := minStack 0 1, op_maxStack := maxStack 0 1, valid := True\<rparr>),
     (CALLDATALOAD, zero_op\<lparr>execute := opCallDataLoad, constantGas := GasFastestStep,
         op_minStack := minStack 1 1, op_maxStack := maxStack 1 1, valid := True\<rparr>),
     (CALLDATASIZE, zero_op\<lparr>execute := opCallDataSize, constantGas := GasQuickStep,
         op_minStack := minStack 0 1, op_maxStack := maxStack 0 1, valid := True\<rparr>),
     (CALLDATACOPY, zero_op\<lparr>execute := opCallDataCopy, dynamicGas := Some gasCallDataCopy,
         op_minStack := minStack 3 0, op_maxStack := maxStack 3 0,
         op_memorySize := Some memoryCallDataCopy, valid := True\<rparr>),
     (CODESIZE, zero_op\<lparr>execute := opCodeSize, constantGas := GasQuickStep,
         op_minStack := minStack 0 1, op_maxStack := maxStack 0 1, valid := True\<rparr>),
     (CODECOPY, zero_op\<lparr>execute := opCodeCopy, dynamicGas := Some gasCodeCopy,
         op_minStack := minStack 3 0, op_maxStack := maxStack 3 0, op_memorySize := Some memoryCodeCopy,
         valid := True\<rparr>),
     (GASPRICE, zero_op\<lparr>execute := opGasprice, constantGas := GasQuickStep,
         op_minStack := minStack 0 1, op_maxStack := maxStack 0 1, valid := True\<rparr>),
     (EXTCODESIZE, zero_op\<lparr>execute := opExtCodeSize, dynamicGas := Some gasExtCodeSize,
         op_minStack := minStack 1 1, op_maxStack := maxStack 1 1, valid := True\<rparr>),
     (EXTCODECOPY, zero_op\<lparr>execute := opExtCodeCopy, dynamicGas := Some gasExtCodeCopy,
         op_minStack := minStack 4 0, op_maxStack := maxStack 4 0, op_memorySize := Some memoryExtCodeCopy,
         valid := True\<rparr>),
     (BLOCKHASH, zero_op\<lparr>execute := opBlockhash, constantGas := GasExtStep,
         op_minStack := minStack 1 1, op_maxStack := maxStack 1 1, valid := True\<rparr>)]"

definition frontier_part3 :: "(OpCode \<times> operation) list" where
  "frontier_part3 =
    [(COINBASE, zero_op\<lparr>execute := opCoinbase, constantGas := GasQuickStep,
         op_minStack := minStack 0 1, op_maxStack := maxStack 0 1, valid := True\<rparr>),
     (TIMESTAMP, zero_op\<lparr>execute := opTimestamp, constantGas := GasQuickStep,
         op_minStack := minStack 0 1, op_maxStack := maxStack 0 1, valid := True\<rparr>),
     (NUMBER, zero_op\<lparr>execute := opNumber, constantGas := GasQuickStep,
         op_minStack := minStack 0 1, op_maxStack := maxStack 0 1, valid := True\<rparr>),
     (DIFFICULTY, zero_op\<lparr>execute := opDifficulty, constantGas := GasQuickStep,
         op_minStack := minStack 0 1, op_maxStack := maxStack 0 1, valid := True\<rparr>),
     (GASLIMIT, zero_op\<lparr>execute := opGasLimit, constantGas := GasQuickStep,
         op_minStack := minStack 0 1, op_maxStack := maxStack 0 1, valid := True\<rparr>),
     (POP, zero_op\<lparr>execute := opPop, constantGas := GasQuickStep, op_minStack := minStack 1 0,
         op_maxStack := maxStack 1 0, valid := True\<rparr>),
     (MLOAD, zero_op\<lparr>execute := opMload, dynamicGas := Some gasMLoad, op_minStack := minStack 1 1,
         op_maxStack := maxStack 1 1, op_memorySize := Some memoryMLoad, valid := True\<rparr>),
     (MSTORE, zero_op\<lparr>execute := opMstore, dynamicGas := Some gasMStore,
         op_minStack := minStack 2 0, op_maxStack := maxStack 2 0, op_memorySize := Some memoryMStore,
         valid := True\<rparr>),
     (MSTORE8, zero_op\<lparr>execute := opMstore8, dynamicGas := Some gasMStore8,
         op_memorySize := Some memoryMStore8, op_minStack := minStack 2 0, op_maxStack := maxStack 2 0,
         valid := True\<rparr>),
     (SLOAD, zero_op\<lparr>execute := opSload, dynamicGas := Some gasSLoad, op_minStack := minStack 1 1,
         op_maxStack := maxStack 1 1, valid := True\<rparr>),
     (SSTORE, zero_op\<lparr>execute := opSstore, dynamicGas := Some gasSStore,
         op_minStack := minStack 2 0, op_maxStack := maxStack 2 0, valid := True, writes := True\<rparr>),
     (JUMP, zero_op\<lparr>execute := opJump, constantGas := GasMidStep, op_minStack := minStack 1 0,
         op_maxStack := maxStack 1 0, jumps := True, valid := True\<rparr>),
     (JUMPI, zero_op\<lparr>execute := opJumpi, constantGas := GasSlowStep, op_minStack := minStack 2 0,
         op_maxStack := maxStack 2 0, jumps := True, valid := True\<rparr>),
     (PC, zero_op\<lparr>execute := opPc, constantGas := GasQuickStep, op_minStack := minStack 0 1,
         op_maxStack := maxStack 0 1, valid := True\<rparr>),
     (MSIZE, zero_op\<lparr>execute := opMsize, constantGas := GasQuickStep, op_minStack := minStack 0 1,
         op_maxStack := maxStack 0 1, valid := True\<rparr>),
     (GAS, zero_op\<lparr>execute := opGas, constantGas := GasQuickStep, op_minStack := minStack 0 1,
         op_maxStack := maxStack 0 1, valid := True\<rparr>),
     (JUMPDEST, zero_op\<lparr>execute := opJumpdest, constantGas := JumpdestGas,
         op_minStack := minStack 0 0, op_maxStack := maxStack 0 0, valid := True\<rparr>),
     (PUSH1, zero_op\<lparr>execute := opPush1, constantGas := GasFastestStep,
         op_minStack := minStack 0 1, op_maxStack := maxStack 0 1, valid := True\<rparr>),
     (PUSH2, zero_op\<lparr>execute := makePush 2 2, constantGas := GasFastestStep,
         op_minStack := minStack 0 1, op_maxStack := maxStack 0 1, valid := True\<rparr>)]"

definition frontier_part4 :: "(OpCode \<times> operation) list" where
  "frontier_part4 =
    [(PUSH3, zero_op\<lparr>execute := makePush 3 3, constantGas := GasFastestStep,
         op_minStack := minStack 0 1, op_maxStack := maxStack 0 1, valid := True\<rparr>),
     (PUSH4, zero_op\<lparr>execute := makePush 4 4, constantGas := GasFastestStep,
         op_minStack := minStack 0 1, op_maxStack := maxStack 0 1, valid := True\<rparr>),
     (PUSH5, zero_op\<lparr>execute := makePush 5 5, constantGas := GasFastestStep,
         op_minStack := minStack 0 1, op_maxStack := maxStack 0 1, valid := True\<rparr>),
     (PUSH6, zero_op\<lparr>execute := makePush 6 6, constantGas := GasFastestStep,
         op_minStack := minStack 0 1, op_maxStack := maxStack 0 1, valid := True\<rparr>),
     (PUSH7, zero_op\<lparr>execute := makePush 7 7, constantGas := GasFastestStep,
         op_minStack := minStack 0 1, op_maxStack := maxStack 0 1, valid := True\<rparr>),
     (PUSH8, zero_op\<lparr>execute := makePush 8 8, constantGas := GasFastestStep,
         op_minStack := minStack 0 1, op_maxStack := maxStack 0 1, valid := True\<rparr>),
     (PUSH9, zero_op\<lparr>execute := makePush 9 9, constantGas := GasFastestStep,
         op_minStack := minStack 0 1, op_maxStack := maxStack 0 1, valid := True\<rparr>),
     (PUSH10, zero_op\<lparr>execute := makePush 10 10, constantGas := GasFastestStep,
         op_minStack := minStack 0 1, op_maxStack := maxStack 0 1, valid := True\<rparr>),
     (PUSH11, zero_op\<lparr>execute := makePush 11 11, constantGas := GasFastestStep,
         op_minStack := minStack 0 1, op_maxStack := maxStack 0 1, valid := True\<rparr>),
     (PUSH12, zero_op\<lparr>execute := makePush 12 12, constantGas := GasFastestStep,
         op_minStack := minStack 0 1, op_maxStack := maxStack 0 1, valid := True\<rparr>),
     (PUSH13, zero_op\<lparr>execute := makePush 13 13, constantGas := GasFastestStep,
         op_minStack := minStack 0 1, op_maxStack := maxStack 0 1, valid := True\<rparr>),
     (PUSH14, zero_op\<lparr>execute := makePush 14 14, constantGas := GasFastestStep,
         op_minStack := minStack 0 1, op_maxStack := maxStack 0 1, valid := True\<rparr>),
     (PUSH15, zero_op\<lparr>execute := makePush 15 15, constantGas := GasFastestStep,
         op_minStack := minStack 0 1, op_maxStack := maxStack 0 1, valid := True\<rparr>),
     (PUSH16, zero_op\<lparr>execute := makePush 16 16, constantGas := GasFastestStep,
         op_minStack := minStack 0 1, op_maxStack := maxStack 0 1, valid := True\<rparr>),
     (PUSH17, zero_op\<lparr>execute := makePush 17 17, constantGas := GasFastestStep,
         op_minStack := minStack 0 1, op_maxStack := maxStack 0 1, valid := True\<rparr>),
     (PUSH18, zero_op\<lparr>execute := makePush 18 18, constantGas := GasFastestStep,
         op_minStack := minStack 0 1, op_maxStack := maxStack 0 1, valid := True\<rparr>),
     (PUSH19, zero_op\<lparr>execute := makePush 19 19, constantGas := GasFastestStep,
         op_minStack := minStack 0 1, op_maxStack := maxStack 0 1, valid := True\<rparr>),
     (PUSH20, zero_op\<lparr>execute := makePush 20 20, constantGas := GasFastestStep,
         op_minStack := minStack 0 1, op_maxStack := maxStack 0 1, valid := True\<rparr>),
     (PUSH21, zero_op\<lparr>execute := makePush 21 21, constantGas := GasFastestStep,
         op_minStack := minStack 0 1, op_maxStack := maxStack 0 1, valid := True\<rparr>),
     (PUSH22, zero_op\<lparr>execute := makePush 22 22, constantGas := GasFastestStep,
         op_minStack := minStack 0 1, op_maxStack := maxStack 0 1, valid := True\<rparr>)]"

definition frontier_part5 :: "(OpCode \<times> operation) list" where
  "frontier_part5 =
    [(PUSH23, zero_op\<lparr>execute := makePush 23 23, constantGas := GasFastestStep,
         op_minStack := minStack 0 1, op_maxStack := maxStack 0 1, valid := True\<rparr>),
     (PUSH24, zero_op\<lparr>execute := makePush 24 24, constantGas := GasFastestStep,
         op_minStack := minStack 0 1, op_maxStack := maxStack 0 1, valid := True\<rparr>),
     (PUSH25, zero_op\<lparr>execute := makePush 25 25, constantGas := GasFastestStep,
         op_minStack := minStack 0 1, op_maxStack := maxStack 0 1, valid := True\<rparr>),
     (PUSH26, zero_op\<lparr>execute := makePush 26 26, constantGas := GasFastestStep,
         op_minStack := minStack 0 1, op_maxStack := maxStack 0 1, valid := True\<rparr>),
     (PUSH27, zero_op\<lparr>execute := makePush 27 27, constantGas := GasFastestStep,
         op_minStack := minStack 0 1, op_maxStack := maxStack 0 1, valid := True\<rparr>),
     (PUSH28, zero_op\<lparr>execute := makePush 28 28, constantGas := GasFastestStep,
         op_minStack := minStack 0 1, op_maxStack := maxStack 0 1, valid := True\<rparr>),
     (PUSH29, zero_op\<lparr>execute := makePush 29 29, constantGas := GasFastestStep,
         op_minStack := minStack 0 1, op_maxStack := maxStack 0 1, valid := True\<rparr>),
     (PUSH30, zero_op\<lparr>execute := makePush 30 30, constantGas := GasFastestStep,
         op_minStack := minStack 0 1, op_maxStack := maxStack 0 1, valid := True\<rparr>),
     (PUSH31, zero_op\<lparr>execute := makePush 31 31, constantGas := GasFastestStep,
         op_minStack := minStack 0 1, op_maxStack := maxStack 0 1, valid := True\<rparr>),
     (PUSH32, zero_op\<lparr>execute := makePush 32 32, constantGas := GasFastestStep,
         op_minStack := minStack 0 1, op_maxStack := maxStack 0 1, valid := True\<rparr>),
     (DUP1, zero_op\<lparr>execute := makeDup 1, constantGas := GasFastestStep,
         op_minStack := minDupStack 1, op_maxStack := maxDupStack 1, valid := True\<rparr>),
     (DUP2, zero_op\<lparr>execute := makeDup 2, constantGas := GasFastestStep,
         op_minStack := minDupStack 2, op_maxStack := maxDupStack 2, valid := True\<rparr>),
     (DUP3, zero_op\<lparr>execute := makeDup 3, constantGas := GasFastestStep,
         op_minStack := minDupStack 3, op_maxStack := maxDupStack 3, valid := True\<rparr>),
     (DUP4, zero_op\<lparr>execute := makeDup 4, constantGas := GasFastestStep,
         op_minStack := minDupStack 4, op_maxStack := maxDupStack 4, valid := True\<rparr>),
     (DUP5, zero_op\<lparr>execute := makeDup 5, constantGas := GasFastestStep,
         op_minStack := minDupStack 5, op_maxStack := maxDupStack 5, valid := True\<rparr>),
     (DUP6, zero_op\<lparr>execute := makeDup 6, constantGas := GasFastestStep,
         op_minStack := minDupStack 6, op_maxStack := maxDupStack 6, valid := True\<rparr>),
     (DUP7, zero_op\<lparr>execute := makeDup 7, constantGas := GasFastestStep,
         op_minStack := minDupStack 7, op_maxStack := maxDupStack 7, valid := True\<rparr>),
     (DUP8, zero_op\<lparr>execute := makeDup 8, constantGas := GasFastestStep,
         op_minStack := minDupStack 8, op_maxStack := maxDupStack 8, valid := True\<rparr>),
     (DUP9, zero_op\<lparr>execute := makeDup 9, constantGas := GasFastestStep,
         op_minStack := minDupStack 9, op_maxStack := maxDupStack 9, valid := True\<rparr>),
     (DUP10, zero_op\<lparr>execute := makeDup 10, constantGas := GasFastestStep,
         op_minStack := minDupStack 10, op_maxStack := maxDupStack 10, valid := True\<rparr>)]"

definition frontier_part6 :: "(OpCode \<times> operation) list" where
  "frontier_part6 =
    [(DUP11, zero_op\<lparr>execute := makeDup 11, constantGas := GasFastestStep,
         op_minStack := minDupStack 11, op_maxStack := maxDupStack 11, valid := True\<rparr>),
     (DUP12, zero_op\<lparr>execute := makeDup 12, constantGas := GasFastestStep,
         op_minStack := minDupStack 12, op_maxStack := maxDupStack 12, valid := True\<rparr>),
     (DUP13, zero_op\<lparr>execute := makeDup 13, constantGas := GasFastestStep,
         op_minStack := minDupStack 13, op_maxStack := maxDupStack 13, valid := True\<rparr>),
     (DUP14, zero_op\<lparr>execute := makeDup 14, constantGas := GasFastestStep,
         op_minStack := minDupStack 14, op_maxStack := maxDupStack 14, valid := True\<rparr>),
     (DUP15, zero_op\<lparr>execute := makeDup 15, constantGas := GasFastestStep,
         op_minStack := minDupStack 15, op_maxStack := maxDupStack 15, valid := True\<rparr>),
     (DUP16, zero_op\<lparr>execute := makeDup 16, constantGas := GasFastestStep,
         op_minStack := minDupStack 16, op_maxStack := maxDupStack 16, valid := True\<rparr>),
     (SWAP1, zero_op\<lparr>execute := makeSwap 1, constantGas := GasFastestStep,
         op_minStack := minSwapStack 2, op_maxStack := maxSwapStack 2, valid := True\<rparr>),
     (SWAP2, zero_op\<lparr>execute := makeSwap 2, constantGas := GasFastestStep,
         op_minStack := minSwapStack 3, op_maxStack := maxSwapStack 3, valid := True\<rparr>),
     (SWAP3, zero_op\<lparr>execute := makeSwap 3, constantGas := GasFastestStep,
         op_minStack := minSwapStack 4, op_maxStack := maxSwapStack 4, valid := True\<rparr>),
     (SWAP4, zero_op\<lparr>execute := makeSwap 4, constantGas := GasFastestStep,
         op_minStack := minSwapStack 5, op_maxStack := maxSwapStack 5, valid := True\<rparr>),
     (SWAP5, zero_op\<lparr>execute := makeSwap 5, constantGas := GasFastestStep,
         op_minStack := minSwapStack 6, op_maxStack := maxSwapStack 6, valid := True\<rparr>),
     (SWAP6, zero_op\<lparr>execute := makeSwap 6, constantGas := GasFastestStep,
         op_minStack := minSwapStack 7, op_maxStack := maxSwapStack 7, valid := True\<rparr>),
     (SWAP7, zero_op\<lparr>execute := makeSwap 7, constantGas := GasFastestStep,
         op_minStack := minSwapStack 8, op_maxStack := maxSwapStack 8, valid := True\<rparr>),
     (SWAP8, zero_op\<lparr>execute := makeSwap 8, constantGas := GasFastestStep,
         op_minStack := minSwapStack 9, op_maxStack := maxSwapStack 9, valid := True\<rparr>),
     (SWAP9, zero_op\<lparr>execute := makeSwap 9, constantGas := GasFastestStep,
         op_minStack := minSwapStack 10, op_maxStack := maxSwapStack 10, valid := True\<rparr>),
     (SWAP10, zero_op\<lparr>execute := makeSwap 10, constantGas := GasFastestStep,
         op_minStack := minSwapStack 11, op_maxStack := maxSwapStack 11, valid := True\<rparr>),
     (SWAP11, zero_op\<lparr>execute := makeSwap 11, constantGas := GasFastestStep,
         op_minStack := minSwapStack 12, op_maxStack := maxSwapStack 12, valid := True\<rparr>),
     (SWAP12, zero_op\<lparr>execute := makeSwap 12, constantGas := GasFastestStep,
         op_minStack := minSwapStack 13, op_maxStack := maxSwapStack 13, valid := True\<rparr>),
     (SWAP13, zero_op\<lparr>execute := makeSwap 13, constantGas := GasFastestStep,
         op_minStack := minSwapStack 14, op_maxStack := maxSwapStack 14, valid := True\<rparr>),
     (SWAP14, zero_op\<lparr>execute := makeSwap 14, constantGas := GasFastestStep,
         op_minStack := minSwapStack 15, op_maxStack := maxSwapStack 15, valid := True\<rparr>)]"

definition frontier_part7 :: "(OpCode \<times> operation) list" where
  "frontier_part7 =
    [(SWAP15, zero_op\<lparr>execute := makeSwap 15, constantGas := GasFastestStep,
         op_minStack := minSwapStack 16, op_maxStack := maxSwapStack 16, valid := True\<rparr>),
     (SWAP16, zero_op\<lparr>execute := makeSwap 16, constantGas := GasFastestStep,
         op_minStack := minSwapStack 17, op_maxStack := maxSwapStack 17, valid := True\<rparr>),
     (LOG0, zero_op\<lparr>execute := makeLog 0, dynamicGas := Some (makeGasLog 0),
         op_minStack := minStack 2 0, op_maxStack := maxStack 2 0, op_memorySize := Some memoryLog,
         valid := True, writes := True\<rparr>),
     (LOG1, zero_op\<lparr>execute := makeLog 1, dynamicGas := Some (makeGasLog 1),
         op_minStack := minStack 3 0, op_maxStack := maxStack 3 0, op_memorySize := Some memoryLog,
         valid := True, writes := True\<rparr>),
     (LOG2, zero_op\<lparr>execute := makeLog 2, dynamicGas := Some (makeGasLog 2),
         op_minStack := minStack 4 0, op_maxStack := maxStack 4 0, op_memorySize := Some memoryLog,
         valid := True, writes := True\<rparr>),
     (LOG3, zero_op\<lparr>execute := makeLog 3, dynamicGas := Some (makeGasLog 3),
         op_minStack := minStack 5 0, op_maxStack := maxStack 5 0, op_memorySize := Some memoryLog,
         valid := True, writes := True\<rparr>),
     (LOG4, zero_op\<lparr>execute := makeLog 4, dynamicGas := Some (makeGasLog 4),
         op_minStack := minStack 6 0, op_maxStack := maxStack 6 0, op_memorySize := Some memoryLog,
         valid := True, writes := True\<rparr>),
     (CREATE, zero_op\<lparr>execute := opCreate, dynamicGas := Some gasCreate,
         op_minStack := minStack 3 1, op_maxStack := maxStack 3 1, op_memorySize := Some memoryCreate,
         valid := True, writes := True, returns := True\<rparr>),
     (CALL, zero_op\<lparr>execute := opCall, dynamicGas := Some gasCall, op_minStack := minStack 7 1,
         op_maxStack := maxStack 7 1, op_memorySize := Some memoryCall, valid := True,
         returns := True\<rparr>),
     (CALLCODE, zero_op\<lparr>execute := opCallCode, dynamicGas := Some gasCallCode,
         op_minStack := minStack 7 1, op_maxStack := maxStack 7 1, op_memorySize := Some memoryCall,
         valid := True, returns := True\<rparr>),
     (RETURN, zero_op\<lparr>execute := opReturn, dynamicGas := Some gasReturn,
         op_minStack := minStack 2 0, op_maxStack := maxStack 2 0, op_memorySize := Some memoryReturn,
         halts := True, valid := True\<rparr>),
     (SELFDESTRUCT, zero_op\<lparr>execute := opSuicide, dynamicGas := Some gasSuicide,
         op_minStack := minStack 1 0, op_maxStack := maxStack 1 0, halts := True, valid := True,
         writes := True\<rparr>)]"

definition newFrontierInstructionSet :: "OpCode \<Rightarrow> operation" where
  "newFrontierInstructionSet op =
     (case map_of (frontier_part1 @ frontier_part2 @ frontier_part3 @ frontier_part4 @ frontier_part5 @ frontier_part6 @ frontier_part7) op of
        None \<Rightarrow> zero_op | Some o1 \<Rightarrow> o1)"

definition newHomesteadInstructionSet :: "OpCode \<Rightarrow> operation" where
  "newHomesteadInstructionSet = newFrontierInstructionSet(
     DELEGATECALL := zero_op\<lparr>execute := opDelegateCall, dynamicGas := Some gasDelegateCall,
         op_minStack := minStack 6 1, op_maxStack := maxStack 6 1,
         op_memorySize := Some memoryDelegateCall, valid := True, returns := True\<rparr>)"

definition newByzantiumInstructionSet :: "OpCode \<Rightarrow> operation" where
  "newByzantiumInstructionSet = newHomesteadInstructionSet(
     STATICCALL := zero_op\<lparr>execute := opStaticCall, dynamicGas := Some gasStaticCall,
         op_minStack := minStack 6 1, op_maxStack := maxStack 6 1, op_memorySize := Some memoryStaticCall,
         valid := True, returns := True\<rparr>,
     RETURNDATASIZE := zero_op\<lparr>execute := opReturnDataSize, constantGas := GasQuickStep,
         op_minStack := minStack 0 1, op_maxStack := maxStack 0 1, valid := True\<rparr>,
     RETURNDATACOPY := zero_op\<lparr>execute := opReturnDataCopy, dynamicGas := Some gasReturnDataCopy,
         op_minStack := minStack 3 0, op_maxStack := maxStack 3 0,
         op_memorySize := Some memoryReturnDataCopy, valid := True\<rparr>,
     REVERT := zero_op\<lparr>execute := opRevert, dynamicGas := Some gasRevert,
         op_minStack := minStack 2 0, op_maxStack := maxStack 2 0, op_memorySize := Some memoryRevert,
         valid := True, reverts := True, returns := True\<rparr>)"

definition newConstantinopleInstructionSet :: "OpCode \<Rightarrow> operation" where
  "newConstantinopleInstructionSet = newByzantiumInstructionSet(
     SHL := zero_op\<lparr>execute := opSHL, constantGas := GasFastestStep, op_minStack := minStack 2 1,
         op_maxStack := maxStack 2 1, valid := True\<rparr>,
     SHR := zero_op\<lparr>execute := opSHR, constantGas := GasFastestStep, op_minStack := minStack 2 1,
         op_maxStack := maxStack 2 1, valid := True\<rparr>,
     SAR := zero_op\<lparr>execute := opSAR, constantGas := GasFastestStep, op_minStack := minStack 2 1,
         op_maxStack := maxStack 2 1, valid := True\<rparr>,
     EXTCODEHASH := zero_op\<lparr>execute := opExtCodeHash, dynamicGas := Some gasExtCodeHash,
         op_minStack := minStack 1 1, op_maxStack := maxStack 1 1, valid := True\<rparr>,
     CREATE2 := zero_op\<lparr>execute := opCreate2, dynamicGas := Some gasCreate2,
         op_minStack := minStack 4 1, op_maxStack := maxStack 4 1, op_memorySize := Some memoryCreate2,
         valid := True, writes := True, returns := True\<rparr>)"

text \<open>The instruction set a machine uses.\<close>

definition JumpTable :: "instructionSet \<Rightarrow> OpCode \<Rightarrow> operation" where
  "JumpTable s = (case s of
     FrontierSet \<Rightarrow> newFrontierInstructionSet
   | HomesteadSet \<Rightarrow> newHomesteadInstructionSet
   | ByzantiumSet \<Rightarrow> newByzantiumInstructionSet
   | ConstantinopleSet \<Rightarrow> newConstantinopleInstructionSet)"

section \<open>All entries of the tables\<close>

text \<open>
  Every entry of one of the four tables with its opcode. A fact about all instructions is proved on this list once;
  \<open>JumpTable_entries\<close> and \<open>JumpTable_all\<close> carry it to whatever set a machine uses.
\<close>

definition all_entries :: "(OpCode \<times> operation) list" where
  "all_entries = (frontier_part1 @ frontier_part2 @ frontier_part3 @ frontier_part4 @
     frontier_part5 @ frontier_part6 @ frontier_part7) @
     map (\<lambda>op. (op, newHomesteadInstructionSet op)) [DELEGATECALL] @
     map (\<lambda>op. (op, newByzantiumInstructionSet op)) [STATICCALL, RETURNDATASIZE, RETURNDATACOPY, REVERT] @
     map (\<lambda>op. (op, newConstantinopleInstructionSet op)) [SHL, SHR, SAR, EXTCODEHASH, CREATE2]"

definition entry_of :: "OpCode \<Rightarrow> operation \<Rightarrow> bool" where
  "entry_of op p \<longleftrightarrow> p = zero_op \<or> (op, p) \<in> set all_entries"

lemma newFrontier_entry: "entry_of op (newFrontierInstructionSet op)"
proof -
  let ?xs = "frontier_part1 @ frontier_part2 @ frontier_part3 @ frontier_part4 @ frontier_part5 @
    frontier_part6 @ frontier_part7"
  show ?thesis
  proof (cases "map_of ?xs op")
    case None
    then have "newFrontierInstructionSet op = zero_op" by (simp only: newFrontierInstructionSet_def option.case)
    then show ?thesis by (simp add: entry_of_def)
  next
    case (Some p)
    then have "newFrontierInstructionSet op = p" by (simp only: newFrontierInstructionSet_def option.case)
    with map_of_SomeD [OF Some] show ?thesis unfolding entry_of_def all_entries_def by (simp only: set_append) blast
  qed
qed

lemma listed_entry: "op \<in> set ops \<Longrightarrow> set (map (\<lambda>op. (op, t op)) ops) \<subseteq> set all_entries \<Longrightarrow> entry_of op (t op)"
  by (auto simp: entry_of_def)

lemma newHomestead_entry: "entry_of op (newHomesteadInstructionSet op)"
proof (cases "op = DELEGATECALL")
  case False
  then have "newHomesteadInstructionSet op = newFrontierInstructionSet op" by (simp add: newHomesteadInstructionSet_def)
  with newFrontier_entry show ?thesis by simp
qed (simp add: entry_of_def all_entries_def)

lemma newByzantium_entry: "entry_of op (newByzantiumInstructionSet op)"
proof (cases "op \<in> set [STATICCALL, RETURNDATASIZE, RETURNDATACOPY, REVERT]")
  case True
  then show ?thesis by (rule listed_entry) (unfold all_entries_def, simp only: set_append, blast)
next
  case False
  then have "newByzantiumInstructionSet op = newHomesteadInstructionSet op" by (simp add: newByzantiumInstructionSet_def)
  with newHomestead_entry show ?thesis by simp
qed

lemma newConstantinople_entry: "entry_of op (newConstantinopleInstructionSet op)"
proof (cases "op \<in> set [SHL, SHR, SAR, EXTCODEHASH, CREATE2]")
  case True
  then show ?thesis by (rule listed_entry) (unfold all_entries_def, simp only: set_append, blast)
next
  case False
  then have "newConstantinopleInstructionSet op = newByzantiumInstructionSet op"
    by (simp add: newConstantinopleInstructionSet_def)
  with newByzantium_entry show ?thesis by simp
qed

lemma JumpTable_entry: "entry_of op (JumpTable s op)"
  by (cases s) (simp_all only: JumpTable_def instructionSet.case newFrontier_entry newHomestead_entry newByzantium_entry newConstantinople_entry)

lemma JumpTable_entries:
  assumes "list_all (\<lambda>(op, p). P op p) all_entries" "P op zero_op"
  shows "P op (JumpTable s op)"
  using assms JumpTable_entry [of op s] by (auto simp: list_all_iff entry_of_def)

definition all_operations :: "operation list" where
  "all_operations = zero_op # map snd all_entries"

lemma JumpTable_all:
  assumes "list_all P all_operations"
  shows "P (JumpTable s op)"
proof (rule JumpTable_entries [where P = "\<lambda>_. P"])
  have ball: "Ball (set (zero_op # map snd all_entries)) P" using assms unfolding all_operations_def list_all_iff .
  then show "P zero_op" by (rule bspec) (simp only: list.set insert_iff simp_thms)
  show "list_all (\<lambda>(op, p). P p) all_entries" unfolding list_all_iff
  proof safe
    fix op p
    assume "(op, p) \<in> set all_entries"
    then have "snd (op, p) \<in> set (zero_op # map snd all_entries)" by (simp only: list.set set_map insert_iff imageI simp_thms)
    with ball have "P (snd (op, p))" by (rule bspec)
    then show "P p" by (simp only: snd_conv)
  qed
qed

lemmas all_entries_simps = all_entries_def frontier_part1_def frontier_part2_def frontier_part3_def frontier_part4_def
  frontier_part5_def frontier_part6_def frontier_part7_def newHomesteadInstructionSet_def newByzantiumInstructionSet_def
  newConstantinopleInstructionSet_def

lemmas all_operations_simps = all_operations_def all_entries_simps

lemma zero_op_simps:
  "constantGas zero_op = 0" "dynamicGas zero_op = None" "op_minStack zero_op = 0" "op_maxStack zero_op = 0"
  "op_memorySize zero_op = None" "\<not> halts zero_op" "\<not> jumps zero_op" "\<not> writes zero_op" "\<not> valid zero_op"
  "\<not> reverts zero_op" "\<not> returns zero_op" "execute zero_op = (\<lambda>_ _. None)"
  by (simp_all add: zero_op_def)

end
