(* ===== verification/Precompiles.thy ===== *)
theory Precompiles
  imports Vm_Types
begin

text \<open>
  \<^verbatim>\<open>contracts.go\<close>: the precompiled contracts and their gas. The interface \<^verbatim>\<open>PrecompiledContract\<close> has one
  constructor per implementing type. \<^verbatim>\<open>Run\<close> returns data or an error (\<open>Inl\<close>); \<open>None\<close> is a panic. Slices are values:
  that \<^verbatim>\<open>ecrecover\<close> may overwrite a byte of an input longer than 128 bytes is not represented. Allocation never fails.
\<close>

datatype PrecompiledContract =
    ecrecover | sha256hash | ripemd160hash | dataCopy | bigModExp | bn256Add | bn256ScalarMul | bn256Pairing

type_synonym runResult = "(vmError + bytes) option"

definition ecrecover_RequiredGas :: "bytes \<Rightarrow> u64" where
  "ecrecover_RequiredGas input = EcrecoverGas"

definition ecrecover_Run :: "crypto \<Rightarrow> bytes \<Rightarrow> runResult" where
  "ecrecover_Run cr input = do {
     let input = RightPadBytes input 128;
     rs \<leftarrow> go_slice input 64 96;
     ss \<leftarrow> go_slice input 96 128;
     let r = SetBytes rs;
     let s = SetBytes ss;
     v63 \<leftarrow> go_index input 63;
     let v = v63 - 27;
     pad \<leftarrow> go_slice input 32 63;
     if \<not> allZero pad \<or> \<not> ValidateSignatureValues v r s False then Some (Inr [])
     else do {
       hash \<leftarrow> go_slice input 0 32;
       sig \<leftarrow> go_slice input 64 128;
       case Ecrecover cr hash (sig @ [v]) of
         None \<Rightarrow> Some (Inr [])
       | Some pubKey \<Rightarrow> do {
           key \<leftarrow> go_slice pubKey 1 (length pubKey);
           let h = Keccak256 cr [key];
           tail \<leftarrow> go_slice h 12 (length h);
           Some (Inr (LeftPadBytes tail 32))
         }
     }
   }"

definition sha256hash_RequiredGas :: "bytes \<Rightarrow> u64" where
  "sha256hash_RequiredGas input = word_of_nat (length input + 31) div 32 * Sha256PerWordGas + Sha256BaseGas"

definition sha256hash_Run :: "crypto \<Rightarrow> bytes \<Rightarrow> runResult" where
  "sha256hash_Run cr input = Some (Inr (sha256_Sum256 cr input))"

definition ripemd160hash_RequiredGas :: "bytes \<Rightarrow> u64" where
  "ripemd160hash_RequiredGas input = word_of_nat (length input + 31) div 32 * Ripemd160PerWordGas + Ripemd160BaseGas"

definition ripemd160hash_Run :: "crypto \<Rightarrow> bytes \<Rightarrow> runResult" where
  "ripemd160hash_Run cr input = Some (Inr (LeftPadBytes (ripemd160_Sum cr input) 32))"

definition dataCopy_RequiredGas :: "bytes \<Rightarrow> u64" where
  "dataCopy_RequiredGas input = word_of_nat (length input + 31) div 32 * IdentityPerWordGas + IdentityBaseGas"

definition dataCopy_Run :: "bytes \<Rightarrow> runResult" where
  "dataCopy_Run input = Some (Inr input)"

definition modexp_complexity :: "int \<Rightarrow> int" where
  "modexp_complexity gas =
     (if gas \<le> 64 then gas * gas
      else if gas \<le> 1024 then gas * gas div 4 + (96 * gas - 3072)
      else gas * gas div 16 + (480 * gas - 199680))"

definition bigModExp_RequiredGas :: "bytes \<Rightarrow> u64 option" where
  "bigModExp_RequiredGas input = do {
     b \<leftarrow> getData input 0 32;
     e \<leftarrow> getData input 32 32;
     m \<leftarrow> getData input 64 32;
     let baseLen = SetBytes b;
     let expLen = SetBytes e;
     let modLen = SetBytes m;
     let input = (if length input > 96 then drop 96 input else []);
     expHead \<leftarrow>
       (if int (length input) \<le> baseLen then Some 0
        else if expLen > 32 then map_option SetBytes (getData input (Uint64 baseLen) 32)
        else map_option SetBytes (getData input (Uint64 baseLen) (Uint64 expLen)));
     let bitlen = BitLen expHead;
     let msb = (if bitlen > 0 then int bitlen - 1 else 0);
     let adjExpLen = (if expLen > 32 then 8 * (expLen - 32) else 0);
     let adjExpLen = adjExpLen + msb;
     let gas = modexp_complexity (BigMax modLen baseLen);
     let gas = gas * BigMax adjExpLen 1;
     let gas = gas div uint ModExpQuadCoeffDiv;
     if BitLen gas > 64 then Some MaxUint64 else Some (Uint64 gas)
   }"

definition bigModExp_Run :: "bytes \<Rightarrow> runResult" where
  "bigModExp_Run input = do {
     b \<leftarrow> getData input 0 32;
     e \<leftarrow> getData input 32 32;
     m \<leftarrow> getData input 64 32;
     let baseLen = Uint64 (SetBytes b);
     let expLen = Uint64 (SetBytes e);
     let modLen = Uint64 (SetBytes m);
     let input = (if length input > 96 then drop 96 input else []);
     if baseLen = 0 \<and> modLen = 0 then Some (Inr [])
     else do {
       b \<leftarrow> getData input 0 baseLen;
       e \<leftarrow> getData input baseLen expLen;
       m \<leftarrow> getData input (baseLen + expLen) modLen;
       let base = SetBytes b;
       let exp1 = SetBytes e;
       let mod1 = SetBytes m;
       if BitLen mod1 = 0 then Some (Inr (LeftPadBytes [] (sint modLen)))
       else Some (Inr (LeftPadBytes (Bytes (base ^ nat exp1 mod mod1)) (sint modLen)))
     }
   }"

definition newCurvePoint :: "crypto \<Rightarrow> bytes \<Rightarrow> vmError + bytes" where
  "newCurvePoint cr blob = (case G1_Unmarshal cr blob of None \<Rightarrow> Inl errUnmarshal | Some p \<Rightarrow> Inr p)"

definition newTwistPoint :: "crypto \<Rightarrow> bytes \<Rightarrow> vmError + bytes" where
  "newTwistPoint cr blob = (case G2_Unmarshal cr blob of None \<Rightarrow> Inl errUnmarshal | Some p \<Rightarrow> Inr p)"

definition bn256Add_RequiredGas :: "bytes \<Rightarrow> u64" where
  "bn256Add_RequiredGas input = Bn256AddGas"

definition bn256Add_Run :: "crypto \<Rightarrow> bytes \<Rightarrow> runResult" where
  "bn256Add_Run cr input = do {
     xs \<leftarrow> getData input 0 64;
     case newCurvePoint cr xs of
       Inl err \<Rightarrow> Some (Inl err)
     | Inr x \<Rightarrow> do {
         ys \<leftarrow> getData input 64 64;
         case newCurvePoint cr ys of
           Inl err \<Rightarrow> Some (Inl err)
         | Inr y \<Rightarrow> Some (Inr (G1_Add cr x y))
       }
   }"

definition bn256ScalarMul_RequiredGas :: "bytes \<Rightarrow> u64" where
  "bn256ScalarMul_RequiredGas input = Bn256ScalarMulGas"

definition bn256ScalarMul_Run :: "crypto \<Rightarrow> bytes \<Rightarrow> runResult" where
  "bn256ScalarMul_Run cr input = do {
     xs \<leftarrow> getData input 0 64;
     case newCurvePoint cr xs of
       Inl err \<Rightarrow> Some (Inl err)
     | Inr p \<Rightarrow> do {
         k \<leftarrow> getData input 64 32;
         Some (Inr (G1_ScalarMult cr p (SetBytes k)))
       }
   }"

definition true32Byte :: bytes where
  "true32Byte = [0, 0, 0, 0, 0, 0, 0, 0, 0, 0, 0, 0, 0, 0, 0, 0, 0, 0, 0, 0, 0, 0, 0, 0, 0, 0, 0, 0, 0, 0, 0, 1]"

definition false32Byte :: bytes where
  "false32Byte = replicate 32 0"

definition bn256Pairing_RequiredGas :: "bytes \<Rightarrow> u64" where
  "bn256Pairing_RequiredGas input =
     Bn256PairingBaseGas + word_of_nat (length input div 192) * Bn256PairingPerPointGas"

text \<open>The loop over the coordinates, \<open>n\<close> pairs from position \<open>i\<close>.\<close>

fun pairing_loop ::
  "crypto \<Rightarrow> bytes \<Rightarrow> nat \<Rightarrow> nat \<Rightarrow> bytes list \<Rightarrow> bytes list \<Rightarrow> (vmError + bytes list \<times> bytes list) option" where
  "pairing_loop cr input i 0 cs ts = Some (Inr (cs, ts))"
| "pairing_loop cr input i (Suc n) cs ts = do {
     x \<leftarrow> go_slice input i (i + 64);
     case newCurvePoint cr x of
       Inl err \<Rightarrow> Some (Inl err)
     | Inr c \<Rightarrow> do {
         y \<leftarrow> go_slice input (i + 64) (i + 192);
         case newTwistPoint cr y of
           Inl err \<Rightarrow> Some (Inl err)
         | Inr t \<Rightarrow> pairing_loop cr input (i + 192) n (cs @ [c]) (ts @ [t])
       }
   }"

definition bn256Pairing_Run :: "crypto \<Rightarrow> bytes \<Rightarrow> runResult" where
  "bn256Pairing_Run cr input =
     (if length input mod 192 > 0 then Some (Inl errBadPairingInput)
      else do {
        r \<leftarrow> pairing_loop cr input 0 (length input div 192) [] [];
        case r of
          Inl err \<Rightarrow> Some (Inl err)
        | Inr (cs, ts) \<Rightarrow> Some (Inr (if PairingCheck cr cs ts then true32Byte else false32Byte))
      })"

section \<open>The interface and the sets of contracts\<close>

definition RequiredGas :: "PrecompiledContract \<Rightarrow> bytes \<Rightarrow> u64 option" where
  "RequiredGas p input = (case p of
     ecrecover \<Rightarrow> Some (ecrecover_RequiredGas input)
   | sha256hash \<Rightarrow> Some (sha256hash_RequiredGas input)
   | ripemd160hash \<Rightarrow> Some (ripemd160hash_RequiredGas input)
   | dataCopy \<Rightarrow> Some (dataCopy_RequiredGas input)
   | bigModExp \<Rightarrow> bigModExp_RequiredGas input
   | bn256Add \<Rightarrow> Some (bn256Add_RequiredGas input)
   | bn256ScalarMul \<Rightarrow> Some (bn256ScalarMul_RequiredGas input)
   | bn256Pairing \<Rightarrow> Some (bn256Pairing_RequiredGas input))"

definition Precompiled_Run :: "crypto \<Rightarrow> PrecompiledContract \<Rightarrow> bytes \<Rightarrow> runResult" where
  "Precompiled_Run cr p input = (case p of
     ecrecover \<Rightarrow> ecrecover_Run cr input
   | sha256hash \<Rightarrow> sha256hash_Run cr input
   | ripemd160hash \<Rightarrow> ripemd160hash_Run cr input
   | dataCopy \<Rightarrow> dataCopy_Run input
   | bigModExp \<Rightarrow> bigModExp_Run input
   | bn256Add \<Rightarrow> bn256Add_Run cr input
   | bn256ScalarMul \<Rightarrow> bn256ScalarMul_Run cr input
   | bn256Pairing \<Rightarrow> bn256Pairing_Run cr input)"

definition PrecompiledContractsHomestead :: "Address \<Rightarrow> PrecompiledContract option" where
  "PrecompiledContractsHomestead = map_of
     [(BytesToAddress [1], ecrecover),
      (BytesToAddress [2], sha256hash),
      (BytesToAddress [3], ripemd160hash),
      (BytesToAddress [4], dataCopy)]"

definition PrecompiledContractsByzantium :: "Address \<Rightarrow> PrecompiledContract option" where
  "PrecompiledContractsByzantium = map_of
     [(BytesToAddress [1], ecrecover),
      (BytesToAddress [2], sha256hash),
      (BytesToAddress [3], ripemd160hash),
      (BytesToAddress [4], dataCopy),
      (BytesToAddress [5], bigModExp),
      (BytesToAddress [6], bn256Add),
      (BytesToAddress [7], bn256ScalarMul),
      (BytesToAddress [8], bn256Pairing)]"

definition RunPrecompiledContract ::
  "crypto \<Rightarrow> PrecompiledContract \<Rightarrow> bytes \<Rightarrow> Contract \<Rightarrow> (bytes \<times> vmError option \<times> Contract) option" where
  "RunPrecompiledContract cr p input contract = do {
     gas \<leftarrow> RequiredGas p input;
     let (ok, contract) = UseGas contract gas;
     if ok
     then do {
       r \<leftarrow> Precompiled_Run cr p input;
       case r of
         Inl err \<Rightarrow> Some ([], Some err, contract)
       | Inr ret \<Rightarrow> Some (ret, None, contract)
     }
     else Some ([], Some ErrOutOfGas, contract)
   }"

end
