(* ===== verification/Interpreter.thy ===== *)
theory Interpreter
  imports Jump_Table Precompiles
begin

text \<open>
  \<^verbatim>\<open>interpreter.go\<close> and \<^verbatim>\<open>evm.go\<close>: the interpreter loop, the calls and the creation of contracts.

  The methods of \<^verbatim>\<open>EVM\<close> run the interpreter, whose instructions call the methods of \<^verbatim>\<open>EVM\<close>. The definitions follow
  the code, with the loop of the interpreter as the argument \<open>loop\<close>; \<open>run_loop\<close> closes the recursion with a
  bound on its depth and length (fuel). The methods at the end of the theory take the fuel as an argument. Fuel
  above the gas of the call is enough, so that the bound is never reached (theory \<open>Evm_Props\<close>).
\<close>

section \<open>Construction\<close>

definition NewEVMInterpreter_set :: "ChainConfig \<Rightarrow> int \<Rightarrow> instructionSet" where
  "NewEVMInterpreter_set cfg num =
     (if IsConstantinople cfg (Some num) then ConstantinopleSet
      else if IsByzantium cfg (Some num) then ByzantiumSet
      else if IsHomestead cfg (Some num) then HomesteadSet
      else FrontierSet)"

definition NewEVM ::
  "Context \<Rightarrow> StateDB \<Rightarrow> ChainConfig \<Rightarrow> Config \<Rightarrow> StructLogger option \<Rightarrow> EVM option" where
  "NewEVM c statedb cfg vmcfg tr =
     (if IsEWASM cfg (Some (BlockNumber c)) then None
      else Some \<lparr>ctx = c, sdb = statedb, depth = 0, chainConfig = cfg,
        chainRules = ChainConfig_Rules cfg (Some (BlockNumber c)), vmConfig = vmcfg, abort = None, callGasTemp = 0,
        gasTable = ChainConfig_GasTable cfg (Some (BlockNumber c)),
        instrSet = NewEVMInterpreter_set cfg (BlockNumber c), readOnly = False, returnData = [], tracer = tr,
        jumpdests_of = Map.empty\<rparr>)"

section \<open>The interpreter loop\<close>

text \<open>The variables of \<^verbatim>\<open>Run\<close> that live across iterations.\<close>

record runState =
  rs_frame :: Frame
  rs_op :: OpCode
  rs_cost :: u64
  rs_pcCopy :: u64
  rs_gasCopy :: u64
  rs_logged :: bool

datatype 'a loopStep = Return bytes "vmError option" 'a | Continue 'a

definition fail :: "vmError \<Rightarrow> runState \<Rightarrow> runState loopStep outcome option" where
  "fail err rs = Some (Done (Return [] (Some err) rs))"

text \<open>The end of an iteration: execute the operation and decide how to go on.\<close>

definition execute_step ::
  "host \<Rightarrow> operation \<Rightarrow> runState \<Rightarrow> runState loopStep outcome option" where
  "execute_step h operation rs =
     and_then (execute operation h (rs_frame rs)) (\<lambda>(res, err, f).
       let f = (if returns operation then f\<lparr>f_evm := (f_evm f)\<lparr>returnData := res\<rparr>\<rparr> else f);
           rs = rs\<lparr>rs_frame := f\<rparr>
       in if err \<noteq> None then Some (Done (Return [] err rs))
          else if reverts operation then Some (Done (Return res (Some errExecutionReverted) rs))
          else if halts operation then Some (Done (Return res None rs))
          else if \<not> jumps operation
          then Some (Done (Continue (rs\<lparr>rs_frame := f\<lparr>f_pc := f_pc f + 1\<rparr>\<rparr>)))
          else Some (Done (Continue rs)))"

text \<open>The memory an operation needs, rounded to words; \<open>None\<close> in the result is an overflow.\<close>

definition needed_memory :: "operation \<Rightarrow> Stack \<Rightarrow> u64 option option" where
  "needed_memory operation stack =
     (case op_memorySize operation of
        None \<Rightarrow> Some (Some 0)
      | Some memorySize \<Rightarrow> do {
          (memSize, overflow) \<leftarrow> memorySize stack;
          if overflow then Some None
          else let (memSize, overflow) = SafeMul (toWordSize memSize) 32
               in Some (if overflow then None else Some memSize)
        })"

text \<open>
  The dynamic gas; \<open>False\<close> in the first component is out of gas. The second component is the new value
  of the variable \<^verbatim>\<open>cost\<close>, where it is assigned.
\<close>

definition use_dynamic_gas ::
  "crypto \<Rightarrow> operation \<Rightarrow> Frame \<Rightarrow> u64 \<Rightarrow> u64 \<Rightarrow> (bool \<times> u64 \<times> Frame) option" where
  "use_dynamic_gas cr operation f memorySize cost =
     (case dynamicGas operation of
        None \<Rightarrow> Some (True, cost, f)
      | Some dyn \<Rightarrow> do {
          (r, evm, mem) \<leftarrow> dyn cr (gasTable (f_evm f)) (f_evm f) (f_contract f) (f_stack f) (f_memory f) memorySize;
          let f = f\<lparr>f_evm := evm, f_memory := mem\<rparr>;
          case r of
            Inl _ \<Rightarrow> Some (False, 0, f)
          | Inr cost \<Rightarrow>
              let (ok, contract) = UseGas (f_contract f) cost
              in Some (ok, cost, f\<lparr>f_contract := contract\<rparr>)
        })"

text \<open>The start of an iteration: what the tracer will need, and the opcode.\<close>

definition begin_step :: "runState \<Rightarrow> runState" where
  "begin_step rs =
     (let f = rs_frame rs;
          rs = (if Debug (vmConfig (f_evm f))
                then rs\<lparr>rs_logged := False, rs_pcCopy := f_pc f, rs_gasCopy := Gas (f_contract f)\<rparr> else rs)
      in rs\<lparr>rs_op := GetOp (f_contract f) (f_pc f)\<rparr>)"

text \<open>The checks before an operation: that it is valid, the stack bounds and the write protection.\<close>

definition check_op :: "EVM \<Rightarrow> OpCode \<Rightarrow> operation \<Rightarrow> Stack \<Rightarrow> vmError option option" where
  "check_op evm op operation stack =
     (let sLen = Stack_len stack
      in if \<not> valid operation then Some (Some (errInvalidOpcode op))
         else if int sLen < op_minStack operation then Some (Some (errStackUnderflow sLen (op_minStack operation)))
         else if int sLen > op_maxStack operation then Some (Some (errStackLimit sLen (op_maxStack operation)))
         else if readOnly evm \<and> rIsByzantium (chainRules evm)
         then if writes operation then Some (Some errWriteProtection)
              else if op = CALL
              then do { v \<leftarrow> Back stack 2; Some (if v \<noteq> 0 then Some errWriteProtection else None) }
              else Some None
         else Some None)"

text \<open>Paying for an operation: its constant gas, the size of the memory it needs, its dynamic gas.\<close>

definition charge_op :: "crypto \<Rightarrow> operation \<Rightarrow> runState \<Rightarrow> (vmError option \<times> u64 \<times> runState) option" where
  "charge_op cr operation rs = do {
     let f = rs_frame rs;
     let (ok, contract) = UseGas (f_contract f) (constantGas operation);
     let f = f\<lparr>f_contract := contract\<rparr>;
     let rs = rs\<lparr>rs_frame := f\<rparr>;
     if \<not> ok then Some (Some ErrOutOfGas, 0, rs)
     else do {
       needed \<leftarrow> needed_memory operation (f_stack f);
       case needed of
         None \<Rightarrow> Some (Some errGasUintOverflow, 0, rs)
       | Some memorySize \<Rightarrow> do {
           (ok, cost, f) \<leftarrow> use_dynamic_gas cr operation f memorySize (rs_cost rs);
           Some (if ok then None else Some ErrOutOfGas, memorySize, rs\<lparr>rs_frame := f, rs_cost := cost\<rparr>)
         }
     }
   }"

text \<open>Growing the memory and tracing the operation that is about to be executed.\<close>

definition before_execute :: "runState \<Rightarrow> u64 \<Rightarrow> runState option" where
  "before_execute rs memorySize = do {
     let f = rs_frame rs;
     let f = (if memorySize > 0 then f\<lparr>f_memory := Resize (f_memory f) memorySize\<rparr> else f);
     let evm = f_evm f;
     if Debug (vmConfig evm)
     then do {
       evm \<leftarrow> trace evm (\<lambda>l. CaptureState l evm (f_pc f) (rs_op rs) (rs_gasCopy rs) (rs_cost rs) (f_memory f)
                               (f_stack f) (f_contract f) (depth evm) None);
       Some (rs\<lparr>rs_frame := f\<lparr>f_evm := evm\<rparr>, rs_logged := True\<rparr>)
     }
     else Some (rs\<lparr>rs_frame := f\<rparr>)
   }"

text \<open>One iteration of the loop, its condition included.\<close>

definition Run_step :: "host \<Rightarrow> runState \<Rightarrow> runState loopStep outcome option" where
  "Run_step h rs = do {
     let (aborted, evm) = load_abort (f_evm (rs_frame rs));
     let rs = rs\<lparr>rs_frame := (rs_frame rs)\<lparr>f_evm := evm\<rparr>\<rparr>;
     if aborted then Some (Done (Return [] None rs))
     else do {
       let rs = begin_step rs;
       let operation = JumpTable (instrSet evm) (rs_op rs);
       err \<leftarrow> check_op evm (rs_op rs) operation (f_stack (rs_frame rs));
       case err of
         Some e \<Rightarrow> fail e rs
       | None \<Rightarrow> do {
           (err, memorySize, rs) \<leftarrow> charge_op (h_crypto h) operation rs;
           case err of
             Some e \<Rightarrow> fail e rs
           | None \<Rightarrow> do {
               rs \<leftarrow> before_execute rs memorySize;
               execute_step h operation rs
             }
         }
     }
   }"

text \<open>The deferred capture of a fault.\<close>

definition capture_fault :: "runState \<Rightarrow> vmError option \<Rightarrow> EVM option" where
  "capture_fault rs err =
     (let f = rs_frame rs; evm = f_evm f
      in if Debug (vmConfig evm) \<and> err \<noteq> None
         then if \<not> rs_logged rs
              then trace evm (\<lambda>l. CaptureState l evm (rs_pcCopy rs) (rs_op rs) (rs_gasCopy rs) (rs_cost rs)
                                    (f_memory f) (f_stack f) (f_contract f) (depth evm) err)
              else trace evm CaptureFault
         else Some evm)"

type_synonym loopResult = "(bytes \<times> vmError option \<times> runState) outcome option"

text \<open>\<^verbatim>\<open>EVMInterpreter.Run\<close>; it returns the contract too, since the caller reads the gas left in it.\<close>

definition Interpreter_Run ::
  "(runState \<Rightarrow> loopResult) \<Rightarrow> EVM \<Rightarrow> Contract \<Rightarrow> bytes \<Rightarrow> bool \<Rightarrow>
   (bytes \<times> vmError option \<times> EVM \<times> Contract) outcome option" where
  "Interpreter_Run loop evm contract input readonly =
     (let evm = evm\<lparr>depth := depth evm + 1\<rparr>;
          entered = readonly \<and> \<not> readOnly evm;
          evm = (if entered then evm\<lparr>readOnly := True\<rparr> else evm);
          leave = (\<lambda>evm. let evm = (if entered then evm\<lparr>readOnly := False\<rparr> else evm)
                         in evm\<lparr>depth := depth evm - 1\<rparr>);
          evm = evm\<lparr>returnData := []\<rparr>
      in if length (Code contract) = 0 then Some (Done ([], None, leave evm, contract))
         else
           let contract = contract\<lparr>Input := input\<rparr>;
               f = \<lparr>f_pc = 0, f_evm = evm, f_contract = contract, f_memory = NewMemory, f_stack = newstack\<rparr>;
               rs = \<lparr>rs_frame = f, rs_op = 0, rs_cost = 0, rs_pcCopy = 0, rs_gasCopy = 0, rs_logged = False\<rparr>
           in and_then (loop rs) (\<lambda>(ret, err, rs). do {
                evm \<leftarrow> capture_fault rs err;
                Some (Done (ret, err, leave evm, f_contract (rs_frame rs)))
              }))"

section \<open>Calls\<close>

definition precompiles_of :: "EVM \<Rightarrow> Address \<Rightarrow> PrecompiledContract option" where
  "precompiles_of evm =
     (if IsByzantium (chainConfig evm) (Some (BlockNumber (ctx evm)))
      then PrecompiledContractsByzantium else PrecompiledContractsHomestead)"

text \<open>The one interpreter of the machine can run every contract.\<close>

definition run ::
  "(runState \<Rightarrow> loopResult) \<Rightarrow> crypto \<Rightarrow> EVM \<Rightarrow> Contract \<Rightarrow> bytes \<Rightarrow> bool \<Rightarrow>
   (bytes \<times> vmError option \<times> EVM \<times> Contract) outcome option" where
  "run loop cr evm contract input readonly =
     (case (case CodeAddr contract of None \<Rightarrow> None | Some a \<Rightarrow> precompiles_of evm a) of
        Some p \<Rightarrow> do {
          (ret, err, contract) \<leftarrow> RunPrecompiledContract cr p input contract;
          Some (Done (ret, err, evm, contract))
        }
      | None \<Rightarrow> Interpreter_Run loop evm contract input readonly)"

text \<open>
  The common end of the calls: after an error revert to the snapshot and, unless the execution was
  reverted by the code, consume the gas.
\<close>

definition settle ::
  "crypto \<Rightarrow> nat \<Rightarrow> bytes \<times> vmError option \<times> EVM \<times> Contract \<Rightarrow> callResult" where
  "settle cr snapshot = (\<lambda>(ret, err, evm, contract).
     if err \<noteq> None
     then do {
       s \<leftarrow> RevertToSnapshot cr (sdb evm) snapshot;
       let evm = evm\<lparr>sdb := s\<rparr>;
       let contract = (if err \<noteq> Some errExecutionReverted then snd (UseGas contract (Gas contract)) else contract);
       Some (Done (ret, Gas contract, err, evm))
     }
     else Some (Done (ret, Gas contract, err, evm)))"

text \<open>\<^verbatim>\<open>SetCallCode\<close> with the code and the code hash of the state.\<close>

definition load_code :: "crypto \<Rightarrow> EVM \<Rightarrow> Contract \<Rightarrow> Address \<Rightarrow> Contract \<times> EVM" where
  "load_code cr evm contract addr =
     (let (hash, s) = GetCodeHash cr (sdb evm) addr;
          (code, s) = GetCode cr s addr
      in (SetCallCode contract (Some addr) hash code, evm\<lparr>sdb := s\<rparr>))"

definition new_contract ::
  "EVM \<Rightarrow> ContractRef \<Rightarrow> ContractRef \<Rightarrow> int option \<Rightarrow> u64 \<Rightarrow> Contract \<times> EVM" where
  "new_contract evm clr object v gas =
     (let (contract, jd) = NewContract clr object v gas (jumpdests_of evm)
      in (contract, evm\<lparr>jumpdests_of := jd\<rparr>))"

text \<open>Tracing of the outermost call.\<close>

definition trace_start :: "EVM \<Rightarrow> EVM option" where
  "trace_start evm = (if Debug (vmConfig evm) \<and> depth evm = 0 then trace evm CaptureStart else Some evm)"

definition trace_end :: "EVM \<Rightarrow> bytes \<Rightarrow> vmError option \<Rightarrow> EVM option" where
  "trace_end evm ret err =
     (if Debug (vmConfig evm) \<and> depth evm = 0 then trace evm (\<lambda>l. CaptureEnd l ret err) else Some evm)"

definition Call_with ::
  "(runState \<Rightarrow> loopResult) \<Rightarrow> crypto \<Rightarrow> EVM \<Rightarrow> ContractRef \<Rightarrow> Address \<Rightarrow> bytes \<Rightarrow> u64 \<Rightarrow> int \<Rightarrow> callResult" where
  "Call_with loop cr evm clr addr input gas v =
     (if NoRecursion (vmConfig evm) \<and> depth evm > 0 then Some (Done ([], gas, None, evm))
      else if depth evm > unat CallCreateDepth then Some (Done ([], gas, Some ErrDepth, evm))
      else
        let (can, s) = CanTransferFn (ctx evm) (sdb evm) (ContractRef_Address clr) v;
            evm = evm\<lparr>sdb := s\<rparr>
        in if \<not> can then Some (Done ([], gas, Some ErrInsufficientBalance, evm))
        else
        let to = AccountRef addr;
            (snapshot, s) = Snapshot (sdb evm);
            (ex, s) = Exist cr s addr;
            evm = evm\<lparr>sdb := s\<rparr>
        in if \<not> ex \<and> precompiles_of evm addr = None \<and>
              IsEIP158 (chainConfig evm) (Some (BlockNumber (ctx evm))) \<and> v = 0
        then do {
          evm \<leftarrow> trace_start evm;
          evm \<leftarrow> trace_end evm [] None;
          Some (Done ([], gas, None, evm))
        }
        else do {
          let evm = (if \<not> ex then evm\<lparr>sdb := CreateAccount cr (sdb evm) addr\<rparr> else evm);
          let evm = evm\<lparr>sdb := TransferFn (ctx evm) (sdb evm) (ContractRef_Address clr) (ContractRef_Address to) v\<rparr>;
          let (contract, evm) = new_contract evm clr to (Some v) gas;
          let (contract, evm) = load_code cr evm contract addr;
          evm \<leftarrow> trace_start evm;
          and_then (and_then (run loop cr evm contract input False) (settle cr snapshot))
            (\<lambda>(ret, left, err, evm). do {
               evm \<leftarrow> trace_end evm ret err;
               Some (Done (ret, left, err, evm))
             })
        })"

definition CallCode_with ::
  "(runState \<Rightarrow> loopResult) \<Rightarrow> crypto \<Rightarrow> EVM \<Rightarrow> ContractRef \<Rightarrow> Address \<Rightarrow> bytes \<Rightarrow> u64 \<Rightarrow> int \<Rightarrow> callResult" where
  "CallCode_with loop cr evm clr addr input gas v =
     (if NoRecursion (vmConfig evm) \<and> depth evm > 0 then Some (Done ([], gas, None, evm))
      else if depth evm > unat CallCreateDepth then Some (Done ([], gas, Some ErrDepth, evm))
      else
        let (can, s) = CanTransferFn (ctx evm) (sdb evm) (ContractRef_Address clr) v;
            evm = evm\<lparr>sdb := s\<rparr>
        in if \<not> can then Some (Done ([], gas, Some ErrInsufficientBalance, evm))
        else
        let (snapshot, s) = Snapshot (sdb evm);
            evm = evm\<lparr>sdb := s\<rparr>;
            to = AccountRef (ContractRef_Address clr);
            (contract, evm) = new_contract evm clr to (Some v) gas;
            (contract, evm) = load_code cr evm contract addr
        in and_then (run loop cr evm contract input False) (settle cr snapshot))"

definition DelegateCall_with ::
  "(runState \<Rightarrow> loopResult) \<Rightarrow> crypto \<Rightarrow> EVM \<Rightarrow> ContractRef \<Rightarrow> Address \<Rightarrow> bytes \<Rightarrow> u64 \<Rightarrow> callResult" where
  "DelegateCall_with loop cr evm clr addr input gas =
     (if NoRecursion (vmConfig evm) \<and> depth evm > 0 then Some (Done ([], gas, None, evm))
      else if depth evm > unat CallCreateDepth then Some (Done ([], gas, Some ErrDepth, evm))
      else do {
        let (snapshot, s) = Snapshot (sdb evm);
        let evm = evm\<lparr>sdb := s\<rparr>;
        let to = AccountRef (ContractRef_Address clr);
        let (contract, evm) = new_contract evm clr to None gas;
        contract \<leftarrow> AsDelegate contract;
        let (contract, evm) = load_code cr evm contract addr;
        and_then (run loop cr evm contract input False) (settle cr snapshot)
      })"

definition StaticCall_with ::
  "(runState \<Rightarrow> loopResult) \<Rightarrow> crypto \<Rightarrow> EVM \<Rightarrow> ContractRef \<Rightarrow> Address \<Rightarrow> bytes \<Rightarrow> u64 \<Rightarrow> callResult" where
  "StaticCall_with loop cr evm clr addr input gas =
     (if NoRecursion (vmConfig evm) \<and> depth evm > 0 then Some (Done ([], gas, None, evm))
      else if depth evm > unat CallCreateDepth then Some (Done ([], gas, Some ErrDepth, evm))
      else
        let to = AccountRef addr;
            (snapshot, s) = Snapshot (sdb evm);
            evm = evm\<lparr>sdb := s\<rparr>;
            (contract, evm) = new_contract evm clr to (Some 0) gas;
            (contract, evm) = load_code cr evm contract addr;
            evm = evm\<lparr>sdb := AddBalance cr (sdb evm) addr 0\<rparr>
        in and_then (run loop cr evm contract input True) (settle cr snapshot))"

section \<open>Creation\<close>

text \<open>The variable \<^verbatim>\<open>emptyCodeHash\<close> of \<^verbatim>\<open>evm.go\<close>.\<close>

definition vm_emptyCodeHash :: "crypto \<Rightarrow> Hash" where
  "vm_emptyCodeHash cr = Keccak256Hash cr []"

text \<open>After the run of the creation code: store the code, or revert.\<close>

definition finish_create ::
  "crypto \<Rightarrow> nat \<Rightarrow> Address \<Rightarrow> bytes \<times> vmError option \<times> EVM \<times> Contract \<Rightarrow> createResult" where
  "finish_create cr snapshot address = (\<lambda>(ret, err, evm, contract). do {
     let num = Some (BlockNumber (ctx evm));
     let maxCodeSizeExceeded = (IsEIP158 (chainConfig evm) num \<and> length ret > MaxCodeSize);
     let (err, contract, evm) =
       (if err = None \<and> \<not> maxCodeSizeExceeded
        then
          let createDataGas = word_of_nat (length ret) * CreateDataGas;
              (ok, contract) = UseGas contract createDataGas
          in if ok then (err, contract, evm\<lparr>sdb := SetCode cr (sdb evm) address ret\<rparr>)
             else (Some ErrCodeStoreOutOfGas, contract, evm)
        else (err, contract, evm));
     (contract, evm) \<leftarrow>
       (if maxCodeSizeExceeded \<or>
           (err \<noteq> None \<and> (IsHomestead (chainConfig evm) num \<or> err \<noteq> Some ErrCodeStoreOutOfGas))
        then do {
          s \<leftarrow> RevertToSnapshot cr (sdb evm) snapshot;
          let contract = (if err \<noteq> Some errExecutionReverted then snd (UseGas contract (Gas contract)) else contract);
          Some (contract, evm\<lparr>sdb := s\<rparr>)
        }
        else Some (contract, evm));
     let err = (if maxCodeSizeExceeded \<and> err = None then Some errMaxCodeSizeExceeded else err);
     evm \<leftarrow> trace_end evm ret err;
     Some (Done (ret, address, Gas contract, err, evm))
   })"

definition create_with ::
  "(runState \<Rightarrow> loopResult) \<Rightarrow> crypto \<Rightarrow> EVM \<Rightarrow> ContractRef \<Rightarrow> codeAndHash \<Rightarrow> u64 \<Rightarrow> int \<Rightarrow> Address \<Rightarrow> createResult" where
  "create_with loop cr evm clr cah gas v address =
     (if depth evm > unat CallCreateDepth then Some (Done ([], zeroAddress, gas, Some ErrDepth, evm))
      else
        let (can, s) = CanTransferFn (ctx evm) (sdb evm) (ContractRef_Address clr) v;
            evm = evm\<lparr>sdb := s\<rparr>
        in if \<not> can then Some (Done ([], zeroAddress, gas, Some ErrInsufficientBalance, evm))
        else
        let (nonce, s) = GetNonce cr (sdb evm) (ContractRef_Address clr);
            s = SetNonce cr s (ContractRef_Address clr) (nonce + 1);
            (contractHash, s) = GetCodeHash cr s address;
            (nonce1, s) = GetNonce cr s address;
            evm = evm\<lparr>sdb := s\<rparr>
        in if nonce1 \<noteq> 0 \<or> (contractHash \<noteq> zeroHash \<and> contractHash \<noteq> vm_emptyCodeHash cr)
        then Some (Done ([], zeroAddress, 0, Some ErrContractAddressCollision, evm))
        else do {
          let (snapshot, s) = Snapshot (sdb evm);
          let s = CreateAccount cr s address;
          let s = (if IsEIP158 (chainConfig evm) (Some (BlockNumber (ctx evm))) then SetNonce cr s address 1 else s);
          let s = TransferFn (ctx evm) s (ContractRef_Address clr) address v;
          let evm = evm\<lparr>sdb := s\<rparr>;
          let (contract, evm) = new_contract evm clr (AccountRef address) (Some v) gas;
          let contract = SetCodeOptionalHash contract (Some address) cah;
          if NoRecursion (vmConfig evm) \<and> depth evm > 0 then Some (Done ([], address, gas, None, evm))
          else do {
            evm \<leftarrow> trace_start evm;
            and_then (run loop cr evm contract [] False) (finish_create cr snapshot address)
          }
        })"

definition Create_with ::
  "(runState \<Rightarrow> loopResult) \<Rightarrow> crypto \<Rightarrow> EVM \<Rightarrow> ContractRef \<Rightarrow> bytes \<Rightarrow> u64 \<Rightarrow> int \<Rightarrow> createResult" where
  "Create_with loop cr evm clr code gas v = do {
     let (nonce, s) = GetNonce cr (sdb evm) (ContractRef_Address clr);
     let evm = evm\<lparr>sdb := s\<rparr>;
     contractAddr \<leftarrow> CreateAddress cr (ContractRef_Address clr) nonce;
     create_with loop cr evm clr \<lparr>cah_code = code, cah_hash = zeroHash\<rparr> gas v contractAddr
   }"

definition Create2_with ::
  "(runState \<Rightarrow> loopResult) \<Rightarrow> crypto \<Rightarrow> EVM \<Rightarrow> ContractRef \<Rightarrow> bytes \<Rightarrow> u64 \<Rightarrow> int \<Rightarrow> int \<Rightarrow> createResult" where
  "Create2_with loop cr evm clr code gas endowment salt = do {
     let (hash, cah) = codeAndHash_Hash cr \<lparr>cah_code = code, cah_hash = zeroHash\<rparr>;
     contractAddr \<leftarrow> CreateAddress2 cr (ContractRef_Address clr) (BigToHash salt) hash;
     create_with loop cr evm clr cah gas endowment contractAddr
   }"

section \<open>Closing the recursion\<close>

definition host_of :: "crypto \<Rightarrow> (runState \<Rightarrow> loopResult) \<Rightarrow> host" where
  "host_of cr loop = \<lparr>h_crypto = cr, h_Call = Call_with loop cr, h_CallCode = CallCode_with loop cr,
     h_DelegateCall = DelegateCall_with loop cr, h_StaticCall = StaticCall_with loop cr,
     h_Create = Create_with loop cr, h_Create2 = Create2_with loop cr\<rparr>"

primrec run_loop :: "crypto \<Rightarrow> nat \<Rightarrow> runState \<Rightarrow> loopResult" where
  "run_loop cr 0 rs = Some OutOfFuel"
| "run_loop cr (Suc n) rs =
     and_then (Run_step (host_of cr (run_loop cr n)) rs) (\<lambda>r. case r of
       Return ret err rs \<Rightarrow> Some (Done (ret, err, rs))
     | Continue rs \<Rightarrow> run_loop cr n rs)"

definition Call :: "crypto \<Rightarrow> nat \<Rightarrow> EVM \<Rightarrow> ContractRef \<Rightarrow> Address \<Rightarrow> bytes \<Rightarrow> u64 \<Rightarrow> int \<Rightarrow> callResult" where
  "Call cr fuel = Call_with (run_loop cr fuel) cr"

definition CallCode :: "crypto \<Rightarrow> nat \<Rightarrow> EVM \<Rightarrow> ContractRef \<Rightarrow> Address \<Rightarrow> bytes \<Rightarrow> u64 \<Rightarrow> int \<Rightarrow> callResult" where
  "CallCode cr fuel = CallCode_with (run_loop cr fuel) cr"

definition DelegateCall :: "crypto \<Rightarrow> nat \<Rightarrow> EVM \<Rightarrow> ContractRef \<Rightarrow> Address \<Rightarrow> bytes \<Rightarrow> u64 \<Rightarrow> callResult" where
  "DelegateCall cr fuel = DelegateCall_with (run_loop cr fuel) cr"

definition StaticCall :: "crypto \<Rightarrow> nat \<Rightarrow> EVM \<Rightarrow> ContractRef \<Rightarrow> Address \<Rightarrow> bytes \<Rightarrow> u64 \<Rightarrow> callResult" where
  "StaticCall cr fuel = StaticCall_with (run_loop cr fuel) cr"

definition Create :: "crypto \<Rightarrow> nat \<Rightarrow> EVM \<Rightarrow> ContractRef \<Rightarrow> bytes \<Rightarrow> u64 \<Rightarrow> int \<Rightarrow> createResult" where
  "Create cr fuel = Create_with (run_loop cr fuel) cr"

definition Create2 :: "crypto \<Rightarrow> nat \<Rightarrow> EVM \<Rightarrow> ContractRef \<Rightarrow> bytes \<Rightarrow> u64 \<Rightarrow> int \<Rightarrow> int \<Rightarrow> createResult" where
  "Create2 cr fuel = Create2_with (run_loop cr fuel) cr"

end
