(* ===== verification/Machine.thy ===== *)
theory Machine
  imports Interpreter State_Revert
begin

text \<open>
  The contracts between the parts of the virtual machine: what a machine keeps of its configuration and
  how its state moves on (\<open>evm_step\<close>), what the methods of \<^verbatim>\<open>EVM\<close> promise to the instructions (locale
  \<open>machine_host\<close>), and what an instruction promises to the interpreter (\<open>exec_post\<close>).
\<close>

section \<open>Partial results\<close>

text \<open>\<open>upon m Q\<close>: if \<open>m\<close> does not panic, its result satisfies \<open>Q\<close>.\<close>

definition upon :: "'a option \<Rightarrow> ('a \<Rightarrow> bool) \<Rightarrow> bool" where
  "upon m Q \<longleftrightarrow> (\<forall>x. m = Some x \<longrightarrow> Q x)"

named_theorems upon_intros \<open>syntax-directed rules for partial results\<close>

lemma upon_bind [upon_intros]: "(\<And>x. m = Some x \<Longrightarrow> upon (k x) Q) \<Longrightarrow> upon (m \<bind> k) Q"
  by (cases m) (auto simp: upon_def)

lemma upon_Some [upon_intros]: "Q x \<Longrightarrow> upon (Some x) Q"
  by (simp add: upon_def)

lemma upon_None [upon_intros]: "upon None Q"
  by (simp add: upon_def)

lemma upon_if [upon_intros]: "(b \<Longrightarrow> upon m Q) \<Longrightarrow> (\<not> b \<Longrightarrow> upon m' Q) \<Longrightarrow> upon (if b then m else m') Q"
  by simp

lemma upon_prod [upon_intros]: "(\<And>x y. p = (x, y) \<Longrightarrow> upon (k x y) Q) \<Longrightarrow> upon (case p of (x, y) \<Rightarrow> k x y) Q"
  by (cases p) simp

lemma upon_sum [upon_intros]:
  "(\<And>x. p = Inl x \<Longrightarrow> upon (k x) Q) \<Longrightarrow> (\<And>x. p = Inr x \<Longrightarrow> upon (k' x) Q) \<Longrightarrow>
   upon (case p of Inl x \<Rightarrow> k x | Inr x \<Rightarrow> k' x) Q"
  by (cases p) simp_all

lemma upon_option [upon_intros]:
  "(p = None \<Longrightarrow> upon k Q) \<Longrightarrow> (\<And>x. p = Some x \<Longrightarrow> upon (k' x) Q) \<Longrightarrow>
   upon (case p of None \<Rightarrow> k | Some x \<Rightarrow> k' x) Q"
  by (cases p) simp_all

lemma upon_let [upon_intros]: "upon (k v) Q \<Longrightarrow> upon (Let v k) Q"
  by simp

lemma upon_mono: "upon m P \<Longrightarrow> (\<And>x. P x \<Longrightarrow> Q x) \<Longrightarrow> upon m Q"
  by (simp add: upon_def)

lemma uponD: "upon m Q \<Longrightarrow> m = Some x \<Longrightarrow> Q x"
  by (simp add: upon_def)

section \<open>The machine between two points of a run\<close>

definition evm_frame where
  "evm_frame e = (ctx e, depth e, chainConfig e, chainRules e, vmConfig e, gasTable e, instrSet e, readOnly e)"

definition evm_ok :: "crypto \<Rightarrow> EVM \<Rightarrow> bool" where
  "evm_ok cr e \<longleftrightarrow>
     crypto_ok cr \<and> state_wf (sdb e) \<and>
     CanTransferFn (ctx e) = CanTransfer cr \<and> TransferFn (ctx e) = Transfer cr \<and>
     gasTable e = ChainConfig_GasTable (chainConfig e) (Some (BlockNumber (ctx e))) \<and>
     instrSet e = NewEVMInterpreter_set (chainConfig e) (BlockNumber (ctx e)) \<and>
     chainRules e = ChainConfig_Rules (chainConfig e) (Some (BlockNumber (ctx e)))"

definition evm_step :: "crypto \<Rightarrow> EVM \<Rightarrow> EVM \<Rightarrow> bool" where
  "evm_step cr e e' \<longleftrightarrow> evm_frame e' = evm_frame e \<and> extends cr (sdb e) (sdb e')"

lemma evm_okD [dest]:
  "evm_ok cr e \<Longrightarrow> crypto_ok cr" "evm_ok cr e \<Longrightarrow> state_wf (sdb e)"
  by (simp_all add: evm_ok_def)

declare extends_trans [trans]

lemma evm_step_refl [intro, simp]: "evm_ok cr e \<Longrightarrow> evm_step cr e e"
  by (simp add: evm_step_def evm_ok_def extends_refl)

lemma evm_step_trans [trans]: "evm_step cr e e1 \<Longrightarrow> evm_step cr e1 e2 \<Longrightarrow> evm_step cr e e2"
  by (auto simp: evm_step_def intro: extends_trans)

lemma evm_step_ok: "evm_ok cr e \<Longrightarrow> evm_step cr e e' \<Longrightarrow> evm_ok cr e'"
  by (auto simp: evm_step_def evm_ok_def evm_frame_def dest: extends_wf)

lemma evm_frame_updates [simp]:
  "evm_frame (e\<lparr>sdb := s\<rparr>) = evm_frame e" "evm_frame (e\<lparr>callGasTemp := g\<rparr>) = evm_frame e"
  "evm_frame (e\<lparr>returnData := r\<rparr>) = evm_frame e" "evm_frame (e\<lparr>tracer := t\<rparr>) = evm_frame e"
  "evm_frame (e\<lparr>jumpdests_of := j\<rparr>) = evm_frame e" "evm_frame (e\<lparr>abort := a\<rparr>) = evm_frame e"
  by (simp_all add: evm_frame_def)

lemma evm_step_sdb [simp]: "evm_step cr e (e1\<lparr>sdb := s\<rparr>) \<longleftrightarrow> evm_frame e1 = evm_frame e \<and> extends cr (sdb e) s"
  by (simp add: evm_step_def)

lemma evm_step_other [simp]:
  "evm_step cr e (e1\<lparr>callGasTemp := g\<rparr>) = evm_step cr e e1"
  "evm_step cr e (e1\<lparr>returnData := r\<rparr>) = evm_step cr e e1"
  "evm_step cr e (e1\<lparr>tracer := t\<rparr>) = evm_step cr e e1"
  "evm_step cr e (e1\<lparr>jumpdests_of := j\<rparr>) = evm_step cr e e1"
  "evm_step cr e (e1\<lparr>abort := a\<rparr>) = evm_step cr e e1"
  by (simp_all add: evm_step_def)

section \<open>What the methods of the machine promise\<close>

definition call_post :: "crypto \<Rightarrow> nat \<Rightarrow> EVM \<Rightarrow> u64 \<Rightarrow> callResult \<Rightarrow> bool" where
  "call_post cr n e gas r \<longleftrightarrow> upon r (\<lambda>r. case r of
     OutOfFuel \<Rightarrow> n \<le> unat gas
   | Done (ret, left, err, e') \<Rightarrow> unat left \<le> unat gas \<and> evm_step cr e e' \<and>
       (err \<noteq> None \<longrightarrow> same_view cr (sdb e') (sdb e)) \<and>
       (err \<notin> {None, Some errExecutionReverted, Some ErrDepth, Some ErrInsufficientBalance} \<longrightarrow> left = 0))"

definition create_post :: "crypto \<Rightarrow> nat \<Rightarrow> EVM \<Rightarrow> u64 \<Rightarrow> createResult \<Rightarrow> bool" where
  "create_post cr n e gas r \<longleftrightarrow> upon r (\<lambda>r. case r of
     OutOfFuel \<Rightarrow> n \<le> unat gas
   | Done (ret, a, left, err, e') \<Rightarrow> unat left \<le> unat gas \<and> evm_step cr e e')"

locale machine_host =
  fixes cr :: crypto
    and h :: host
    and n :: nat
  assumes crypto_law: "h_crypto h = cr"
    and call_law: "evm_ok cr e \<Longrightarrow> call_post cr n e g (h_Call h e clr a inp g v)"
    and callcode_law: "evm_ok cr e \<Longrightarrow> call_post cr n e g (h_CallCode h e clr a inp g v)"
    and delegatecall_law: "evm_ok cr e \<Longrightarrow> call_post cr n e g (h_DelegateCall h e clr a inp g)"
    and staticcall_law: "evm_ok cr e \<Longrightarrow> call_post cr n e g (h_StaticCall h e clr a inp g)"
    and create_law: "evm_ok cr e \<Longrightarrow> create_post cr n e g (h_Create h e clr code g v)"
    and create2_law: "evm_ok cr e \<Longrightarrow> create_post cr n e g (h_Create2 h e clr code g v salt)"

section \<open>What an instruction promises\<close>

text \<open>
  Within the budget \<open>B\<close> of gas: the gas left does not exceed it, and a run that is cut off needed
  more fuel than it.
\<close>

definition exec_post :: "crypto \<Rightarrow> nat \<Rightarrow> nat \<Rightarrow> Frame \<Rightarrow> execResult \<Rightarrow> bool" where
  "exec_post cr n B f r \<longleftrightarrow> upon r (\<lambda>r. case r of
     OutOfFuel \<Rightarrow> n \<le> B
   | Done (res, err, f') \<Rightarrow> unat (Gas (f_contract f')) \<le> B \<and> evm_step cr (f_evm f) (f_evm f'))"

text \<open>An instruction that stays within the gas of its frame.\<close>

definition plain :: "crypto \<Rightarrow> executionFunc \<Rightarrow> bool" where
  "plain cr ex \<longleftrightarrow> (\<forall>h n f. machine_host cr h n \<longrightarrow> evm_ok cr (f_evm f) \<longrightarrow>
     exec_post cr n (unat (Gas (f_contract f))) f (ex h f))"

text \<open>An instruction that only changes the program counter, the memory and the stack.\<close>

definition local_instr :: "executionFunc \<Rightarrow> bool" where
  "local_instr ex \<longleftrightarrow> (\<forall>h f. upon (ex h f) (\<lambda>r. case r of
     OutOfFuel \<Rightarrow> False
   | Done (res, err, f') \<Rightarrow> f_contract f' = f_contract f \<and> f_evm f' = f_evm f))"

lemma local_plain: "local_instr ex \<Longrightarrow> plain cr ex"
  unfolding plain_def
proof (intro allI impI)
  fix h :: host and n :: nat and f :: Frame
  assume "local_instr ex" "evm_ok cr (f_evm f)"
  then have "upon (ex h f) (\<lambda>r. case r of
     OutOfFuel \<Rightarrow> False
   | Done (res, err, f') \<Rightarrow> f_contract f' = f_contract f \<and> f_evm f' = f_evm f)" "evm_ok cr (f_evm f)"
    by (simp_all add: local_instr_def)
  then show "exec_post cr n (unat (Gas (f_contract f))) f (ex h f)"
    unfolding exec_post_def by (elim upon_mono) (auto split: outcome.splits)
qed

named_theorems local_instrs \<open>the instructions that only change the frame\<close>

lemma ret_nil_upon [upon_intros]: "Q (Done ([], None, f)) \<Longrightarrow> upon (ret_nil f) Q"
  by (simp add: ret_nil_def upon_Some)

lemma local_arith [local_instrs]:
  "local_instr opAdd" "local_instr opSub" "local_instr opMul" "local_instr opDiv" "local_instr opSdiv"
  "local_instr opMod" "local_instr opSmod" "local_instr opExp" "local_instr opSignExtend" "local_instr opAddmod"
  "local_instr opMulmod"
  unfolding local_instr_def opAdd_def opSub_def opMul_def opDiv_def opSdiv_def opMod_def opSmod_def opExp_def
    opSignExtend_def opAddmod_def opMulmod_def
  by (intro allI upon_intros; simp)+

lemma local_logic [local_instrs]:
  "local_instr opNot" "local_instr opLt" "local_instr opGt" "local_instr opSlt" "local_instr opSgt"
  "local_instr opEq" "local_instr opIszero" "local_instr opAnd" "local_instr opOr" "local_instr opXor"
  "local_instr opByte" "local_instr opSHL" "local_instr opSHR" "local_instr opSAR"
  unfolding local_instr_def opNot_def opLt_def opGt_def opSlt_def opSgt_def opEq_def opIszero_def opAnd_def
    opOr_def opXor_def opByte_def opSHL_def opSHR_def opSAR_def
  by (intro allI upon_intros; simp)+

lemma local_env [local_instrs]:
  "local_instr opAddress" "local_instr opOrigin" "local_instr opCaller" "local_instr opCallValue"
  "local_instr opCallDataLoad" "local_instr opCallDataSize" "local_instr opCallDataCopy" "local_instr opReturnDataSize"
  "local_instr opReturnDataCopy" "local_instr opCodeSize" "local_instr opCodeCopy" "local_instr opGasprice"
  "local_instr opBlockhash" "local_instr opCoinbase" "local_instr opTimestamp" "local_instr opNumber"
  "local_instr opDifficulty" "local_instr opGasLimit"
  unfolding local_instr_def opAddress_def opOrigin_def opCaller_def opCallValue_def opCallDataLoad_def
    opCallDataSize_def opCallDataCopy_def opReturnDataSize_def opReturnDataCopy_def opCodeSize_def opCodeCopy_def
    opGasprice_def opBlockhash_def opCoinbase_def opTimestamp_def opNumber_def opDifficulty_def opGasLimit_def
  by (intro allI upon_intros; simp)+

lemma local_flow [local_instrs]:
  "local_instr opPop" "local_instr opMload" "local_instr opMstore" "local_instr opMstore8" "local_instr opJumpdest"
  "local_instr opPc" "local_instr opMsize" "local_instr opGas" "local_instr opReturn" "local_instr opRevert"
  "local_instr opStop" "local_instr opPush1" "local_instr (makePush sz bs)" "local_instr (makeDup k)"
  "local_instr (makeSwap k)"
  unfolding local_instr_def opPop_def opMload_def opMstore_def opMstore8_def opJumpdest_def opPc_def opMsize_def
    opGas_def opReturn_def opRevert_def opStop_def opPush1_def makePush_def makeDup_def makeSwap_def
  by (intro allI upon_intros; simp)+

section \<open>Instructions that use the state\<close>

lemma plainI:
  assumes "\<And>h n f. machine_host cr h n \<Longrightarrow> h_crypto h = cr \<Longrightarrow> evm_ok cr (f_evm f) \<Longrightarrow>
    upon (ex h f) (\<lambda>r. case r of
     OutOfFuel \<Rightarrow> n \<le> unat (Gas (f_contract f))
   | Done (res, err, f') \<Rightarrow> unat (Gas (f_contract f')) \<le> unat (Gas (f_contract f)) \<and>
       evm_step cr (f_evm f) (f_evm f'))"
  shows "plain cr ex"
  using assms machine_host.crypto_law by (simp add: plain_def exec_post_def)

lemma read_extends:
  "state_wf s \<Longrightarrow> GetBalance cr s a = (b, s') \<Longrightarrow> extends cr s s'"
  "state_wf s \<Longrightarrow> GetCode cr s a = (c, s') \<Longrightarrow> extends cr s s'"
  "state_wf s \<Longrightarrow> GetCodeSize cr s a = (k, s') \<Longrightarrow> extends cr s s'"
  "state_wf s \<Longrightarrow> GetCodeHash cr s a = (c, s') \<Longrightarrow> extends cr s s'"
  "state_wf s \<Longrightarrow> GetNonce cr s a = (m, s') \<Longrightarrow> extends cr s s'"
  "state_wf s \<Longrightarrow> GetState cr s a x = (c, s') \<Longrightarrow> extends cr s s'"
  "state_wf s \<Longrightarrow> GetCommittedState cr s a x = (c, s') \<Longrightarrow> extends cr s s'"
  "state_wf s \<Longrightarrow> Empty cr s a = (e, s') \<Longrightarrow> extends cr s s'"
  "state_wf s \<Longrightarrow> Exist cr s a = (e, s') \<Longrightarrow> extends cr s s'"
  "state_wf s \<Longrightarrow> HasSuicided cr s a = (e, s') \<Longrightarrow> extends cr s s'"
  "state_wf s \<Longrightarrow> CanTransfer cr s a v = (e, s') \<Longrightarrow> extends cr s s'"
  by (drule (1) GetBalance_read GetCode_read GetCodeSize_read GetCodeHash_read GetNonce_read GetState_read
      GetCommittedState_read Empty_read Exist_read HasSuicided_read CanTransfer_read, simp add: read_ok_extends)+

lemma plain_sha3: "plain cr opSha3"
  unfolding opSha3_def
  by (rule plainI, intro upon_intros) (auto intro: AddPreimage_extends)

lemma plain_state:
  "plain cr opBalance" "plain cr opExtCodeSize" "plain cr opExtCodeCopy" "plain cr opSload"
  unfolding opBalance_def opExtCodeSize_def opExtCodeCopy_def opSload_def
  by (rule plainI, intro upon_intros; auto intro: read_extends)+

lemma plain_extcodehash: "plain cr opExtCodeHash"
  unfolding opExtCodeHash_def
  by (rule plainI, intro upon_intros)
    (auto intro: read_extends extends_trans [OF read_extends(8) read_extends(4)] dest: read_extends(8) extends_wf)

lemma plain_sstore: "plain cr opSstore"
  unfolding opSstore_def
  by (rule plainI, intro upon_intros) (auto intro: SetState_extends)

lemma suicide_extends:
  assumes "crypto_ok cr" "state_wf s0" "GetBalance cr s0 a = (b, s)"
    "Suicide cr (AddBalance cr s x b) a = (ok, s')"
  shows "extends cr s0 s'"
proof -
  from assms have e: "extends cr s0 s" by (blast intro: read_extends(1))
  also from assms(1) e have e2: "extends cr s (AddBalance cr s x b)"
    by (blast intro: AddBalance_extends dest: extends_wf)
  also from Suicide_extends [OF assms(1) extends_wf [OF e2] assms(4)] have "extends cr (AddBalance cr s x b) s'" .
  finally show ?thesis .
qed

lemma plain_suicide: "plain cr opSuicide"
  unfolding opSuicide_def
  by (rule plainI, intro upon_intros) (auto intro: suicide_extends)

lemma plain_log: "plain cr (makeLog k)"
  unfolding makeLog_def
  by (rule plainI, intro upon_intros) (auto intro: AddLog_extends)

lemma validJumpdest_keeps: "upon (validJumpdest c jd pos) (\<lambda>(ok, c', jd'). Gas c' = Gas c)"
  unfolding validJumpdest_def by (intro upon_intros) simp_all

lemma f_validJumpdest_keeps:
  "evm_ok cr (f_evm f) \<Longrightarrow> f_validJumpdest f pos = Some (ok, f') \<Longrightarrow>
   evm_step cr (f_evm f) (f_evm f') \<and> Gas (f_contract f') = Gas (f_contract f)"
  using uponD [OF validJumpdest_keeps [of "f_contract f" "jumpdests_of (f_evm f)" pos]]
  by (auto simp: f_validJumpdest_def split: Option.bind_splits)

lemma plain_jump: "plain cr opJump" "plain cr opJumpi"
  unfolding opJump_def opJumpi_def
  by (rule plainI, intro upon_intros; clarsimp; (drule (1) f_validJumpdest_keeps)?; simp)+

section \<open>Gas functions\<close>

definition dyn_ok :: "crypto \<Rightarrow> gasFunc \<Rightarrow> (EVM \<Rightarrow> nat) \<Rightarrow> bool" where
  "dyn_ok cr dyn lo \<longleftrightarrow> (\<forall>e c st mem ms. evm_ok cr e \<longrightarrow>
     upon (dyn cr (gasTable e) e c st mem ms) (\<lambda>(r, e', mem').
       evm_step cr e e' \<and> store mem' = store mem \<and> (\<forall>cost. r = Inr cost \<longrightarrow> lo e \<le> unat cost)))"

lemma dyn_okI:
  assumes "\<And>e c st mem ms. evm_ok cr e \<Longrightarrow>
     upon (dyn cr (gasTable e) e c st mem ms) (\<lambda>(r, e', mem').
       evm_step cr e e' \<and> store mem' = store mem \<and> (\<forall>cost. r = Inr cost \<longrightarrow> lo e \<le> unat cost))"
  shows "dyn_ok cr dyn lo"
  using assms by (simp add: dyn_ok_def)

lemma memoryGasCost_store: "memoryGasCost mem ms = (r, mem') \<Longrightarrow> store mem' = store mem"
  by (auto simp: memoryGasCost_def Let_def split: if_splits)

lemma SafeAdd_le: "SafeAdd a b = (g, ov) \<Longrightarrow> \<not> ov \<Longrightarrow> unat a \<le> unat g \<and> unat b \<le> unat g"
  using SafeAdd_exact [of a b] by simp

lemma gasTable_values:
  assumes "evm_ok cr e"
  shows "20 \<le> unat (gt_ExtcodeSize (gasTable e))" "20 \<le> unat (gt_ExtcodeCopy (gasTable e))"
    "20 \<le> unat (gt_Balance (gasTable e))" "50 \<le> unat (gt_SLoad (gasTable e))"
    "40 \<le> unat (gt_Calls (gasTable e))" "unat (gt_Calls (gasTable e)) \<le> 700"
    "instrSet e = ConstantinopleSet \<Longrightarrow> 400 \<le> unat (gt_ExtcodeHash (gasTable e))"
  using assms by (auto simp: evm_ok_def ChainConfig_GasTable_def NewEVMInterpreter_set_def GasTableHomestead_def
      GasTableEIP150_def GasTableEIP158_def GasTableConstantinople_def split: if_splits)

lemma dyn_mem1:
  "dyn_ok cr gasMLoad (\<lambda>_. 3)" "dyn_ok cr gasMStore (\<lambda>_. 3)" "dyn_ok cr gasMStore8 (\<lambda>_. 3)"
  "dyn_ok cr gasCreate (\<lambda>_. 32000)"
  unfolding gasMLoad_def gasMStore_def gasMStore8_def gasCreate_def
  by (rule dyn_okI, intro upon_intros; auto dest: memoryGasCost_store SafeAdd_le)+

lemma dyn_return: "dyn_ok cr gasReturn (\<lambda>_. 0)" "dyn_ok cr gasRevert (\<lambda>_. 0)"
  unfolding gasReturn_def gasRevert_def
  by (rule dyn_okI, intro upon_intros; auto dest: memoryGasCost_store)+

lemma dyn_copy:
  "dyn_ok cr gasCallDataCopy (\<lambda>_. 3)" "dyn_ok cr gasReturnDataCopy (\<lambda>_. 3)" "dyn_ok cr gasCodeCopy (\<lambda>_. 3)"
  "dyn_ok cr gasSha3 (\<lambda>_. 30)" "dyn_ok cr gasCreate2 (\<lambda>_. 32000)"
  unfolding gasCallDataCopy_def gasReturnDataCopy_def gasCodeCopy_def gasSha3_def gasCreate2_def
  by (rule dyn_okI, intro upon_intros; auto dest!: memoryGasCost_store SafeAdd_le)+

lemma dyn_extcodecopy: "dyn_ok cr gasExtCodeCopy (\<lambda>_. 20)"
  unfolding gasExtCodeCopy_def
  by (rule dyn_okI, intro upon_intros) (auto dest!: memoryGasCost_store SafeAdd_le dest: gasTable_values(2))

lemma dyn_const:
  "dyn_ok cr gasBalance (\<lambda>_. 20)" "dyn_ok cr gasExtCodeSize (\<lambda>_. 20)" "dyn_ok cr gasSLoad (\<lambda>_. 50)"
  "dyn_ok cr gasExtCodeHash (\<lambda>e. if instrSet e = ConstantinopleSet then 400 else 0)"
  unfolding gasBalance_def gasExtCodeSize_def gasSLoad_def gasExtCodeHash_def
  by (rule dyn_okI, intro upon_intros; use gasTable_values in force)+

lemma dyn_exp: "dyn_ok cr gasExp (\<lambda>_. 10)"
  unfolding gasExp_def
  by (rule dyn_okI, intro upon_intros) (auto dest!: SafeAdd_le)

lemma dyn_log: "dyn_ok cr (makeGasLog k) (\<lambda>_. 375)"
  unfolding makeGasLog_def
  by (rule dyn_okI, intro upon_intros) (auto dest!: memoryGasCost_store SafeAdd_le)

text \<open>The same facts as rules that move a goal one operation back.\<close>

named_theorems back_steps \<open>one more operation after a state that extends the first\<close>

lemma read_back [back_steps]:
  "GetBalance cr s a = (b, s') \<Longrightarrow> extends cr s0 s \<Longrightarrow> extends cr s0 s'"
  "GetCode cr s a = (c, s') \<Longrightarrow> extends cr s0 s \<Longrightarrow> extends cr s0 s'"
  "GetCodeHash cr s a = (c, s') \<Longrightarrow> extends cr s0 s \<Longrightarrow> extends cr s0 s'"
  "GetNonce cr s a = (m, s') \<Longrightarrow> extends cr s0 s \<Longrightarrow> extends cr s0 s'"
  "GetState cr s a x = (c, s') \<Longrightarrow> extends cr s0 s \<Longrightarrow> extends cr s0 s'"
  "GetCommittedState cr s a x = (c, s') \<Longrightarrow> extends cr s0 s \<Longrightarrow> extends cr s0 s'"
  "Empty cr s a = (e, s') \<Longrightarrow> extends cr s0 s \<Longrightarrow> extends cr s0 s'"
  "Exist cr s a = (e, s') \<Longrightarrow> extends cr s0 s \<Longrightarrow> extends cr s0 s'"
  "HasSuicided cr s a = (e, s') \<Longrightarrow> extends cr s0 s \<Longrightarrow> extends cr s0 s'"
  "CanTransfer cr s a v = (e, s') \<Longrightarrow> extends cr s0 s \<Longrightarrow> extends cr s0 s'"
  by (rule extends_trans, assumption, erule read_extends [OF extends_wf, rotated], assumption)+

lemma write_back [back_steps]:
  "extends cr s0 s \<Longrightarrow> extends cr s0 (AddRefund s g)"
  "SubRefund s g = Some s' \<Longrightarrow> extends cr s0 s \<Longrightarrow> extends cr s0 s'"
  "crypto_ok cr \<Longrightarrow> extends cr s0 s \<Longrightarrow> extends cr s0 (SetNonce cr s a m)"
  "crypto_ok cr \<Longrightarrow> extends cr s0 s \<Longrightarrow> extends cr s0 (SetCode cr s a c)"
  "crypto_ok cr \<Longrightarrow> extends cr s0 s \<Longrightarrow> extends cr s0 (CreateAccount cr s a)"
  "crypto_ok cr \<Longrightarrow> extends cr s0 s \<Longrightarrow> extends cr s0 (AddBalance cr s a v)"
  "crypto_ok cr \<Longrightarrow> extends cr s0 s \<Longrightarrow> extends cr s0 (Transfer cr s a b v)"
  by (rule extends_trans, assumption,
      blast intro: AddRefund_extends' SubRefund_extends SetNonce_extends SetCode_extends CreateAccount_extends
        AddBalance_extends Transfer_extends dest: extends_wf)+

lemma evm_extends_refl: "evm_ok cr e \<Longrightarrow> extends cr (sdb e) (sdb e)"
  by (auto intro: extends_refl)

lemma dyn_sstore: "dyn_ok cr gasSStore (\<lambda>_. 200)"
  unfolding gasSStore_def
  by (rule dyn_okI, intro upon_intros; auto split: if_splits;
      (erule evm_extends_refl | rule write_back(1) | erule write_back(2) | erule read_back)+)

lemma gasSuicide_eip150_step:
  "evm_ok cr e \<Longrightarrow> upon (gasSuicide_eip150 cr gt e c st) (\<lambda>(g, e'). evm_step cr e e')"
  unfolding gasSuicide_eip150_def
  by (intro upon_intros; simp; blast intro: back_steps evm_extends_refl)

lemma dyn_suicide: "dyn_ok cr gasSuicide (\<lambda>_. 0)"
proof (rule dyn_okI)
  fix e c st mem ms
  assume ok: "evm_ok cr e"
  have step: "evm_step cr e e1"
    if "(if IsEIP150 (chainConfig e) (Some (BlockNumber (ctx e)))
        then gasSuicide_eip150 cr (gasTable e) e c st else Some (0, e)) = Some (g, e1)" for g e1
    using that ok uponD [OF gasSuicide_eip150_step [OF ok]] by (auto split: if_splits)
  show "upon (gasSuicide cr (gasTable e) e c st mem ms) (\<lambda>(r, e', mem'). evm_step cr e e' \<and> store mem' = store mem \<and>
      (\<forall>cost. r = Inr cost \<longrightarrow> 0 \<le> unat cost))"
    unfolding gasSuicide_def
    by (intro upon_intros; clarsimp; drule step; auto simp: evm_step_def intro: back_steps)
qed

subsection \<open>Gas of the calls\<close>

text \<open>The cost of a call covers the gas handed to the callee on top of the cost \<open>lo\<close> of the call itself.\<close>

definition call_dyn :: "crypto \<Rightarrow> gasFunc \<Rightarrow> (Stack \<Rightarrow> nat) \<Rightarrow> bool" where
  "call_dyn cr dyn lo \<longleftrightarrow> (\<forall>e c st mem ms. evm_ok cr e \<longrightarrow>
     upon (dyn cr (gasTable e) e c st mem ms) (\<lambda>(r, e', mem').
       evm_step cr e e' \<and> store mem' = store mem \<and>
       (\<forall>cost. r = Inr cost \<longrightarrow> lo st + unat (callGasTemp e') \<le> unat cost)))"

lemma call_dynI:
  assumes "\<And>e c st mem ms. evm_ok cr e \<Longrightarrow>
     upon (dyn cr (gasTable e) e c st mem ms) (\<lambda>(r, e', mem').
       evm_step cr e e' \<and> store mem' = store mem \<and>
       (\<forall>cost. r = Inr cost \<longrightarrow> lo st + unat (callGasTemp e') \<le> unat cost))"
  shows "call_dyn cr dyn lo"
  using assms by (simp add: call_dyn_def)

lemma SafeAdd_ok: "SafeAdd a b = (g, ov) \<Longrightarrow> \<not> ov \<Longrightarrow> unat g = unat a + unat b"
  using SafeAdd_exact [of a b] by simp

lemma gasCallee_spec:
  "upon (gasCallee gt e c st mem gas) (\<lambda>(r, e', mem'). (\<exists>t. e' = e\<lparr>callGasTemp := t\<rparr>) \<and> mem' = mem \<and>
     (\<forall>cost. r = Inr cost \<longrightarrow> unat cost = unat gas + unat (callGasTemp e')))"
  unfolding gasCallee_def
  by (intro upon_intros) (auto dest: SafeAdd_ok)

text \<open>The value moved by a call that moves value is the third item of the stack.\<close>

definition value_cost :: "nat \<Rightarrow> Stack \<Rightarrow> nat" where
  "value_cost c st = (case Back st 2 of None \<Rightarrow> 0 | Some v \<Rightarrow> if v \<noteq> 0 then c else 0)"

lemma upon_callee:
  assumes "evm_step cr e e1" "store mem1 = store mem" "lo \<le> unat gas"
  shows "upon (gasCallee gt e1 c st mem1 gas) (\<lambda>(r, e', mem').
       evm_step cr e e' \<and> store mem' = store mem \<and>
       (\<forall>cost. r = Inr cost \<longrightarrow> lo + unat (callGasTemp e') \<le> unat cost))"
  using gasCallee_spec [of gt e1 c st mem1 gas] by (rule upon_mono) (use assms in auto)

lemma dyn_delegatecall: "call_dyn cr gasDelegateCall (\<lambda>_. 40)" "call_dyn cr gasStaticCall (\<lambda>_. 40)"
  unfolding gasDelegateCall_def gasStaticCall_def
  by (rule call_dynI, intro upon_intros upon_callee;
      auto dest!: memoryGasCost_store SafeAdd_le dest: gasTable_values(5))+

lemma small_sum_u64:
  assumes "unat a \<le> 100000" "unat b \<le> 100000"
  shows "unat (a + b :: u64) = unat a + unat b"
  using assms by (intro unat_add_u64) simp

text \<open>The cost of a call before the memory and the callee are paid.\<close>

lemma calls_cost:
  assumes "evm_ok cr e" "x = 0 \<or> x = CallNewAccountGas" "y = 0 \<or> y = CallValueTransferGas"
  shows "unat (gt_Calls (gasTable e) + x + y) = unat (gt_Calls (gasTable e)) + unat x + unat y"
  using assms gasTable_values(6) [OF assms(1)]
  by (auto simp: unat_add_u64)

lemma dyn_callcode: "call_dyn cr gasCallCode (\<lambda>st. 40 + value_cost 9000 st)"
proof (rule call_dynI)
  fix e c st mem ms
  assume ok: "evm_ok cr e"
  have "40 + value_cost 9000 st \<le> unat (if v \<noteq> 0 then gt_Calls (gasTable e) + CallValueTransferGas else gt_Calls (gasTable e))"
    if "Back st 2 = Some v" for v
    using that calls_cost [OF ok, of 0 CallValueTransferGas] gasTable_values(5) [OF ok] by (simp add: value_cost_def)
  then show "upon (gasCallCode cr (gasTable e) e c st mem ms) (\<lambda>(r, e', mem').
       evm_step cr e e' \<and> store mem' = store mem \<and>
       (\<forall>cost. r = Inr cost \<longrightarrow> 40 + value_cost 9000 st + unat (callGasTemp e') \<le> unat cost))"
    unfolding gasCallCode_def using ok
    by (intro upon_intros upon_callee) (force dest: memoryGasCost_store SafeAdd_le)+
qed

lemma new_account_cost_spec:
  assumes "evm_ok cr e" "new_account_cost cr e v a gas = (g, e1)"
  shows "evm_step cr e e1" "g = gas + 0 \<or> g = gas + CallNewAccountGas"
  using assms
  by (auto simp: new_account_cost_def Let_def split: if_splits prod.splits) (erule read_back, erule evm_extends_refl)+

lemma dyn_call: "call_dyn cr gasCall (\<lambda>st. 40 + value_cost 9000 st)"
proof (rule call_dynI)
  fix e c st mem ms
  assume ok: "evm_ok cr e"
  have *: "evm_step cr e e1 \<and> 40 + value_cost 9000 st \<le> unat (if v \<noteq> 0 then g + CallValueTransferGas else g)"
    if "Back st 2 = Some v" "new_account_cost cr e (v \<noteq> 0) a (gt_Calls (gasTable e)) = (g, e1)" for v a g e1
  proof -
    from new_account_cost_spec(2) [OF ok that(2)] obtain x
      where x: "g = gt_Calls (gasTable e) + x" "x = 0 \<or> x = CallNewAccountGas" by blast
    show ?thesis
      using that(1) x(1) new_account_cost_spec(1) [OF ok that(2)] gasTable_values(5) [OF ok]
        calls_cost [OF ok x(2), of 0] calls_cost [OF ok x(2), of CallValueTransferGas]
      by (simp add: value_cost_def)
  qed
  show "upon (gasCall cr (gasTable e) e c st mem ms) (\<lambda>(r, e', mem').
       evm_step cr e e' \<and> store mem' = store mem \<and>
       (\<forall>cost. r = Inr cost \<longrightarrow> 40 + value_cost 9000 st + unat (callGasTemp e') \<le> unat cost))"
    unfolding gasCall_def
    by (intro upon_intros upon_callee) (force dest: memoryGasCost_store SafeAdd_le *)+
qed

section \<open>Instructions that run the machine again\<close>

lemma upon_and_then:
  assumes "upon m (\<lambda>r. case r of OutOfFuel \<Rightarrow> Q OutOfFuel | Done x \<Rightarrow> upon (k x) Q)"
  shows "upon (and_then m k) Q"
  using assms by (cases m rule: option.exhaust) (auto simp: upon_def and_then_def split: outcome.splits option.splits)

lemma unat_add_le: "unat (a + b :: u64) \<le> unat a + unat b"
proof (cases "unat a + unat b < 2 ^ 64")
  case False
  with unat_add_wrap_u64 [of a b] show ?thesis by simp
qed (simp add: unat_add_u64)

lemma unat_minus_64th: "unat (g - g div 64 :: u64) = unat g - unat g div 64"
  by (subst unat_sub_u64) (simp_all add: word_le_nat_alt unat_div)

lemma use_then_return:
  assumes "unat g \<le> unat (Gas c)" "UseGas c g = (ok, c1)" "unat r \<le> unat g"
  shows "unat (Gas c1 + r) \<le> unat (Gas c)"
proof -
  from assms(1,2) have "ok" by (auto simp: UseGas_def word_less_nat_alt split: if_splits)
  with assms(2) UseGas_exact(1) [of c g c1] have "unat (Gas c1) + unat g = unat (Gas c)" by simp
  with unat_add_le [of "Gas c1" r] assms(3) show ?thesis by simp
qed

lemma upon_create:
  assumes "create_post cr n e g r" "n \<le> unat g \<Longrightarrow> Q OutOfFuel"
    "\<And>ret a left err e'. unat left \<le> unat g \<Longrightarrow> evm_step cr e e' \<Longrightarrow> upon (k (ret, a, left, err, e')) Q"
  shows "upon (and_then r k) Q"
proof (rule upon_and_then)
  show "upon r (\<lambda>r. case r of OutOfFuel \<Rightarrow> Q OutOfFuel | Done x \<Rightarrow> upon (k x) Q)"
    using assms(1) unfolding create_post_def by (rule upon_mono) (auto intro: assms(2,3) split: outcome.splits)
qed

lemma upon_call:
  assumes "call_post cr n e g r" "n \<le> unat g \<Longrightarrow> Q OutOfFuel"
    "\<And>ret left err e'. unat left \<le> unat g \<Longrightarrow> evm_step cr e e' \<Longrightarrow> upon (k (ret, left, err, e')) Q"
  shows "upon (and_then r k) Q"
proof (rule upon_and_then)
  show "upon r (\<lambda>r. case r of OutOfFuel \<Rightarrow> Q OutOfFuel | Done x \<Rightarrow> upon (k x) Q)"
    using assms(1) unfolding call_post_def by (rule upon_mono) (auto intro: assms(2,3) split: outcome.splits)
qed

lemma plain_create: "plain cr opCreate"
  unfolding opCreate_def
proof (rule plainI, intro upon_intros, goal_cases)
  case (1 h n f x v st y off st1 z sz st2 inp ok c1)
  let ?g = "Gas (f_contract f)"
  from 1 obtain g where g: "unat g \<le> unat ?g" "UseGas (f_contract f) g = (ok, c1)"
    "g = (if IsEIP150 (chainConfig (f_evm f)) (Some (BlockNumber (ctx (f_evm f)))) then ?g - ?g div 64 else ?g)"
    by (auto simp: unat_minus_64th split: if_splits)
  show ?case
    unfolding g(3) [symmetric]
    by (rule upon_create [OF machine_host.create_law [OF 1(1,3)]])
      (use g(1) use_then_return [OF g(1,2)] in \<open>auto simp: Let_def ret_nil_def upon_def\<close>)
qed

lemma plain_create2: "plain cr opCreate2"
  unfolding opCreate2_def
proof (rule plainI, intro upon_intros, goal_cases)
  case (1 h n f x v st y off st1 z sz st2 w salt st3 inp ok c1)
  let ?g = "Gas (f_contract f) - Gas (f_contract f) div 64"
  from 1 have g: "unat ?g \<le> unat (Gas (f_contract f))" "UseGas (f_contract f) ?g = (ok, c1)"
    by (simp_all add: unat_minus_64th)
  show ?case
    by (rule upon_create [OF machine_host.create2_law [OF 1(1,3)]])
      (use g(1) use_then_return [OF g] in \<open>auto simp: Let_def ret_nil_def upon_def\<close>)
qed

text \<open>The calls stay within a budget that covers the gas of the frame, of the callee and the stipend.\<close>

lemma finish_call_post:
  assumes "evm_step cr (f_evm f) e'" "unat (Gas (f_contract f)) + unat left \<le> B"
  shows "upon (finish_call f st ro rsz (ret, left, err, e')) (\<lambda>r. case r of
     OutOfFuel \<Rightarrow> n \<le> B
   | Done (res, err, f') \<Rightarrow> unat (Gas (f_contract f')) \<le> B \<and> evm_step cr (f_evm f) (f_evm f'))"
  unfolding finish_call_def using assms unat_add_le [of "Gas (f_contract f)" left]
  by (simp only: prod.case, intro upon_intros) auto

lemma call_instr_post:
  assumes "call_post cr n (f_evm f) g r" "unat (Gas (f_contract f)) + unat g \<le> B"
  shows "upon (and_then r (finish_call f st ro rsz)) (\<lambda>r. case r of
     OutOfFuel \<Rightarrow> n \<le> B
   | Done (res, err, f') \<Rightarrow> unat (Gas (f_contract f')) \<le> B \<and> evm_step cr (f_evm f) (f_evm f'))"
  by (rule upon_call [OF assms(1)]) (use assms(2) in \<open>auto intro!: finish_call_post\<close>)

lemma delegate_post:
  assumes "machine_host cr h n" "evm_ok cr (f_evm f)"
    "unat (Gas (f_contract f)) + unat (callGasTemp (f_evm f)) \<le> B"
  shows "exec_post cr n B f (opDelegateCall h f)" "exec_post cr n B f (opStaticCall h f)"
  unfolding exec_post_def opDelegateCall_def opStaticCall_def
  by (intro upon_intros; rule call_instr_post [OF _ assms(3)];
      intro machine_host.delegatecall_law [OF assms(1,2)] machine_host.staticcall_law [OF assms(1,2)])+

lemma stipend_le:
  assumes "unat c + unat t + value_cost 2300 st \<le> B" "Back st 2 = Some v"
  shows "unat c + unat (if U256 v \<noteq> 0 then t + CallStipend else t :: u64) \<le> B"
proof (cases "U256 v = 0")
  case False
  then have "v \<noteq> 0" by (auto simp: U256_mod)
  with assms unat_add_le [of t CallStipend] False show ?thesis by (simp add: value_cost_def)
qed (use assms in simp)

lemma pop_Back:
  assumes "pop st = Some (a, st1)" "pop st1 = Some (b, st2)" "pop st2 = Some (c, st3)"
  shows "Back st 2 = Some c"
  using st.pp_SomeD [OF assms(1)] st.pp_SomeD [OF assms(2)] st.pp_SomeD [OF assms(3)] st.bck_items [of st 2] by simp

lemma call_value_post:
  assumes "machine_host cr h n" "evm_ok cr (f_evm f)"
    "unat (Gas (f_contract f)) + unat (callGasTemp (f_evm f)) + value_cost 2300 (f_stack f) \<le> B"
  shows "exec_post cr n B f (opCall h f)" "exec_post cr n B f (opCallCode h f)"
  unfolding exec_post_def opCall_def opCallCode_def
  by (intro upon_intros; clarify; rule call_instr_post;
      (rule machine_host.call_law [OF assms(1,2)] machine_host.callcode_law [OF assms(1,2)] |
       rule stipend_le [OF assms(3)], erule (2) pop_Back))+

section \<open>The operations of the instruction sets\<close>

definition never_cut :: "executionFunc \<Rightarrow> bool" where
  "never_cut ex \<longleftrightarrow> (\<forall>h f. ex h f \<noteq> Some OutOfFuel)"

definition dyn_any :: "crypto \<Rightarrow> gasFunc \<Rightarrow> bool" where
  "dyn_any cr d \<longleftrightarrow> (\<exists>lo. dyn_ok cr d lo)"

definition dyn_pos :: "crypto \<Rightarrow> instructionSet \<Rightarrow> gasFunc \<Rightarrow> bool" where
  "dyn_pos cr s d \<longleftrightarrow> (\<exists>lo. dyn_ok cr d lo \<and> (\<forall>e. instrSet e = s \<longrightarrow> 1 \<le> lo e))"

text \<open>
  An operation either ends the run without calling anything or costs gas; a call costs more than it
  gives to the callee.
\<close>

definition plain_op :: "crypto \<Rightarrow> instructionSet \<Rightarrow> operation \<Rightarrow> bool" where
  "plain_op cr s p \<longleftrightarrow> plain cr (execute p) \<and> (\<forall>d. dynamicGas p = Some d \<longrightarrow> dyn_any cr d) \<and>
     ((halts p \<or> reverts p) \<and> never_cut (execute p) \<or> 1 \<le> unat (constantGas p) \<or>
      (\<exists>d. dynamicGas p = Some d \<and> dyn_pos cr s d))"

definition call_op :: "crypto \<Rightarrow> operation \<Rightarrow> bool" where
  "call_op cr p \<longleftrightarrow> (\<exists>d. dynamicGas p = Some d \<and>
     ((execute p = opDelegateCall \<or> execute p = opStaticCall) \<and> call_dyn cr d (\<lambda>_. 40) \<or>
      (execute p = opCall \<or> execute p = opCallCode) \<and> call_dyn cr d (\<lambda>st. 40 + value_cost 9000 st)))"

definition op_sound :: "crypto \<Rightarrow> instructionSet \<Rightarrow> operation \<Rightarrow> bool" where
  "op_sound cr s p \<longleftrightarrow> (valid p \<longrightarrow> plain_op cr s p \<or> call_op cr p)"

lemma local_never_cut: "local_instr ex \<Longrightarrow> never_cut ex"
  by (fastforce simp: local_instr_def never_cut_def dest: uponD)

lemma suicide_never_cut: "never_cut opSuicide"
  by (auto simp: never_cut_def opSuicide_def ret_nil_def Let_def split: prod.splits Option.bind_splits)

lemma dyn_pos_all:
  "dyn_pos cr s gasMLoad" "dyn_pos cr s gasMStore" "dyn_pos cr s gasMStore8" "dyn_pos cr s gasCreate"
  "dyn_pos cr s gasCallDataCopy" "dyn_pos cr s gasReturnDataCopy" "dyn_pos cr s gasCodeCopy" "dyn_pos cr s gasSha3"
  "dyn_pos cr s gasCreate2" "dyn_pos cr s gasExtCodeCopy" "dyn_pos cr s gasBalance" "dyn_pos cr s gasExtCodeSize"
  "dyn_pos cr s gasSLoad" "dyn_pos cr s gasExp" "dyn_pos cr s (makeGasLog k)" "dyn_pos cr s gasSStore"
  "dyn_pos cr ConstantinopleSet gasExtCodeHash"
  unfolding dyn_pos_def
  by (rule exI, rule conjI, rule dyn_mem1 dyn_copy dyn_extcodecopy dyn_const dyn_exp dyn_log dyn_sstore, simp)+

lemma dyn_any_all:
  "dyn_pos cr s d \<Longrightarrow> dyn_any cr d" "dyn_any cr gasReturn" "dyn_any cr gasRevert" "dyn_any cr gasSuicide"
  unfolding dyn_pos_def dyn_any_def using dyn_return dyn_suicide by blast+

lemma dyn_any_pos:
  "dyn_any cr gasMLoad" "dyn_any cr gasMStore" "dyn_any cr gasMStore8" "dyn_any cr gasCreate"
  "dyn_any cr gasCallDataCopy" "dyn_any cr gasReturnDataCopy" "dyn_any cr gasCodeCopy" "dyn_any cr gasSha3"
  "dyn_any cr gasCreate2" "dyn_any cr gasExtCodeCopy" "dyn_any cr gasBalance" "dyn_any cr gasExtCodeSize"
  "dyn_any cr gasSLoad" "dyn_any cr gasExp" "dyn_any cr (makeGasLog k)" "dyn_any cr gasSStore"
  "dyn_any cr gasExtCodeHash"
  by (rule dyn_any_all(1), rule dyn_pos_all)+

lemmas plain_instrs = local_instrs [THEN local_plain] plain_sha3 plain_state plain_extcodehash plain_sstore
  plain_suicide plain_log plain_jump plain_create plain_create2

lemmas op_sound_simps = op_sound_def plain_op_def call_op_def zero_op_def plain_instrs dyn_pos_all dyn_any_pos
  dyn_any_all(2-4) local_instrs [THEN local_never_cut] suicide_never_cut
  dyn_delegatecall dyn_callcode dyn_call

lemma frontier_sound:
  "list_all (\<lambda>(op, p). op_sound cr s p) frontier_part1" "list_all (\<lambda>(op, p). op_sound cr s p) frontier_part2"
  "list_all (\<lambda>(op, p). op_sound cr s p) frontier_part3" "list_all (\<lambda>(op, p). op_sound cr s p) frontier_part4"
  "list_all (\<lambda>(op, p). op_sound cr s p) frontier_part5" "list_all (\<lambda>(op, p). op_sound cr s p) frontier_part6"
  "list_all (\<lambda>(op, p). op_sound cr s p) frontier_part7"
  unfolding frontier_part1_def frontier_part2_def frontier_part3_def frontier_part4_def frontier_part5_def
      frontier_part6_def frontier_part7_def by (simp_all add: op_sound_simps)

lemma map_of_all: "list_all (\<lambda>(k, v). P v) xs \<Longrightarrow> map_of xs k = Some v \<Longrightarrow> P v"
  by (auto simp: list_all_iff dest!: map_of_SomeD)

lemma newFrontier_sound: "op_sound cr s (newFrontierInstructionSet op)"
proof -
  let ?xs = "frontier_part1 @ frontier_part2 @ frontier_part3 @ frontier_part4 @ frontier_part5 @
    frontier_part6 @ frontier_part7"
  from frontier_sound have all: "list_all (\<lambda>(k, v). op_sound cr s v) ?xs" by simp
  show ?thesis
    unfolding newFrontierInstructionSet_def
  proof (split option.split, intro conjI impI allI)
    show "op_sound cr s zero_op" by (simp add: op_sound_def zero_op_def)
    show "op_sound cr s p" if "map_of ?xs op = Some p" for p
      using map_of_all [OF all that] .
  qed
qed

lemma newHomestead_sound: "op_sound cr s (newHomesteadInstructionSet op)"
  by (simp add: newHomesteadInstructionSet_def newFrontier_sound) (simp add: op_sound_simps)

lemma newByzantium_sound: "op_sound cr s (newByzantiumInstructionSet op)"
  by (simp add: newByzantiumInstructionSet_def newHomestead_sound) (simp add: op_sound_simps)

lemma newConstantinople_sound: "op_sound cr ConstantinopleSet (newConstantinopleInstructionSet op)"
  by (simp add: newConstantinopleInstructionSet_def newByzantium_sound) (simp add: op_sound_simps)

lemma JumpTable_sound: "op_sound cr s (JumpTable s op)"
  by (cases s) (simp_all add: JumpTable_def newFrontier_sound newHomestead_sound newByzantium_sound
      newConstantinople_sound)

section \<open>One iteration of the interpreter\<close>

lemma UseGas_le: "UseGas c g = (ok, c1) \<Longrightarrow> unat (Gas c1) \<le> unat (Gas c)"
  using UseGas_exact [of c g c1] by (cases ok) auto

lemma dyn_step:
  assumes "op_sound cr s p" "valid p" "dynamicGas p = Some d" "evm_ok cr e"
    "d cr (gasTable e) e c st mem ms = Some (r, e', mem')"
  shows "evm_step cr e e' \<and> store mem' = store mem"
proof -
  from assms(1-3) consider lo where "dyn_ok cr d lo" | lo where "call_dyn cr d lo"
    by (auto simp: op_sound_def plain_op_def call_op_def dyn_any_def)
  then show ?thesis
    using assms(4,5) unfolding dyn_ok_def call_dyn_def by cases (fastforce dest: uponD)+
qed

lemma use_dynamic_gas_step:
  assumes "op_sound cr s p" "valid p" "evm_ok cr (f_evm f)" "use_dynamic_gas cr p f ms cost0 = Some (ok, cost, f2)"
  shows "evm_step cr (f_evm f) (f_evm f2) \<and> unat (Gas (f_contract f2)) \<le> unat (Gas (f_contract f)) \<and>
    f_stack f2 = f_stack f \<and> store (f_memory f2) = store (f_memory f)"
proof (cases "dynamicGas p")
  case None
  with assms(3,4) show ?thesis by (auto simp: use_dynamic_gas_def)
next
  case (Some d)
  with assms(4) obtain r e' mem' where r: "d cr (gasTable (f_evm f)) (f_evm f) (f_contract f) (f_stack f) (f_memory f) ms =
      Some (r, e', mem')"
    by (auto simp: use_dynamic_gas_def split: Option.bind_splits)
  from dyn_step [OF assms(1,2) Some assms(3) r] r Some assms(4) show ?thesis
    by (auto simp: use_dynamic_gas_def Let_def dest: UseGas_le split: sum.splits prod.splits)
qed

text \<open>After its gas is paid, an operation stays below the gas the iteration began with.\<close>

lemma plain_charged:
  assumes "plain_op cr s p" "machine_host cr h n" "evm_ok cr (f_evm f)" "instrSet (f_evm f) = s"
    "UseGas (f_contract f) (constantGas p) = (True, c1)"
    "use_dynamic_gas cr p (f\<lparr>f_contract := c1\<rparr>) ms cost0 = Some (True, cost, f2)"
    "f_contract f3 = f_contract f2" "evm_ok cr (f_evm f3)"
  shows "upon (execute p h f3) (\<lambda>r. case r of
     OutOfFuel \<Rightarrow> n < unat (Gas (f_contract f))
   | Done (res, err, f') \<Rightarrow> unat (Gas (f_contract f')) \<le> unat (Gas (f_contract f)) \<and>
       evm_step cr (f_evm f3) (f_evm f') \<and>
       (halts p \<or> reverts p \<or> unat (Gas (f_contract f')) < unat (Gas (f_contract f))))"
proof -
  let ?G = "unat (Gas (f_contract f))" and ?G2 = "unat (Gas (f_contract f2))"
  have g1: "unat (Gas c1) + unat (constantGas p) = ?G" using UseGas_exact(1) [OF assms(5)] .
  have "?G2 \<le> unat (Gas c1) \<and>
    (\<forall>d. dynamicGas p = Some d \<longrightarrow> dyn_pos cr s d \<longrightarrow> ?G2 < unat (Gas c1))"
  proof (cases "dynamicGas p")
    case None
    with assms(6) show ?thesis by (auto simp: use_dynamic_gas_def)
  next
    case (Some d)
    with assms(6) obtain r e' mem' c2 where r:
      "d cr (gasTable (f_evm f)) (f_evm f) c1 (f_stack f) (f_memory f) ms = Some (Inr cost, e', mem')"
      "UseGas c1 cost = (True, c2)" "f_contract f2 = c2"
      by (auto simp: use_dynamic_gas_def Let_def split: Option.bind_splits sum.splits prod.splits)
    have "1 \<le> unat cost" if "dyn_pos cr s d"
    proof -
      from that obtain lo where lo: "dyn_ok cr d lo" "1 \<le> lo (f_evm f)" using assms(4) by (auto simp: dyn_pos_def)
      then show ?thesis using assms(3) r(1) unfolding dyn_ok_def by (fastforce dest: uponD)
    qed
    with UseGas_exact(1) [OF r(2)] r(3) Some show ?thesis by auto
  qed
  with g1 assms(1) have b: "?G2 \<le> ?G" "never_cut (execute p) \<and> (halts p \<or> reverts p) \<or> ?G2 < ?G"
    by (auto simp: plain_op_def)
  from assms(1-2,8) have "exec_post cr n (unat (Gas (f_contract f3))) f3 (execute p h f3)"
    by (simp add: plain_op_def plain_def)
  with b show ?thesis
    unfolding exec_post_def assms(7) by (auto simp: upon_def never_cut_def split: outcome.splits)
qed

lemma call_charged:
  assumes "call_op cr p" "machine_host cr h n" "evm_ok cr (f_evm f)"
    "UseGas (f_contract f) (constantGas p) = (True, c1)"
    "use_dynamic_gas cr p (f\<lparr>f_contract := c1\<rparr>) ms cost0 = Some (True, cost, f2)"
    "f_contract f3 = f_contract f2" "evm_ok cr (f_evm f3)" "f_stack f3 = f_stack f"
    "callGasTemp (f_evm f3) = callGasTemp (f_evm f2)"
  shows "exec_post cr n (unat (Gas (f_contract f)) - 1) f3 (execute p h f3) \<and> 1 \<le> unat (Gas (f_contract f))"
proof -
  let ?G = "unat (Gas (f_contract f))"
  have g1: "unat (Gas c1) \<le> ?G" using UseGas_exact(1) [OF assms(4)] by simp
  from assms(1) obtain d lo where d: "dynamicGas p = Some d" "call_dyn cr d lo"
    "(execute p = opDelegateCall \<or> execute p = opStaticCall) \<and> lo = (\<lambda>_. 40) \<or>
     (execute p = opCall \<or> execute p = opCallCode) \<and> lo = (\<lambda>st. 40 + value_cost 9000 st)"
    by (auto simp: call_op_def)
  with assms(5) obtain e' mem' c2 where r:
      "d cr (gasTable (f_evm f)) (f_evm f) c1 (f_stack f) (f_memory f) ms = Some (Inr cost, e', mem')"
      "UseGas c1 cost = (True, c2)" "f_contract f2 = c2" "f_evm f2 = e'"
    by (auto simp: use_dynamic_gas_def Let_def split: Option.bind_splits sum.splits prod.splits)
  with d(2) assms(3) have "lo (f_stack f) + unat (callGasTemp e') \<le> unat cost"
    unfolding call_dyn_def by (fastforce dest: uponD)
  with UseGas_exact(1) [OF r(2)] g1
  have b: "unat (Gas c2) + unat (callGasTemp e') + lo (f_stack f) \<le> ?G" by simp
  have v: "value_cost 2300 (f_stack f) \<le> value_cost 9000 (f_stack f)"
    by (simp add: value_cost_def split: option.splits)
  from d(3) b v have "1 \<le> ?G" by auto
  moreover from d(3) have "exec_post cr n (?G - 1) f3 (execute p h f3)"
    using delegate_post [OF assms(2,7), of "?G - 1"] call_value_post [OF assms(2,7), of "?G - 1"] b v
    by (auto simp: assms(6,8,9) r(3,4))
  ultimately show ?thesis by simp
qed

text \<open>The result of an iteration: the gas only decreases, strictly if the loop goes on.\<close>

definition step_post :: "crypto \<Rightarrow> nat \<Rightarrow> Frame \<Rightarrow> runState loopStep outcome option \<Rightarrow> bool" where
  "step_post cr n f r \<longleftrightarrow> upon r (\<lambda>r. case r of
     OutOfFuel \<Rightarrow> n < unat (Gas (f_contract f))
   | Done (Return ret err rs) \<Rightarrow> unat (Gas (f_contract (rs_frame rs))) \<le> unat (Gas (f_contract f)) \<and>
       evm_step cr (f_evm f) (f_evm (rs_frame rs))
   | Done (Continue rs) \<Rightarrow> unat (Gas (f_contract (rs_frame rs))) < unat (Gas (f_contract f)) \<and>
       evm_step cr (f_evm f) (f_evm (rs_frame rs)))"

lemma execute_step_post:
  assumes "op_sound cr s p" "valid p" "machine_host cr h n" "evm_ok cr (f_evm f)" "instrSet (f_evm f) = s"
    "UseGas (f_contract f) (constantGas p) = (True, c1)"
    "use_dynamic_gas cr p (f\<lparr>f_contract := c1\<rparr>) ms cost0 = Some (True, cost, f2)"
    "f_contract (rs_frame rs) = f_contract f2" "evm_step cr (f_evm f) (f_evm (rs_frame rs))"
    "f_stack (rs_frame rs) = f_stack f" "callGasTemp (f_evm (rs_frame rs)) = callGasTemp (f_evm f2)"
  shows "step_post cr n f (execute_step h p rs)"
proof -
  have ok: "evm_ok cr (f_evm (rs_frame rs))" using assms(4,9) by (rule evm_step_ok)
  have *: "upon (execute p h (rs_frame rs)) (\<lambda>r. case r of
     OutOfFuel \<Rightarrow> n < unat (Gas (f_contract f))
   | Done (res, err, f') \<Rightarrow> unat (Gas (f_contract f')) \<le> unat (Gas (f_contract f)) \<and>
       evm_step cr (f_evm (rs_frame rs)) (f_evm f') \<and>
       (halts p \<or> reverts p \<or> unat (Gas (f_contract f')) < unat (Gas (f_contract f))))"
  proof (cases "plain_op cr s p")
    case True
    show ?thesis by (rule plain_charged [OF True assms(3-8) ok])
  next
    case False
    with assms(1,2) have c: "call_op cr p" by (simp add: op_sound_def)
    from call_charged [OF c assms(3,4,6,7,8) ok assms(10,11)]
    show ?thesis unfolding exec_post_def by (auto elim!: upon_mono split: outcome.splits)
  qed
  show ?thesis
    unfolding step_post_def execute_step_def
    by (rule upon_and_then, rule upon_mono [OF *])
      (auto simp: Let_def upon_def intro: evm_step_trans [OF assms(9)] split: outcome.splits prod.splits if_splits)
qed

lemma load_abort_step: "load_abort e = (b, e') \<Longrightarrow> evm_frame e' = evm_frame e \<and> sdb e' = sdb e"
  by (auto simp: load_abort_def split: option.splits nat.splits)

lemma upon_fail:
  assumes "unat (Gas (f_contract (rs_frame rs))) \<le> unat (Gas (f_contract f))"
    "evm_step cr (f_evm f) (f_evm (rs_frame rs))"
  shows "step_post cr n f (fail err rs)"
  using assms by (simp add: fail_def step_post_def upon_def)

lemma step_post_intros:
  "(\<And>x. m = Some x \<Longrightarrow> step_post cr n f (k x)) \<Longrightarrow> step_post cr n f (m \<bind> k)"
  "(b \<Longrightarrow> step_post cr n f m1) \<Longrightarrow> (\<not> b \<Longrightarrow> step_post cr n f m2) \<Longrightarrow> step_post cr n f (if b then m1 else m2)"
  "(\<And>x y. p = (x, y) \<Longrightarrow> step_post cr n f (k' x y)) \<Longrightarrow> step_post cr n f (case p of (x, y) \<Rightarrow> k' x y)"
  "step_post cr n f (l v) \<Longrightarrow> step_post cr n f (Let v l)"
  "(q = None \<Longrightarrow> step_post cr n f m1) \<Longrightarrow> (\<And>x. q = Some x \<Longrightarrow> step_post cr n f (k2 x)) \<Longrightarrow>
   step_post cr n f (case q of None \<Rightarrow> m1 | Some x \<Rightarrow> k2 x)"
  unfolding step_post_def by (auto intro: upon_intros)

lemma trace_step:
  "trace e m = Some e' \<Longrightarrow> evm_frame e' = evm_frame e \<and> sdb e' = sdb e \<and> callGasTemp e' = callGasTemp e"
  by (auto simp: trace_def split: option.splits)

lemma step_post_from:
  "step_post cr n (f\<lparr>f_evm := e1\<rparr>) r \<Longrightarrow> evm_step cr (f_evm f) e1 \<Longrightarrow> step_post cr n f r"
  unfolding step_post_def
  by (erule upon_mono) (auto intro: evm_step_trans split: outcome.splits loopStep.splits)

lemma begin_step_frame [simp]: "rs_frame (begin_step rs) = rs_frame rs"
  by (simp add: begin_step_def Let_def)

lemma begin_step_op [simp]: "rs_op (begin_step rs) = GetOp (f_contract (rs_frame rs)) (f_pc (rs_frame rs))"
  by (simp add: begin_step_def Let_def)

lemma charge_op_cases:
  assumes "charge_op cr p rs = Some (err, ms, rs1)"
  obtains (noGas) c1 where "UseGas (f_contract (rs_frame rs)) (constantGas p) = (False, c1)"
      "err = Some ErrOutOfGas" "rs1 = rs\<lparr>rs_frame := (rs_frame rs)\<lparr>f_contract := c1\<rparr>\<rparr>"
  | (overflow) c1 where "UseGas (f_contract (rs_frame rs)) (constantGas p) = (True, c1)"
      "err = Some errGasUintOverflow" "rs1 = rs\<lparr>rs_frame := (rs_frame rs)\<lparr>f_contract := c1\<rparr>\<rparr>"
  | (charged) c1 ok cost f2 where "UseGas (f_contract (rs_frame rs)) (constantGas p) = (True, c1)"
      "needed_memory p (f_stack (rs_frame rs)) = Some (Some ms)"
      "use_dynamic_gas cr p ((rs_frame rs)\<lparr>f_contract := c1\<rparr>) ms (rs_cost rs) = Some (ok, cost, f2)"
      "err = (if ok then None else Some ErrOutOfGas)" "rs1 = rs\<lparr>rs_frame := f2, rs_cost := cost\<rparr>"
  using assms
  by (auto simp: charge_op_def Let_def split: prod.splits if_splits Option.bind_splits option.splits)

lemma before_execute_step:
  assumes "before_execute rs ms = Some rs1"
  shows "f_contract (rs_frame rs1) = f_contract (rs_frame rs) \<and> f_stack (rs_frame rs1) = f_stack (rs_frame rs) \<and>
    evm_frame (f_evm (rs_frame rs1)) = evm_frame (f_evm (rs_frame rs)) \<and>
    sdb (f_evm (rs_frame rs1)) = sdb (f_evm (rs_frame rs)) \<and>
    callGasTemp (f_evm (rs_frame rs1)) = callGasTemp (f_evm (rs_frame rs))"
  using assms
  by (auto simp: before_execute_def Let_def dest!: trace_step split: if_splits Option.bind_splits)

lemma charged_post:
  assumes "machine_host cr h n" "evm_ok cr (f_evm (rs_frame rs))" "op_sound cr (instrSet (f_evm (rs_frame rs))) p"
    "valid p" "charge_op cr p rs = Some (err, ms, rs1)"
  shows "step_post cr n (rs_frame rs) (case err of Some e \<Rightarrow> fail e rs1 | None \<Rightarrow>
     do { rs \<leftarrow> before_execute rs1 ms; execute_step h p rs })"
  using assms(5)
proof (cases rule: charge_op_cases)
  case (charged c1 ok cost f2)
  from use_dynamic_gas_step [OF assms(3,4) _ charged(3)] assms(2)
  have step: "evm_step cr (f_evm (rs_frame rs)) (f_evm f2)" "unat (Gas (f_contract f2)) \<le> unat (Gas c1)"
    "f_stack f2 = f_stack (rs_frame rs)" by simp_all
  show ?thesis
  proof (cases ok)
    case True
    show ?thesis
      unfolding charged(4,5) using True
    proof (simp, intro step_post_intros)
      fix rs2
      assume "before_execute (rs\<lparr>rs_frame := f2, rs_cost := cost\<rparr>) ms = Some rs2"
      from before_execute_step [OF this] step
      show "step_post cr n (rs_frame rs) (execute_step h p rs2)"
        by (intro execute_step_post [OF assms(3,4,1,2) refl charged(1)])
          (use charged(3) True in \<open>auto simp: evm_step_def\<close>)
    qed
  next
    case False
    with charged step UseGas_le [OF charged(1)] show ?thesis by (simp add: upon_fail)
  qed
qed (use assms(2) UseGas_le in \<open>force intro: upon_fail\<close>)+

lemma check_op_None:
  "check_op e op p st = Some None \<Longrightarrow> valid p \<and> op_minStack p \<le> int (Stack_len st) \<and> int (Stack_len st) \<le> op_maxStack p \<and>
    (readOnly e \<and> rIsByzantium (chainRules e) \<longrightarrow> \<not> writes p \<and> (op = CALL \<longrightarrow> Back st 2 = Some 0))"
  by (auto simp: check_op_def Let_def split: if_splits Option.bind_splits)

lemma Run_step_post:
  assumes "machine_host cr h n" "evm_ok cr (f_evm (rs_frame rs))"
  shows "step_post cr n (rs_frame rs) (Run_step h rs)"
proof -
  define f where "f = rs_frame rs"
  obtain aborted e1 where la: "load_abort (f_evm f) = (aborted, e1)" by (cases "load_abort (f_evm f)")
  have E1: "evm_step cr (f_evm f) e1"
    using load_abort_step [OF la] assms(2) by (auto simp: evm_step_def f_def intro: extends_refl)
  with assms(2) have ok1: "evm_ok cr e1" unfolding f_def by (rule evm_step_ok)
  let ?rs = "begin_step (rs\<lparr>rs_frame := f\<lparr>f_evm := e1\<rparr>\<rparr>)"
  have crh: "h_crypto h = cr" using assms(1) by (rule machine_host.crypto_law)
  let ?p = "JumpTable (instrSet e1) (rs_op ?rs)"
  have "step_post cr n (f\<lparr>f_evm := e1\<rparr>) (do {
       err \<leftarrow> check_op e1 (rs_op ?rs) ?p (f_stack (rs_frame ?rs));
       case err of
         Some e \<Rightarrow> fail e ?rs
       | None \<Rightarrow> do {
           (err, ms, rs) \<leftarrow> charge_op cr ?p ?rs;
           case err of Some e \<Rightarrow> fail e rs | None \<Rightarrow> do { rs \<leftarrow> before_execute rs ms; execute_step h ?p rs }
         }})" (is "step_post cr n ?f ?body")
  proof (rule step_post_intros(1), rule step_post_intros(5))
    fix err :: "vmError option"
    assume chk: "check_op e1 (rs_op ?rs) ?p (f_stack (rs_frame ?rs)) = Some err"
    show "step_post cr n ?f (fail e ?rs)" for e by (rule upon_fail) (use ok1 in simp_all)
    assume "err = None"
    with chk have v: "valid ?p" by (auto dest: check_op_None)
    show "step_post cr n ?f (do {
           (err, ms, rs) \<leftarrow> charge_op cr ?p ?rs;
           case err of Some e \<Rightarrow> fail e rs | None \<Rightarrow> do { rs \<leftarrow> before_execute rs ms; execute_step h ?p rs }
         })"
      by (rule step_post_intros(1), (rule step_post_intros(3))+)
        (use charged_post [OF assms(1) _ _ v, of ?rs] ok1 in \<open>simp add: JumpTable_sound\<close>)
  qed
  then have "step_post cr n f ?body" using E1 by (rule step_post_from)
  moreover have "step_post cr n f (Some (Done (Return [] None (rs\<lparr>rs_frame := f\<lparr>f_evm := e1\<rparr>\<rparr>))))"
    by (simp add: step_post_def upon_def E1)
  ultimately show ?thesis
    unfolding Run_step_def f_def [symmetric] la Let_def prod.case crh by (cases aborted) (simp_all only: if_True if_False)
qed

end
