(* ===== verification/Machine_Calls.thy ===== *)
theory Machine_Calls
  imports Machine
begin

text \<open>
  The contract of the loop of the interpreter (locale \<open>interpreter_loop\<close>): whatever loop keeps it, the methods
  of \<^verbatim>\<open>EVM\<close> over that loop keep theirs (\<open>Call_post\<close> and the like, and the sublocale \<open>machine_host\<close>). The loop
  \<open>run_loop\<close> of the model keeps it at every fuel, so the contract holds of the machine of the model.
\<close>

section \<open>The methods of the machine over a loop\<close>

definition loop_post :: "crypto \<Rightarrow> nat \<Rightarrow> Frame \<Rightarrow> loopResult \<Rightarrow> bool" where
  "loop_post cr n f r \<longleftrightarrow> upon r (\<lambda>r. case r of
     OutOfFuel \<Rightarrow> n \<le> unat (Gas (f_contract f))
   | Done (ret, err, rs) \<Rightarrow> unat (Gas (f_contract (rs_frame rs))) \<le> unat (Gas (f_contract f)) \<and>
       evm_step cr (f_evm f) (f_evm (rs_frame rs)))"

definition run_post :: "crypto \<Rightarrow> nat \<Rightarrow> EVM \<Rightarrow> Contract \<Rightarrow> (bytes \<times> vmError option \<times> EVM \<times> Contract) outcome option \<Rightarrow> bool" where
  "run_post cr n e c r \<longleftrightarrow> upon r (\<lambda>r. case r of
     OutOfFuel \<Rightarrow> n \<le> unat (Gas c)
   | Done (ret, err, e', c') \<Rightarrow> unat (Gas c') \<le> unat (Gas c) \<and> evm_step cr e e')"

lemma evm_frame_inner:
  "evm_frame e' = evm_frame (e\<lparr>depth := d, readOnly := r\<rparr>) \<Longrightarrow>
   evm_frame (e'\<lparr>depth := depth e, readOnly := readOnly e\<rparr>) = evm_frame e"
  by (simp add: evm_frame_def)

lemma capture_fault_step:
  "capture_fault rs err = Some e \<Longrightarrow> evm_frame e = evm_frame (f_evm (rs_frame rs)) \<and> sdb e = sdb (f_evm (rs_frame rs))"
  by (auto simp: capture_fault_def Let_def dest!: trace_step split: if_splits)

lemma load_code_step:
  assumes "load_code cr e c a = (c', e')"
  shows "evm_frame e' = evm_frame e" "Gas c' = Gas c" "extends cr s0 (sdb e) \<Longrightarrow> extends cr s0 (sdb e')"
  using assms by (auto simp: load_code_def SetCallCode_def split: prod.splits) (erule read_back, erule read_back, assumption)

lemma new_contract_step:
  assumes "new_contract e clr ob v g = (c, e')"
  shows "evm_frame e' = evm_frame e" "Gas c = g" "sdb e' = sdb e"
  using assms by (auto simp: new_contract_def NewContract_def Let_def split: prod.splits)

lemma AsDelegate_Gas: "AsDelegate c = Some c' \<Longrightarrow> Gas c' = Gas c"
  by (auto simp: AsDelegate_def Let_def split: ContractRef.splits option.splits Option.bind_splits)

lemma trace_start_step: "trace_start e = Some e' \<Longrightarrow> evm_frame e' = evm_frame e \<and> sdb e' = sdb e"
  by (auto simp: trace_start_def dest!: trace_step split: if_splits)

lemma trace_end_step: "trace_end e ret err = Some e' \<Longrightarrow> evm_frame e' = evm_frame e \<and> sdb e' = sdb e"
  by (auto simp: trace_end_def dest!: trace_step split: if_splits)

lemma funds_step:
  assumes "evm_ok cr e" "CanTransferFn (ctx e) (sdb e) x v = (can, s1)"
  shows "extends cr (sdb e) s1" "same_view cr s1 (sdb e)"
proof -
  have "CanTransfer cr (sdb e) x v = (can, s1)" using assms by (simp add: evm_ok_def)
  with assms(1) have "read_ok cr (sdb e) s1" using CanTransfer_read [of "sdb e"] by blast
  then show "extends cr (sdb e) s1" "same_view cr s1 (sdb e)"
    by (auto intro: read_ok_extends simp: read_ok_def)
qed

lemma snapshot_step:
  assumes "state_wf s" "Snapshot s = (i, s')"
  shows "extends cr s s'" "extends cr s' s'"
  using Snapshot_extends(1) [OF assms, of cr] by (auto intro: extends_refl dest: extends_wf)

definition call_res :: "crypto \<Rightarrow> nat \<Rightarrow> EVM \<Rightarrow> u64 \<Rightarrow> (bytes \<times> u64 \<times> vmError option \<times> EVM) outcome \<Rightarrow> bool" where
  "call_res cr n e g r \<longleftrightarrow> call_post cr n e g (Some r)"

lemma call_post_upon: "call_post cr n e g m \<longleftrightarrow> upon m (call_res cr n e g)"
  by (simp add: call_res_def call_post_def upon_def)

lemma call_res_Done:
  "call_res cr n e g (Done (ret, left, err, e')) \<longleftrightarrow> unat left \<le> unat g \<and> evm_step cr e e' \<and>
     (err \<noteq> None \<longrightarrow> same_view cr (sdb e') (sdb e)) \<and>
     (err \<notin> {None, Some errExecutionReverted, Some ErrDepth, Some ErrInsufficientBalance} \<longrightarrow> left = 0)"
  by (simp add: call_res_def call_post_def upon_def)

lemma call_res_OutOfFuel: "call_res cr n e g OutOfFuel \<longleftrightarrow> n \<le> unat g"
  by (simp add: call_res_def call_post_def upon_def)

definition create_res ::
  "crypto \<Rightarrow> nat \<Rightarrow> EVM \<Rightarrow> u64 \<Rightarrow> (bytes \<times> Address \<times> u64 \<times> vmError option \<times> EVM) outcome \<Rightarrow> bool" where
  "create_res cr n e g r \<longleftrightarrow> create_post cr n e g (Some r)"

lemma create_post_upon: "create_post cr n e g m \<longleftrightarrow> upon m (create_res cr n e g)"
  by (simp add: create_res_def create_post_def upon_def)

lemma create_res_Done:
  "create_res cr n e g (Done (ret, a, left, err, e')) \<longleftrightarrow> unat left \<le> unat g \<and> evm_step cr e e'"
  by (simp add: create_res_def create_post_def upon_def)

lemma create_res_OutOfFuel: "create_res cr n e g OutOfFuel \<longleftrightarrow> n \<le> unat g"
  by (simp add: create_res_def create_post_def upon_def)

lemma call_post_traced:
  assumes "call_post cr n e g m"
  shows "call_post cr n e g (and_then m (\<lambda>(ret, left, err, e'). do {
     e' \<leftarrow> trace_end e' ret err; Some (Done (ret, left, err, e')) }))"
  unfolding call_post_def
  by (rule upon_and_then, rule upon_mono [OF assms [unfolded call_post_def]])
    (auto split: outcome.splits intro!: upon_intros dest!: trace_end_step simp: evm_step_def)

locale interpreter_loop =
  fixes cr :: crypto
    and loop :: "runState \<Rightarrow> loopResult"
    and n :: nat
  assumes loop_law: "evm_ok cr (f_evm (rs_frame rs)) \<Longrightarrow> loop_post cr n (rs_frame rs) (loop rs)"
begin

lemma Interpreter_Run_post:
  assumes "evm_ok cr e"
  shows "run_post cr n e c (Interpreter_Run loop e c input ro)"
proof -
  define e1 where "e1 = (if ro \<and> \<not> readOnly e then e\<lparr>depth := depth e + 1, readOnly := True\<rparr> else e\<lparr>depth := depth e + 1\<rparr>)\<lparr>returnData := []\<rparr>"
  define leave :: "EVM \<Rightarrow> EVM" where
    "leave = (\<lambda>e'. let e' = (if ro \<and> \<not> readOnly e then e'\<lparr>readOnly := False\<rparr> else e') in e'\<lparr>depth := depth e' - 1\<rparr>)"
  define f where "f = \<lparr>f_pc = 0, f_evm = e1, f_contract = c\<lparr>Input := input\<rparr>, f_memory = NewMemory, f_stack = newstack\<rparr>"
  define rs where "rs = \<lparr>rs_frame = f, rs_op = 0, rs_cost = 0, rs_pcCopy = 0, rs_gasCopy = 0, rs_logged = False\<rparr>"
  have ok: "evm_ok cr e1" using assms by (simp add: evm_ok_def e1_def)
  have leave: "evm_step cr e (leave e')" if "evm_step cr e1 e'" for e'
    using that by (auto simp: evm_step_def evm_frame_def e1_def leave_def Let_def)
  have run: "Interpreter_Run loop e c input ro = (if length (Code c) = 0 then Some (Done ([], None, leave e1, c))
    else and_then (loop rs) (\<lambda>(ret, err, rs). do {
        evm \<leftarrow> capture_fault rs err; Some (Done (ret, err, leave evm, f_contract (rs_frame rs))) }))"
    unfolding Interpreter_Run_def Let_def e1_def leave_def f_def rs_def by (simp cong: if_cong)
  have fault: "evm_step cr e (leave e')"
    if "capture_fault r err = Some e'" "evm_step cr e1 (f_evm (rs_frame r))" for r err e'
    using capture_fault_step [OF that(1)] that(2) by (intro leave) (simp add: evm_step_def)
  have "loop_post cr n f (loop rs)" using loop_law [of rs] ok by (simp add: rs_def f_def)
  then have "run_post cr n e c (and_then (loop rs) (\<lambda>(ret, err, rs). do {
        evm \<leftarrow> capture_fault rs err; Some (Done (ret, err, leave evm, f_contract (rs_frame rs))) }))"
    unfolding run_post_def loop_post_def
    by (intro upon_and_then, elim upon_mono)
      (auto simp: f_def intro!: upon_intros fault split: outcome.splits)
  moreover have "run_post cr n e c (Some (Done ([], None, leave e1, c)))"
    using leave [OF evm_step_refl [OF ok]] by (simp add: run_post_def upon_def)
  ultimately show ?thesis unfolding run by simp
qed

lemma run_ok:
  assumes "evm_ok cr e"
  shows "run_post cr n e c (run loop cr e c input ro)"
proof -
  have pre: "unat (Gas c') \<le> unat (Gas c)" if "RunPrecompiledContract cr p input c = Some (ret, err, c')" for p ret err c'
    using that by (auto simp: RunPrecompiledContract_def Let_def dest!: UseGas_le
        split: if_splits prod.splits sum.splits Option.bind_splits)
  have "run_post cr n e c (do { (ret, err, contract) \<leftarrow> RunPrecompiledContract cr p input c;
          Some (Done (ret, err, e, contract)) })" for p
    unfolding run_post_def using assms by (intro upon_intros) (auto simp: pre)
  with Interpreter_Run_post [OF assms] show ?thesis
    unfolding run_def by (auto split: option.splits)
qed

lemma run_settle_post:
  assumes ok: "evm_ok cr e0" and fr: "evm_frame e = evm_frame e0"
    and s1: "extends cr (sdb e0) s1" "same_view cr s1 (sdb e0)"
    and sn: "Snapshot s1 = (i, s2)" and e: "extends cr s2 (sdb e)" and g: "Gas c = g"
  shows "call_post cr n e0 g (and_then (run loop cr e c input ro) (settle cr i))"
proof -
  have wf: "state_wf s1" "state_wf (sdb e)" using s1 e by (auto dest: extends_wf)
  have "evm_step cr e0 e" 
    using fr extends_trans [OF s1(1) extends_trans [OF Snapshot_extends(1) [OF wf(1) sn] e]] by (simp add: evm_step_def)
  with ok have oke: "evm_ok cr e" by (rule evm_step_ok)
  have settled: "upon (settle cr i (ret, err, e', c')) (call_res cr n e0 g)"
    if st: "evm_step cr e e'" and gas: "unat (Gas c') \<le> unat g" for ret err e' c'
  proof -
    have ext: "extends cr (snd (Snapshot s1)) (sdb e')" using st e sn by (auto simp: evm_step_def intro: extends_trans)
    have fr': "evm_frame e' = evm_frame e0" using st fr by (simp add: evm_step_def)
    from sdb.guarded [OF wf(1) ext, of "err = None", unfolded sn fst_conv] obtain u
      where u: "(if err = None then Some (sdb e') else RevertToSnapshot cr (sdb e') i) = Some u"
        "extends cr s1 u" "err \<noteq> None \<longrightarrow> same_view cr u s1" by blast
    have step: "evm_step cr e0 (e'\<lparr>sdb := u\<rparr>)" "err \<noteq> None \<Longrightarrow> same_view cr u (sdb e0)"
      using fr' s1 u by (auto simp: evm_step_def evm_frame_def intro: extends_trans same_view_trans)
    have used: "Gas (snd (UseGas c' (Gas c'))) = 0" by (simp add: UseGas_def)
    show ?thesis using u(1) step gas used by (cases "err = None") (auto simp: settle_def upon_def Let_def evm_step_def call_res_Done)
  qed
  show ?thesis unfolding call_post_upon
    by (rule upon_and_then, rule upon_mono [OF run_ok [OF oke, of c input ro, unfolded run_post_def]])
      (auto simp: g call_res_OutOfFuel split: outcome.splits intro!: settled)
qed

lemma call_body_post:
  assumes ok: "evm_ok cr e" and s1: "extends cr (sdb e) s1" "same_view cr s1 (sdb e)"
    and s4: "extends cr s2 s2 \<Longrightarrow> extends cr s2 (sdb e4)"
    and fr: "evm_frame e4 = evm_frame e" and c1: "Gas c1 = Gas c"
    and e7: "extends cr s2 (sdb e6) \<Longrightarrow> extends cr s2 (sdb e7)" "evm_frame e7 = evm_frame e6"
    and sn: "Snapshot s1 = (i, s2)" and new: "new_contract e4 clr to w g = (c, e5)"
    and code: "load_code cr e5 c1 a = (c2, e6)"
  shows "upon (and_then (run loop cr e7 c2 input ro) (settle cr i)) (call_res cr n e g)"
  using ok sn s1 new_contract_step [OF new] load_code_step [OF code] fr e7 c1
      s4 [OF snapshot_step(2) [OF extends_wf [OF s1(1)] sn]]
  unfolding call_post_upon [symmetric] by (intro run_settle_post [of e _ s1 i s2]) auto

lemma DelegateCall_post:
  assumes ok: "evm_ok cr e"
  shows "call_post cr n e g (DelegateCall_with loop cr e clr a input g)"
  unfolding DelegateCall_with_def call_post_upon
  by (intro upon_intros, insert ok)
    (simp_all add: call_res_Done, (rule call_body_post [of e "sdb e"]; (assumption | simp add: evm_extends_refl AsDelegate_Gas)?))

lemma StaticCall_post:
  assumes ok: "evm_ok cr e"
  shows "call_post cr n e g (StaticCall_with loop cr e clr a input g)"
  unfolding StaticCall_with_def call_post_upon
  by (intro upon_intros, insert ok)
    (simp_all add: call_res_Done,
      (rule call_body_post [of e "sdb e"]; (assumption | simp add: evm_extends_refl write_back(6) evm_okD(1) [of cr e])?))

lemma CallCode_post:
  assumes ok: "evm_ok cr e"
  shows "call_post cr n e g (CallCode_with loop cr e clr a input g v)"
  unfolding CallCode_with_def call_post_upon
  by (intro upon_intros, insert ok)
    (simp_all add: call_res_Done funds_step,
      (rule call_body_post; (assumption | simp add: funds_step)?))

lemma Call_post:
  assumes ok: "evm_ok cr e"
  shows "call_post cr n e g (Call_with loop cr e clr a input g v)"
proof -
  have T: "TransferFn (ctx e) = Transfer cr" using ok by (simp add: evm_ok_def)
  have idle: "evm_step cr e e'" if "CanTransferFn (ctx e) (sdb e) x w = (can, s1)"
      "Snapshot s1 = (i, s2)" "Exist cr s2 a = (ex, s3)" "trace_start (e\<lparr>sdb := s3\<rparr>) = Some e1"
      "trace_end e1 ret err = Some e'" for x w can s1 i s2 ex s3 e1 ret err e'
  proof -
    note s1 = funds_step(1) [OF ok that(1)]
    have "extends cr (sdb e) s3"
      using read_back(8) [OF that(3) extends_trans [OF s1 snapshot_step(1) [OF extends_wf [OF s1] that(2)]]] .
    with trace_start_step [OF that(4)] trace_end_step [OF that(5)] show ?thesis by (simp add: evm_step_def)
  qed
  have body: "upon (and_then (and_then (run loop cr e7 c2 input False) (settle cr i))
      (\<lambda>(ret, left, err, e'). do { e' \<leftarrow> trace_end e' ret err; Some (Done (ret, left, err, e')) })) (call_res cr n e g)"
    if "CanTransferFn (ctx e) (sdb e) x v = (can, s1)" "Snapshot s1 = (i, s2)" "Exist cr s2 a = (ex, s3)"
      "new_contract e4 clr to w g = (c, e5)" "load_code cr e5 c a = (c2, e6)" "trace_start e6 = Some e7"
      "extends cr s2 s3 \<Longrightarrow> extends cr s2 (sdb e4)" "evm_frame e4 = evm_frame e"
      for x can s1 i s2 ex s3 to w c e4 e5 c2 e6 e7
    by (rule call_post_traced [unfolded call_post_upon],
      rule call_body_post [OF ok funds_step [OF ok that(1)] _ that(8) _ _ _ that(2,4,5)])
     (use that(7) read_back(8) [OF that(3)] trace_start_step [OF that(6)] in auto)
  show ?thesis unfolding Call_with_def call_post_upon
    by (intro upon_intros)
      (simp_all add: ok call_res_Done funds_step T, (elim idle; assumption),
       erule (5) body, insert T ok, auto intro!: write_back(5,7) split: if_splits)
qed

lemma finish_create_post:
  assumes ok: "evm_ok cr e0" and st: "evm_step cr e e'" and fr: "evm_frame e = evm_frame e0"
    and s1: "extends cr (sdb e0) s1" and sn: "Snapshot s1 = (i, s2)" and e: "extends cr s2 (sdb e)"
    and gas: "unat (Gas c) \<le> unat g"
  shows "create_post cr n e0 g (finish_create cr i a (ret, err, e', c))"
proof -
  have wf: "state_wf s1" using s1 by (rule extends_wf)
  have fr': "evm_frame e' = evm_frame e0" using st fr by (simp add: evm_step_def)
  have rv: "extends cr (sdb e0) s" if "RevertToSnapshot cr t i = Some s" "extends cr s2 t" for s t
    using sdb.rvt_same [of s1 cr t] wf that sn s1 by (auto intro: extends_trans)
  have e': "extends cr s2 (sdb e')" using st e by (auto simp: evm_step_def intro: extends_trans)
  then have code: "extends cr s2 (SetCode cr (sdb e') a ret)" using ok by (blast intro: write_back(4))
  have keep: "extends cr (sdb e0) t" if "extends cr s2 t" for t
    using s1 snapshot_step(1) [OF wf sn] that by (blast intro: extends_trans)
  have used: "unat (Gas (snd (UseGas c' x))) \<le> unat g" if "unat (Gas c') \<le> unat g" for c' x
    using that UseGas_le [of c' x] by (cases "UseGas c' x") (auto intro: order_trans)
  have store: "unat (Gas c1) \<le> unat g \<and> evm_frame e1 = evm_frame e0 \<and> extends cr s2 (sdb e1)"
    if "(if err = None \<and> \<not> mx
        then let createDataGas = word_of_nat (length ret) * CreateDataGas;
                 (ok, contract) = UseGas c createDataGas
             in if ok then (err, contract, e'\<lparr>sdb := SetCode cr (sdb e') a ret\<rparr>)
                else (Some ErrCodeStoreOutOfGas, contract, e')
        else (err, c, e')) = (err1, c1, e1)" for mx err1 c1 e1
    using that gas fr' e' code used [OF gas]
    by (auto simp: Let_def split: if_splits prod.splits) (metis snd_conv)+
  have settled: "unat (Gas c2) \<le> unat g \<and> evm_frame e2 = evm_frame e0 \<and> extends cr (sdb e0) (sdb e2)"
    if "(if b then do {
          s \<leftarrow> RevertToSnapshot cr (sdb e1) i;
          let contract = (if err1 \<noteq> Some errExecutionReverted then snd (UseGas c1 (Gas c1)) else c1);
          Some (contract, e1\<lparr>sdb := s\<rparr>)
        }
        else Some (c1, e1)) = Some (c2, e2)"
      "unat (Gas c1) \<le> unat g \<and> evm_frame e1 = evm_frame e0 \<and> extends cr s2 (sdb e1)" for b err1 c1 e1 c2 e2
    using that keep rv used by (auto simp: Let_def split: if_splits Option.bind_splits)
  show ?thesis unfolding create_post_def finish_create_def prod.case
    by (intro upon_intros) (hypsubst, drule store, drule (1) settled, drule trace_end_step, simp add: evm_step_def)
qed

lemma create_with_post:
  assumes ok: "evm_ok cr e"
  shows "create_post cr n e g (create_with loop cr e clr cah g v a)"
proof -
  have T: "TransferFn (ctx e) = Transfer cr" using ok by (simp add: evm_ok_def)
  have body: "create_post cr n e g (and_then (run loop cr e3 c [] False) (finish_create cr i a))"
    if "extends cr (sdb e) s1" "Snapshot s1 = (i, s2)" "extends cr s2 (sdb e3)" "evm_frame e3 = evm_frame e"
      "Gas c = g" for s1 i s2 e3 c
  proof -
    have "evm_step cr e e3"
      using that snapshot_step(1) [OF extends_wf [OF that(1)] that(2)]
      by (auto simp: evm_step_def intro: extends_trans)
    with ok have "evm_ok cr e3" by (rule evm_step_ok)
    from run_ok [OF this, of c "[]" False] show ?thesis
      unfolding create_post_upon run_post_def
      by (intro upon_and_then, elim upon_mono)
        (auto simp: that(5) create_res_OutOfFuel split: outcome.splits
          intro!: finish_create_post [OF ok _ that(4,1,2,3), unfolded create_post_upon])
  qed
  have pre: "extends cr (sdb e) t"
    if "CanTransferFn (ctx e) (sdb e) x v = (can, s)" "GetNonce cr s y = (m, s')"
      "GetCodeHash cr (SetNonce cr s' y (m + 1)) a = (ch, s'')" "GetNonce cr s'' a = (m', t)" for x can s y m s' ch s'' m' t
    using read_back(4) [OF that(4) read_back(3) [OF that(3) write_back(3) [OF _ read_back(4) [OF that(2) funds_step(1) [OF ok that(1)]]]]]
      ok by blast
  have made: "extends cr s2 (sdb e1) \<and> evm_frame e1 = evm_frame e \<and> evm_step cr e e1 \<and> Gas c = g"
    if "extends cr (sdb e) s1" "Snapshot s1 = (i, s2)"
      "new_contract (e\<lparr>sdb := Transfer cr (if b then SetNonce cr (CreateAccount cr s2 a) a 1 else CreateAccount cr s2 a) y a v\<rparr>)
         clr to w g = (c, e1)" for s1 i s2 b y to w c e1
  proof -
    note sn = snapshot_step [OF extends_wf [OF that(1)] that(2), of cr]
    have "extends cr s2 (sdb e1)"
      using new_contract_step(3) [OF that(3)] sn(2) ok by (auto intro!: write_back(3,5,7) split: if_splits)
    with new_contract_step [OF that(3)] sn(1) that(1) show ?thesis
      by (auto simp: evm_step_def intro: extends_trans)
  qed
  have c: "Gas (SetCodeOptionalHash c x y) = Gas c" for c x y by (simp add: SetCodeOptionalHash_def)
  show ?thesis
    unfolding create_with_def create_post_upon
    apply (intro upon_intros)
    apply (simp_all add: ok create_res_Done funds_step T)
    subgoal by (erule (3) pre)
    subgoal by (drule (3) pre, drule (2) made) blast
    subgoal by (drule (3) pre, frule (2) made, drule trace_start_step, rule body [unfolded create_post_upon])
      (assumption | simp add: c)+
    done
qed

lemma Create_post:
  assumes ok: "evm_ok cr e"
  shows "create_post cr n e g (Create_with loop cr e clr code g v)"
proof -
  have "upon (create_with loop cr (e\<lparr>sdb := s\<rparr>) clr cah g v a) (create_res cr n e g)"
    if "GetNonce cr (sdb e) x = (m, s)" for x m s cah a
  proof -
    have st: "evm_step cr e (e\<lparr>sdb := s\<rparr>)"
      using read_back(4) [OF that evm_extends_refl [OF ok]] by (simp add: evm_step_def)
    have "create_res cr n e g r" if "create_res cr n (e\<lparr>sdb := s\<rparr>) g r" for r
      using that by (cases r) (auto simp: create_res_Done create_res_OutOfFuel intro: evm_step_trans [OF st])
    with create_with_post [OF evm_step_ok [OF ok st], unfolded create_post_upon] show ?thesis
      by (rule upon_mono)
  qed
  then show ?thesis unfolding Create_with_def create_post_upon by (intro upon_intros)
qed

lemma Create2_post:
  assumes ok: "evm_ok cr e"
  shows "create_post cr n e g (Create2_with loop cr e clr code g v salt)"
  unfolding Create2_with_def create_post_upon
  by (intro upon_intros create_with_post [OF ok, unfolded create_post_upon])

end

text \<open>A loop that keeps its contract makes a machine that keeps its own.\<close>

sublocale interpreter_loop \<subseteq> methods: machine_host cr "host_of cr loop" n
  by unfold_locales
    (auto simp: host_of_def intro: Call_post CallCode_post DelegateCall_post StaticCall_post Create_post Create2_post)

context interpreter_loop
begin

lemma host_of_loop: "machine_host cr (host_of cr loop) n"
  by (rule methods.machine_host_axioms)

end

text \<open>The loop of the model keeps the contract at every fuel.\<close>

interpretation rl: interpreter_loop cr "run_loop cr n" n for cr n
proof (induction n)
  case 0
  show ?case by unfold_locales (simp add: loop_post_def upon_def)
next
  case (Suc n)
  have more: "loop_post cr (Suc n) f (run_loop cr n rs)"
    if "unat (Gas (f_contract (rs_frame rs))) < unat (Gas (f_contract f))"
      "evm_step cr (f_evm f) (f_evm (rs_frame rs))" "evm_ok cr (f_evm f)" for rs f
    using interpreter_loop.loop_law [OF Suc evm_step_ok [OF that(3,2)]] that(1,2) unfolding loop_post_def
    by (elim upon_mono) (auto intro: evm_step_trans split: outcome.splits)
  show ?case
  proof unfold_locales
    fix rs :: runState
    assume ok: "evm_ok cr (f_evm (rs_frame rs))"
    from Run_step_post [OF interpreter_loop.host_of_loop [OF Suc] ok]
    show "loop_post cr (Suc n) (rs_frame rs) (run_loop cr (Suc n) rs)"
      unfolding step_post_def loop_post_def run_loop.simps
      by (intro upon_and_then, elim upon_mono)
        (auto split: outcome.splits loopStep.splits intro!: upon_intros more [unfolded loop_post_def] ok)
  qed
qed

end
