(* ===== verification/Evm_Props.thy ===== *)
theory Evm_Props
  imports Machine_Calls Chain_Configs
begin

text \<open>
  What the machine as a whole guarantees to its clients, whatever the code it runs: calls end, gas is
  never created, failed calls leave no trace in the state, and the machine is ready for the next call.
\<close>

section \<open>A machine to try the statements on\<close>

definition sample_context :: Context where
  "sample_context = \<lparr>CanTransferFn = CanTransfer sample_crypto, TransferFn = Transfer sample_crypto,
     GetHash = Some (\<lambda>_. zeroHash), Origin = zeroAddress, GasPrice = 0, Coinbase = zeroAddress, GasLimit = 1000,
     BlockNumber = 0, Time = 0, Difficulty = 0\<rparr>"

definition sample_evm :: EVM where
  "sample_evm = the (NewEVM sample_context sample_state TestChainConfig
     \<lparr>Debug = False, NoRecursion = False, EnablePreimageRecording = False\<rparr> None)"

lemma NewEVM_evm_ok:
  assumes "crypto_ok cr" "state_wf s" "CanTransferFn c = CanTransfer cr" "TransferFn c = Transfer cr"
    "NewEVM c s cfg vc tr = Some e"
  shows "evm_ok cr e" "depth e = 0" "\<not> readOnly e"
  using assms by (auto simp: NewEVM_def evm_ok_def split: if_splits)

lemma sample_NewEVM:
  "NewEVM sample_context sample_state TestChainConfig
     \<lparr>Debug = False, NoRecursion = False, EnablePreimageRecording = False\<rparr> None = Some sample_evm"
  by (simp add: sample_evm_def NewEVM_def TestChainConfig_def IsEWASM_def isForked_def)

lemma sample_evm_ok: "evm_ok sample_crypto sample_evm"
  by (rule NewEVM_evm_ok(1) [OF sample_crypto_ok sample_state_wf _ _ sample_NewEVM])
    (simp_all add: sample_context_def)

section \<open>Termination\<close>

lemmas method_defs = Call_def CallCode_def DelegateCall_def StaticCall_def Create_def Create2_def

lemma call_post_fuel: "call_post cr n e g r \<Longrightarrow> unat g < n \<Longrightarrow> r \<noteq> Some OutOfFuel"
  by (auto simp: call_post_def upon_def)

lemma create_post_fuel: "create_post cr n e g r \<Longrightarrow> unat g < n \<Longrightarrow> r \<noteq> Some OutOfFuel"
  by (auto simp: create_post_def upon_def)

text \<open>
  (C1) Termination: on a machine set up by \<^verbatim>\<open>NewEVM\<close>, every call and every creation ends, whatever the code, the input, the state and
  the depth: more fuel than gas is never used up, because every iteration of the loop that continues consumes gas and
  a callee gets less gas than its caller had.
\<close>

theorem machine_terminates:
  assumes "evm_ok cr e" "unat g < n"
  shows "Call cr n e clr a inp g v \<noteq> Some OutOfFuel \<and>
    CallCode cr n e clr a inp g v \<noteq> Some OutOfFuel \<and>
    DelegateCall cr n e clr a inp g \<noteq> Some OutOfFuel \<and>
    StaticCall cr n e clr a inp g \<noteq> Some OutOfFuel \<and>
    Create cr n e clr code g v \<noteq> Some OutOfFuel \<and>
    Create2 cr n e clr code g v salt \<noteq> Some OutOfFuel"
  unfolding method_defs
  by (intro conjI; (rule call_post_fuel create_post_fuel, (rule rl.Call_post rl.CallCode_post rl.DelegateCall_post
      rl.StaticCall_post rl.Create_post rl.Create2_post), rule assms, rule assms))

theorem machine_terminates_witness:
  "Call sample_crypto 1001 sample_evm (AccountRef zeroAddress) zeroAddress [] 1000 0 \<noteq> Some OutOfFuel"
  using machine_terminates [OF sample_evm_ok, of 1000 1001] by simp

section \<open>Failed calls\<close>

text \<open>
  (C2) Failed calls: a call of any kind that returns an error leaves everything the EVM can observe of the state as it was before
  the call, and unless the code itself reverted, or the call was refused for its depth or for want of funds, it consumes all
  the gas it was given.
\<close>

theorem failed_calls_revert:
  assumes "evm_ok cr e"
    and "Some (Done (ret, left, Some err, e')) \<in> {Call cr n e clr a inp g v, CallCode cr n e clr a inp g v,
       DelegateCall cr n e clr a inp g, StaticCall cr n e clr a inp g}"
  shows "same_view cr (sdb e') (sdb e) \<and>
    (err \<notin> {errExecutionReverted, ErrDepth, ErrInsufficientBalance} \<longrightarrow> left = 0)"
proof -
  have "call_post cr n e g (Some (Done (ret, left, Some err, e')))"
    using assms rl.Call_post [OF assms(1), of n g clr a inp v] rl.CallCode_post [OF assms(1), of n g clr a inp v]
      rl.DelegateCall_post [OF assms(1), of n g clr a inp] rl.StaticCall_post [OF assms(1), of n g clr a inp]
    unfolding method_defs by auto
  then show ?thesis by (auto simp: call_post_def upon_def)
qed

lemma settle_total:
  assumes "state_wf s1" "Snapshot s1 = (i, s2)" "extends cr s2 (sdb e)"
  shows "\<exists>left e'. settle cr i (ret, err, e, c) = Some (Done (ret, left, err, e'))"
proof -
  from sdb.guarded [of s1 cr "sdb e" "err = None", unfolded assms(2) fst_conv] assms(1,3)
  obtain u where "(if err = None then Some (sdb e) else RevertToSnapshot cr (sdb e) i) = Some u" by auto
  then show ?thesis by (cases "err = None") (auto simp: settle_def Let_def)
qed

lemma sample_evm_simps:
  "sdb sample_evm = sample_state" "ctx sample_evm = sample_context" "depth sample_evm = 0"
  "vmConfig sample_evm = \<lparr>Debug = False, NoRecursion = False, EnablePreimageRecording = False\<rparr>"
  "chainConfig sample_evm = TestChainConfig" "jumpdests_of sample_evm = Map.empty"
  by (simp_all add: sample_evm_def NewEVM_def TestChainConfig_def IsEWASM_def isForked_def)

lemma sample_failed_call:
  "\<exists>left e'. StaticCall sample_crypto 51 sample_evm (AccountRef zeroAddress) (BytesToAddress [2]) [] 50 =
     Some (Done ([], left, Some ErrOutOfGas, e'))"
proof -
  let ?a = "BytesToAddress [2]"
  obtain i s where sn: "Snapshot sample_state = (i, s)" by fastforce
  obtain c e where nc: "new_contract (sample_evm\<lparr>sdb := s\<rparr>) (AccountRef zeroAddress) (AccountRef ?a) (Some 0) 50 = (c, e)"
    by fastforce
  obtain c2 e2 where lc: "load_code sample_crypto e c ?a = (c2, e2)" by fastforce
  have fr: "evm_frame e2 = evm_frame sample_evm"
    using new_contract_step(1) [OF nc] load_code_step(1) [OF lc] by simp
  have "extends sample_crypto s (sdb e2)"
    using snapshot_step(2) [OF sample_state_wf sn] load_code_step(3) [OF lc] new_contract_step(3) [OF nc] by simp
  then have ext: "extends sample_crypto s (AddBalance sample_crypto (sdb e2) ?a 0)"
    by (rule write_back(6) [OF sample_crypto_ok])
  have c2: "CodeAddr c2 = Some ?a" "Gas c2 = 50" 
    using lc load_code_step(2) [OF lc] new_contract_step(2) [OF nc]
    by (auto simp: load_code_def SetCallCode_def split: prod.splits)
  let ?e = "e2\<lparr>sdb := AddBalance sample_crypto (sdb e2) ?a 0\<rparr>"
  have "precompiles_of ?e ?a = Some sha256hash"
    using fr unfolding evm_frame_def
    by (simp add: precompiles_of_def sample_evm_simps IsByzantium_def isForked_def TestChainConfig_def sample_context_def
        PrecompiledContractsByzantium_def BytesToAddress_def Address_SetBytes_def zeroAddress_def go_copy_def
        AddressLength_def)
  then have run: "run loop sample_crypto ?e c2 [] True = Some (Done ([], Some ErrOutOfGas, ?e, c2))" for loop
    using c2 by (simp add: run_def RunPrecompiledContract_def RequiredGas_def sha256hash_RequiredGas_def UseGas_def)
  from settle_total [OF sample_state_wf sn, of sample_crypto ?e "[]" "Some ErrOutOfGas" c2] ext
  obtain left e' where st: "settle sample_crypto i ([], Some ErrOutOfGas, ?e, c2) = Some (Done ([], left, Some ErrOutOfGas, e'))"
    by auto
  have "StaticCall sample_crypto 51 sample_evm (AccountRef zeroAddress) ?a [] 50 =
     and_then (run (run_loop sample_crypto 51) sample_crypto ?e c2 [] True) (settle sample_crypto i)"
    by (simp add: StaticCall_def StaticCall_with_def sample_evm_simps sn nc lc Let_def)
  then show ?thesis using run st by simp
qed

theorem failed_calls_revert_witness:
  "\<exists>e'. StaticCall sample_crypto 51 sample_evm (AccountRef zeroAddress) (BytesToAddress [2]) [] 50 =
     Some (Done ([], 0, Some ErrOutOfGas, e')) \<and> same_view sample_crypto (sdb e') (sdb sample_evm)"
proof -
  obtain left e' where r: "StaticCall sample_crypto 51 sample_evm (AccountRef zeroAddress) (BytesToAddress [2]) [] 50 =
     Some (Done ([], left, Some ErrOutOfGas, e'))" using sample_failed_call by blast
  with failed_calls_revert [OF sample_evm_ok, of "[]" left ErrOutOfGas e' 51 "AccountRef zeroAddress" "BytesToAddress [2]" "[]" 50]
  show ?thesis by auto
qed

section \<open>Gas and configuration\<close>

lemma method_step:
  assumes "evm_ok cr e"
    and "Some (Done (ret, left, err, e')) \<in> {Call cr n e clr a inp g v, CallCode cr n e clr a inp g v,
        DelegateCall cr n e clr a inp g, StaticCall cr n e clr a inp g} \<or>
      Some (Done (ret, addr, left, err, e')) \<in> {Create cr n e clr code g v, Create2 cr n e clr code g v salt}"
  shows "evm_step cr e e' \<and> left \<le> g"
proof -
  have *: "call_post cr n e g (Some (Done (ret, left, err, e'))) \<or> create_post cr n e g (Some (Done (ret, addr, left, err, e')))"
    using assms rl.Call_post [OF assms(1), of n g clr a inp v] rl.CallCode_post [OF assms(1), of n g clr a inp v]
      rl.DelegateCall_post [OF assms(1), of n g clr a inp] rl.StaticCall_post [OF assms(1), of n g clr a inp]
      rl.Create_post [OF assms(1), of n g clr code v] rl.Create2_post [OF assms(1), of n g clr code v salt]
    unfolding method_defs by auto
  then show ?thesis by (auto simp: call_post_def create_post_def upon_def word_le_nat_alt)
qed

text \<open>
  (C3) Gas: no call and no creation returns more gas than it was given.
\<close>

theorem gas_never_created:
  assumes "evm_ok cr e"
    and "Some (Done (ret, left, err, e')) \<in> {Call cr n e clr a inp g v, CallCode cr n e clr a inp g v,
        DelegateCall cr n e clr a inp g, StaticCall cr n e clr a inp g} \<or>
      Some (Done (ret, addr, left, err, e')) \<in> {Create cr n e clr code g v, Create2 cr n e clr code g v salt}"
  shows "left \<le> g"
  using method_step [OF assms] by blast

theorem gas_never_created_witness:
  "\<exists>ret left err e'. StaticCall sample_crypto 51 sample_evm (AccountRef zeroAddress) (BytesToAddress [2]) [] 50 =
     Some (Done (ret, left, err, e')) \<and> left \<le> 50"
  using sample_failed_call gas_never_created [OF sample_evm_ok, where n = 51 and clr = "AccountRef zeroAddress" and
      a = "BytesToAddress [2]" and inp = "[]" and g = 50] by fastforce

text \<open>The machines a client can get: set up, and then used by any sequence of calls, creations and cancellations.\<close>

inductive machine_reach :: "crypto \<Rightarrow> ChainConfig \<Rightarrow> Config \<Rightarrow> EVM \<Rightarrow> bool" for cr cfg vc where
  reach_new: "state_wf s \<Longrightarrow> CanTransferFn c = CanTransfer cr \<Longrightarrow> TransferFn c = Transfer cr \<Longrightarrow>
    NewEVM c s cfg vc tr = Some e \<Longrightarrow> machine_reach cr cfg vc e"
| reach_cancel: "machine_reach cr cfg vc e \<Longrightarrow> machine_reach cr cfg vc (Cancel e)"
| reach_call: "machine_reach cr cfg vc e \<Longrightarrow>
    Some (Done (ret, left, err, e')) \<in> {Call cr n e clr a inp g v, CallCode cr n e clr a inp g v,
      DelegateCall cr n e clr a inp g, StaticCall cr n e clr a inp g} \<Longrightarrow> machine_reach cr cfg vc e'"
| reach_create: "machine_reach cr cfg vc e \<Longrightarrow>
    Some (Done (ret, addr, left, err, e')) \<in> {Create cr n e clr code g v, Create2 cr n e clr code g v salt} \<Longrightarrow>
    machine_reach cr cfg vc e'"

text \<open>
  (C10) The machine between runs: after any sequence of calls, creations and cancellations the machine is back at depth 0 and out of read-only
  mode, has the configuration, rules, gas table and instruction set \<^verbatim>\<open>NewEVM\<close> gave it, and its state is well formed.
\<close>

theorem machine_invariant:
  assumes "crypto_ok cr" "machine_reach cr cfg vc e"
  shows "evm_ok cr e \<and> depth e = 0 \<and> \<not> readOnly e \<and> chainConfig e = cfg \<and> vmConfig e = vc"
  using assms(2)
proof induction
  case (reach_new s c tr e)
  with NewEVM_evm_ok [OF assms(1)] show ?case by (auto simp: NewEVM_def split: if_splits)
next
  case (reach_cancel e)
  then show ?case by (simp add: Cancel_def evm_ok_def)
next
  case (reach_call e ret left err e' n clr a inp g v)
  with method_step [of cr e ret left err e' n clr a inp g v] have "evm_step cr e e'" by blast
  with reach_call.IH evm_step_ok [of cr e e'] show ?case by (auto simp: evm_step_def evm_frame_def)
next
  case (reach_create e ret addr left err e' n clr code g v salt)
  with method_step [of cr e ret left err e' n clr _ _ g v addr code salt] have "evm_step cr e e'" by blast
  with reach_create.IH evm_step_ok [of cr e e'] show ?case by (auto simp: evm_step_def evm_frame_def)
qed

lemma sample_reach:
  "machine_reach sample_crypto TestChainConfig \<lparr>Debug = False, NoRecursion = False, EnablePreimageRecording = False\<rparr> sample_evm"
  by (rule reach_new [OF sample_state_wf _ _ sample_NewEVM]) (simp_all add: sample_context_def)

theorem machine_invariant_witness:
  "\<exists>ret left err e'. StaticCall sample_crypto 51 sample_evm (AccountRef zeroAddress) (BytesToAddress [2]) [] 50 =
     Some (Done (ret, left, err, e')) \<and> evm_ok sample_crypto e' \<and> depth e' = 0"
proof -
  obtain left e' where r: "StaticCall sample_crypto 51 sample_evm (AccountRef zeroAddress) (BytesToAddress [2]) [] 50 =
     Some (Done ([], left, Some ErrOutOfGas, e'))" using sample_failed_call by blast
  then have "machine_reach sample_crypto TestChainConfig \<lparr>Debug = False, NoRecursion = False, EnablePreimageRecording = False\<rparr> e'"
    using reach_call [OF sample_reach, of "[]" left "Some ErrOutOfGas" e' 51 "AccountRef zeroAddress" "BytesToAddress [2]" "[]" 50]
    by simp
  with machine_invariant [OF sample_crypto_ok] r show ?thesis by blast
qed

end
