(* ===== verification/Word_Refinement.thy ===== *)
theory Word_Refinement
  imports Instructions "HOL-Library.Signed_Division"
begin

text \<open>
  The arithmetic, comparison and bit instructions compute on unbounded integers with explicit masking. Here they
  refine the operations of the type of 256-bit words: on a stack whose operands are words, each instruction
  replaces them by the word the specification names, changes nothing else and does not fail.
\<close>

unbundle bit_operations_syntax

section \<open>Refinement through the stack\<close>

definition refines1 :: "executionFunc \<Rightarrow> (256 word \<Rightarrow> 256 word) \<Rightarrow> bool" where
  "refines1 ex g \<longleftrightarrow> (\<forall>h f x st. ex h (f\<lparr>f_stack := stk (uint x # st)\<rparr>) =
     Some (Done ([], None, f\<lparr>f_stack := stk (uint (g x) # st)\<rparr>)))"

definition refines2 :: "executionFunc \<Rightarrow> (256 word \<Rightarrow> 256 word \<Rightarrow> 256 word) \<Rightarrow> bool" where
  "refines2 ex g \<longleftrightarrow> (\<forall>h f x y st. ex h (f\<lparr>f_stack := stk (uint x # uint y # st)\<rparr>) =
     Some (Done ([], None, f\<lparr>f_stack := stk (uint (g x y) # st)\<rparr>)))"

definition refines3 :: "executionFunc \<Rightarrow> (256 word \<Rightarrow> 256 word \<Rightarrow> 256 word \<Rightarrow> 256 word) \<Rightarrow> bool" where
  "refines3 ex g \<longleftrightarrow> (\<forall>h f x y z st. ex h (f\<lparr>f_stack := stk (uint x # uint y # uint z # st)\<rparr>) =
     Some (Done ([], None, f\<lparr>f_stack := stk (uint (g x y z) # st)\<rparr>)))"

lemmas refines_simps = refines1_def refines2_def refines3_def stk_simps ret_nil_def

lemma uint_word_arith:
  fixes x y :: "256 word"
  shows "U256 (uint x + uint y) = uint (x + y)" "U256 (uint x - uint y) = uint (x - y)"
    "U256 (uint x * uint y) = uint (x * y)" "U256 (uint x div uint y) = uint (x div y)"
    "U256 (uint x mod uint y) = uint (x mod y)" "U256 (NOT (uint x)) = uint (NOT x)"
  unfolding U256_uint
  by (simp_all add: word_div_def word_mod_def not_eq_complement)

lemma refines_ring: "refines2 opAdd (+)" "refines2 opSub (-)" "refines2 opMul (*)"
  by (simp_all add: refines_simps opAdd_def opSub_def opMul_def uint_word_arith)

lemma refines_div: "refines2 opDiv (div)" "refines2 opMod (\<lambda>x y. if y = 0 then 0 else x mod y)"
  by (simp_all add: refines_simps opDiv_def opMod_def big_Div_def big_Mod_def uint_word_arith uint_0_iff less_le)

lemma refines_compare:
  "refines2 opLt (\<lambda>x y. if x < y then 1 else 0)" "refines2 opGt (\<lambda>x y. if y < x then 1 else 0)"
  "refines2 opEq (\<lambda>x y. if x = y then 1 else 0)" "refines1 opIszero (\<lambda>x. if x = 0 then 1 else 0)"
  by (auto simp add: refines_simps opLt_def opGt_def opEq_def opIszero_def word_less_def word_uint_eq_iff less_le)

lemma refines_bits:
  "refines2 opAnd (AND)" "refines2 opOr (OR)" "refines2 opXor (XOR)" "refines1 opNot NOT"
  by (simp_all add: refines_simps opAnd_def opOr_def opXor_def opNot_def uint_word_arith unsigned_and_eq unsigned_or_eq unsigned_xor_eq)


lemma uint_power: "U256 (uint x ^ n) = uint ((x :: 256 word) ^ n)"
  unfolding U256_uint by simp

lemma opExp_result:
  fixes x y :: "256 word"
  shows "(if uint y < 1 then 1 else if uint x = 0 then 0 else if uint y = 1 then uint x
     else fst (Exp (uint x) (uint y))) = uint (x ^ unat y)"
proof -
  have u: "uint y = int (unat y)" by simp
  have e: "fst (Exp (uint x) (uint y)) = uint (x ^ unat y)"
    by (simp only: Exp_value uint_nonnegative uint_power unat_eq_nat_uint)
  show ?thesis
  proof (cases "uint y < 1")
    case True
    then have "unat y = 0" using u by linarith
    with True show ?thesis by (simp only: if_True power_0 uint_1)
  next
    case False
    then have pos: "0 < unat y" using u by linarith
    show ?thesis
    proof (cases "uint x = 0")
      case True
      then have "x = 0" by (simp only: uint_0_iff)
      with pos False show ?thesis by (simp only: if_True if_False power_0_left unsigned_0 not_less0 neq0_conv [symmetric] refl simp_thms)
    next
      case nz: False
      have "uint y = 1 \<Longrightarrow> unat y = 1" using u by linarith
      then have "uint y = 1 \<Longrightarrow> uint x = uint (x ^ unat y)" by (simp only: power_one_right)
      with nz False e show ?thesis by (cases "uint y = 1") (simp_all only: if_True if_False simp_thms)
    qed
  qed
qed

lemma refines_exp: "refines2 opExp (\<lambda>x y. x ^ unat y)"
  unfolding refines2_def opExp_result [symmetric]
  by (simp add: opExp_def stk_simps ret_nil_def)

lemma refines_modular:
  "refines3 opAddmod (\<lambda>x y z. if z = 0 then 0 else word_of_int ((uint x + uint y) mod uint z))"
  "refines3 opMulmod (\<lambda>x y z. if z = 0 then 0 else word_of_int ((uint x * uint y) mod uint z))"
  by (auto simp: refines_simps opAddmod_def opMulmod_def big_Mod_def U256_uint uint_0_iff less_le)

lemma S256_uint: "S256 (uint x) = sint (x :: 256 word)"
  by (simp add: S256_sint)

lemma sint_less_uint:
  fixes x y :: "256 word"
  shows "sint x < sint y \<longleftrightarrow>
    (if uint x \<ge> tt255 \<and> uint y < tt255 then True else if uint x < tt255 \<and> uint y \<ge> tt255 then False else uint x < uint y)"
proof -
  have b: "0 \<le> uint x" "uint x < tt255 + tt255" "0 \<le> uint y" "uint y < tt255 + tt255"
    using uint_lt2p [of x] uint_lt2p [of y] by (simp_all add: tt255_eq)
  have t: "tt256 = tt255 + tt255" by (simp add: tt255_eq tt256_eq)
  show ?thesis unfolding S256_uint [symmetric] S256_def t using b by (auto; linarith)
qed

lemma refines_signed_compare:
  "refines2 opSlt (\<lambda>x y. if x <s y then 1 else 0)" "refines2 opSgt (\<lambda>x y. if y <s x then 1 else 0)"
  unfolding refines2_def word_sless_alt sint_less_uint opSlt_def opSgt_def
  by (auto simp: stk_simps ret_nil_def)

lemma uint_unat256: "uint (s :: 256 word) = int (unat s)"
  by simp

lemma unat_shift: "uint s < 256 \<Longrightarrow> unat (Uint64 (uint (s :: 256 word))) = unat s"
  using unat_Uint64 [of "uint s"] by (simp add: IsUint64_def)

lemma shift_far: "256 \<le> uint s \<Longrightarrow> 256 \<le> unat (s :: 256 word)"
  using uint_unat256 [of s] by linarith

lemma shift_left_word:
  fixes x :: "256 word"
  shows "U256 (push_bit n (uint x)) = uint (push_bit n x)" "256 \<le> n \<Longrightarrow> push_bit n x = 0"
  by (simp add: U256_uint push_bit_eq_mult) (auto intro!: bit_eqI simp: bit_push_bit_iff)

lemma shift_right_word:
  fixes x :: "256 word"
  shows "U256 (drop_bit n (uint x)) = uint (drop_bit n x)" "256 \<le> n \<Longrightarrow> drop_bit n x = 0"
proof -
  have "take_bit 256 (uint x) = uint x"
    using uint_lt2p [of x] by (intro take_bit_int_eq_self) simp_all
  then have "uint (drop_bit n x) = drop_bit n (uint x)" by (simp add: unsigned_drop_bit_eq)
  then show "U256 (drop_bit n (uint x)) = uint (drop_bit n x)" by (metis U256_id uint_word256)
qed (auto intro!: bit_eqI simp: bit_drop_bit_eq dest: bit_imp_le_length)

lemma refines_shift:
  "refines2 opSHL (\<lambda>s x. push_bit (unat s) x)" "refines2 opSHR (\<lambda>s x. drop_bit (unat s) x)"
proof -
  have l: "(if 256 \<le> uint s then 0 else U256 (push_bit (unat (Uint64 (uint s))) (uint x))) = uint (push_bit (unat s) x)"
    and r: "(if 256 \<le> uint s then 0 else U256 (drop_bit (unat (Uint64 (uint s))) (uint x))) = uint (drop_bit (unat s) x)"
    for s x :: "256 word"
    using shift_left_word(2) [OF shift_far, of s x] shift_right_word(2) [OF shift_far, of s x]
    by (simp_all add: shift_left_word(1) shift_right_word(1) unat_shift not_le)
  have u: "U256 (uint x) = uint x" for x :: "256 word" by (simp add: U256_id)
  show "refines2 opSHL (\<lambda>s x. push_bit (unat s) x)" "refines2 opSHR (\<lambda>s x. drop_bit (unat s) x)"
    unfolding refines2_def l [symmetric] r [symmetric] opSHL_def opSHR_def
    by (simp_all add: stk_simps ret_nil_def u Let_def)
qed

lemma arithmetic_shift_word:
  fixes x :: "256 word"
  shows "U256 (drop_bit n (sint x)) = uint (signed_drop_bit n x)"
    "256 \<le> n \<Longrightarrow> U256 (if 0 \<le> sint x then 0 else - 1) = uint (signed_drop_bit n x)"
proof -
  have "word_of_int (drop_bit n (sint x)) = signed_drop_bit n x"
    by (metis scast_eq scast_id sint_signed_drop_bit_eq)
  then show a: "U256 (drop_bit n (sint x)) = uint (signed_drop_bit n x)" by (simp only: U256_uint)
  assume n: "256 \<le> n"
  have "bit x 255 \<longleftrightarrow> sint x < 0" using bit_last_iff [of x] by simp
  then show "U256 (if 0 \<le> sint x then 0 else - 1) = uint (signed_drop_bit n x)"
    using n unfolding U256_uint by (simp add: signed_drop_bit_beyond)
qed

lemma refines_sar: "refines2 opSAR (\<lambda>s x. signed_drop_bit (unat s) x)"
proof -
  have r: "(if 256 \<le> uint s then U256 (if 0 \<le> sint x then 0 else - 1) else U256 (drop_bit (unat (Uint64 (uint s))) (sint x))) =
      uint (signed_drop_bit (unat s) x)" for s x :: "256 word"
    using arithmetic_shift_word(2) [OF shift_far, of s x]
    by (simp add: arithmetic_shift_word(1) unat_shift not_le)
  have u: "U256 (uint x) = uint x" for x :: "256 word" by (simp add: U256_id)
  show ?thesis
    unfolding refines2_def r [symmetric] opSAR_def
    by (simp add: stk_simps ret_nil_def u Let_def S256_uint)
qed

lemma refines_signed_div:
  "refines2 opSdiv (\<lambda>x y. word_of_int (sint x sdiv sint y))"
  "refines2 opSmod (\<lambda>x y. if y = 0 then 0 else word_of_int (sint x smod sint y))"
proof -
  have s: "sint x = 0 \<longleftrightarrow> x = 0" for x :: "256 word" by (metis scast_0 scast_eq scast_id signed_0)
  have d: "(if y = 0 \<or> x = 0 then 0 else U256 (if sgn x \<noteq> sgn y then - big_Div \<bar>x\<bar> \<bar>y\<bar> else big_Div \<bar>x\<bar> \<bar>y\<bar>)) =
      U256 (x sdiv y)" for x y
    by (auto simp: signed_divide_int_def big_Div_def sgn_if U256_mod)
  have m: "(if x < 0 then - big_Mod \<bar>x\<bar> \<bar>y\<bar> else big_Mod \<bar>x\<bar> \<bar>y\<bar>) = x smod y" for x y
    by (auto simp: signed_modulo_int_def big_Mod_def sgn_if)
  show "refines2 opSdiv (\<lambda>x y. word_of_int (sint x sdiv sint y))"
    unfolding refines2_def U256_uint [symmetric] d [symmetric] opSdiv_def
    by (simp add: stk_simps ret_nil_def S256_uint Let_def)
  show "refines2 opSmod (\<lambda>x y. if y = 0 then 0 else word_of_int (sint x smod sint y))"
    unfolding refines2_def opSmod_def Let_def m
    by (simp add: stk_simps ret_nil_def S256_uint s U256_uint)
qed

lemma sign_extend_int:
  "(if bit k n then k OR NOT (push_bit n 1 - 1) else k AND (push_bit n 1 - 1)) = signed_take_bit n (k :: int)"
  by (rule bit_eqI) (auto simp: bit_simps mask_eq_exp_minus_1 [symmetric] push_bit_of_1 min_def)

lemma sign_extend_word: "n < 255 \<Longrightarrow> U256 (signed_take_bit n (uint x)) = uint (signed_take_bit n (x :: 256 word))"
proof -
  assume "n < 255"
  then have "word_of_int (signed_take_bit n (uint x)) = signed_take_bit n x"
    by (intro bit_eqI) (auto simp: bit_simps bit_word_of_int_iff bit_uint_iff)
  then show ?thesis by (simp only: U256_uint)
qed

lemma refines_signextend:
  "refines2 opSignExtend (\<lambda>k x. if k < 31 then signed_take_bit (8 * unat k + 7) x else x)"
proof -
  have u: "unat (Uint64 (uint k) * 8 + 7) = 8 * unat k + 7" "8 * unat k + 7 < 255" if "uint k < 31" for k :: "256 word"
  proof -
    have k: "unat (Uint64 (uint k)) = unat k" "unat k < 31" using unat_shift [of k] that uint_unat256 [of k] by linarith+
    then show "8 * unat k + 7 < 255" by simp
    have "unat (Uint64 (uint k) * 8) = unat k * 8" using k by (subst unat_mult_u64) simp_all
    with k show "unat (Uint64 (uint k) * 8 + 7) = 8 * unat k + 7" by (subst unat_add_u64) simp_all
  qed
  have "(if uint k < 31 then stk (U256 (if bit (uint x) (unat (Uint64 (uint k) * 8 + 7))
         then uint x OR NOT (push_bit (unat (Uint64 (uint k) * 8 + 7)) 1 - 1)
         else uint x AND (push_bit (unat (Uint64 (uint k) * 8 + 7)) 1 - 1)) # st) else stk (uint x # st)) =
      stk (uint (if k < 31 then signed_take_bit (8 * unat k + 7) x else x) # st)" for k x :: "256 word" and st
    unfolding sign_extend_int using sign_extend_word [OF u(2), of k x] u(1) [of k]
    by (simp add: word_less_def)
  note r = this
  show ?thesis
    unfolding refines2_def r [symmetric] opSignExtend_def
    by (simp add: stk_simps ret_nil_def Let_def)
qed

lemma byte_word:
  fixes x :: "256 word"
  assumes "k < 32"
  shows "uint (Byte (uint x) 32 k) = uint (drop_bit (8 * (31 - k)) x AND 255)"
proof -
  have "uint (drop_bit (8 * (31 - k)) x AND 255) = drop_bit (8 * (31 - k)) (uint x) AND 255"
    using uint_lt2p [of x] by (simp add: unsigned_and_eq unsigned_drop_bit_eq take_bit_int_eq_self)
  also have "\<dots> = (uint x div 2 ^ (8 * (31 - k))) mod 256"
    using take_bit_eq_mask [of 8 "drop_bit (8 * (31 - k)) (uint x)"]
    by (simp add: drop_bit_eq_div take_bit_eq_mod mask_eq_exp_minus_1)
  also have "\<dots> = int (unat x div 256 ^ (31 - k) mod 256)"
    unfolding uint_unat256 by (simp add: power_mult zdiv_int zmod_int)
  also have "\<dots> = uint (Byte (uint x) 32 k)"
    using assms unfolding uint_unat256
    by (simp add: Byte_def bigEndianByteAt_eq uint_byte_of_nat del: of_nat_unat)
  finally show ?thesis by simp
qed

lemma uint_numeral32: "uint (32 :: 256 word) = 32"
  by simp

lemma refines_byte:
  "refines2 opByte (\<lambda>i x. if i < 32 then drop_bit (8 * (31 - unat i)) x AND 255 else 0)"
proof -
  have "(if uint i < 32 then uint (Byte (uint x) 32 (nat (Int64 (uint i)))) else 0) =
      uint (if i < 32 then drop_bit (8 * (31 - unat i)) x AND 255 else 0)" for i x :: "256 word"
  proof (cases "uint i < 32")
    case True
    then have "Int64 (uint i) = uint i" by (intro Int64_small) simp_all
    then have i: "nat (Int64 (uint i)) = unat i" by (simp only: nat_uint_eq)
    have "unat i < 32" using True uint_unat256 [of i] by linarith
    with True i byte_word [of "unat i" x] show ?thesis
      by (simp only: word_less_def if_True uint_numeral32 simp_thms)
  next
    case False
    then show ?thesis by (simp only: word_less_def if_False uint_numeral32 unsigned_0 simp_thms)
  qed
  note r = this
  show ?thesis
    unfolding refines2_def r [symmetric] opByte_def
    by (simp add: stk_simps ret_nil_def)
qed

section \<open>The instructions\<close>

text \<open>
  (C7) The arithmetic of the EVM: on operands that are 256-bit words, ADD, SUB, MUL, DIV, MOD, SDIV, SMOD, EXP, SIGNEXTEND, ADDMOD, MULMOD,
  the comparisons, the bitwise operations, BYTE and the three shifts compute the word operation of the same
  name, with the results the yellow paper prescribes for a zero divisor, an index out of range and a shift of 256 or more.
\<close>

theorem arithmetic_refines_words:
  "refines2 opAdd (+) \<and> refines2 opSub (-) \<and> refines2 opMul (*) \<and>
   refines2 opDiv (div) \<and> refines2 opMod (\<lambda>x y. if y = 0 then 0 else x mod y) \<and>
   refines2 opSdiv (\<lambda>x y. word_of_int (sint x sdiv sint y)) \<and>
   refines2 opSmod (\<lambda>x y. if y = 0 then 0 else word_of_int (sint x smod sint y)) \<and>
   refines2 opExp (\<lambda>x y. x ^ unat y) \<and>
   refines2 opSignExtend (\<lambda>k x. if k < 31 then signed_take_bit (8 * unat k + 7) x else x) \<and>
   refines3 opAddmod (\<lambda>x y z. if z = 0 then 0 else word_of_int ((uint x + uint y) mod uint z)) \<and>
   refines3 opMulmod (\<lambda>x y z. if z = 0 then 0 else word_of_int ((uint x * uint y) mod uint z)) \<and>
   refines2 opLt (\<lambda>x y. if x < y then 1 else 0) \<and> refines2 opGt (\<lambda>x y. if y < x then 1 else 0) \<and>
   refines2 opSlt (\<lambda>x y. if x <s y then 1 else 0) \<and> refines2 opSgt (\<lambda>x y. if y <s x then 1 else 0) \<and>
   refines2 opEq (\<lambda>x y. if x = y then 1 else 0) \<and> refines1 opIszero (\<lambda>x. if x = 0 then 1 else 0) \<and>
   refines2 opAnd (AND) \<and> refines2 opOr (OR) \<and> refines2 opXor (XOR) \<and> refines1 opNot NOT \<and>
   refines2 opByte (\<lambda>i x. if i < 32 then drop_bit (8 * (31 - unat i)) x AND 255 else 0) \<and>
   refines2 opSHL (\<lambda>s x. push_bit (unat s) x) \<and> refines2 opSHR (\<lambda>s x. drop_bit (unat s) x) \<and>
   refines2 opSAR (\<lambda>s x. signed_drop_bit (unat s) x)"
  by (intro conjI refines_ring refines_div refines_signed_div refines_exp refines_signextend refines_modular
      refines_compare refines_signed_compare refines_bits refines_byte refines_shift refines_sar)

end
