(* ===== verification/Gas_Props.thy ===== *)
theory Gas_Props
  imports Evm_Props
begin

text \<open>
  What the gas functions charge: memory by an exact quadratic fee, the callee by the rule of all but one 64th, and storage
  by net metering.
\<close>

section \<open>Memory expansion\<close>

definition memory_fee :: "nat \<Rightarrow> nat" where
  "memory_fee w = 3 * w + w * w div 512"

definition words_of :: "nat \<Rightarrow> nat" where
  "words_of n = (n + 31) div 32"

definition mem_priced :: "Memory \<Rightarrow> bool" where
  "mem_priced mem \<longleftrightarrow> 32 dvd length (store mem) \<and> length (store mem) \<le> 0x1FFFFFFFE0 \<and>
     unat (lastGasCost mem) = memory_fee (length (store mem) div 32)"

lemma memory_fee_mono: "a \<le> b \<Longrightarrow> memory_fee a \<le> memory_fee b"
  unfolding memory_fee_def by (intro add_mono mult_mono div_le_mono) auto

lemma unat_words:
  assumes "unat n \<le> 0x1FFFFFFFE0"
  shows "unat (toWordSize n) = words_of (unat n)" "words_of (unat n) \<le> 0xFFFFFFFF"
    "unat (toWordSize n * 32) = 32 * words_of (unat n)"
proof -
  show w: "unat (toWordSize n) = words_of (unat n)" by (simp add: toWordSize_exact words_of_def)
  show b: "words_of (unat n) \<le> 0xFFFFFFFF" using assms by (simp add: words_of_def)
  show "unat (toWordSize n * 32) = 32 * words_of (unat n)" using w b by (subst unat_mult_u64) simp_all
qed

lemma unat_total_fee:
  assumes "unat w \<le> 0xFFFFFFFF"
  shows "unat (w * MemoryGas + w * w div QuadCoeffDiv) = memory_fee (unat w)"
proof -
  have "unat w * unat w \<le> 0xFFFFFFFF * 0xFFFFFFFF" using assms by (intro mult_mono) simp_all
  then have "unat (w * w) = unat w * unat w" "unat w * unat w div 512 \<le> 0xFFFFFFFF * 0xFFFFFFFF div 512"
    by (simp_all add: unat_mult_u64 div_le_mono)
  moreover have "unat (w * MemoryGas) = 3 * unat w" using assms by (subst unat_mult_u64) simp_all
  ultimately show ?thesis
    using assms by (subst unat_add_u64) (simp_all add: memory_fee_def unat_div)
qed

lemma unat_Memory_Len: "mem_priced mem \<Longrightarrow> unat (word_of_nat (Memory_Len mem) :: u64) = length (store mem)"
  by (simp add: mem_priced_def Memory_Len_def unat_u64_of_nat)

lemma memoryGasCost_expands:
  assumes p: "mem_priced mem" and n: "unat n \<le> 0x1FFFFFFFE0" and c: "memoryGasCost mem n = (r, mem')"
  shows "\<exists>fee. r = Inr fee \<and>
    unat fee + memory_fee (length (store mem) div 32) = memory_fee (max (length (store mem) div 32) (words_of (unat n)))"
    and "mem_priced (Resize mem' (toWordSize n * 32))"
proof -
  note w = unat_words [OF n]
  let ?L = "length (store mem)" and ?W = "words_of (unat n)"
  have L: "?L = 32 * (?L div 32)" using p by (simp add: mem_priced_def)
  have gt: "toWordSize n * 32 > word_of_nat (Memory_Len mem) \<longleftrightarrow> ?L div 32 < ?W"
    using L w(3) by (simp add: word_less_nat_alt unat_Memory_Len [OF p]) linarith
  have "\<exists>fee. r = Inr fee \<and> unat fee + memory_fee (?L div 32) = memory_fee (max (?L div 32) ?W) \<and>
      mem_priced (Resize mem' (toWordSize n * 32))"
  proof (cases "?L div 32 < ?W")
    case False
    have "n = 0 \<Longrightarrow> ?W = 0" by (simp add: words_of_def)
    with False gt n c have "r = Inr 0" "mem' = mem"
      by (auto simp: memoryGasCost_def word_less_nat_alt Let_def split: if_splits)
    with False gt p show ?thesis by (simp add: Resize_def max_def)
  next
    case True
    then have n0: "n \<noteq> 0" by (auto simp: words_of_def)
    let ?T = "toWordSize n * MemoryGas + toWordSize n * toWordSize n div QuadCoeffDiv"
    have T: "unat ?T = memory_fee ?W" using unat_total_fee [of "toWordSize n"] w(1,2) by simp
    have r: "r = Inr (?T - lastGasCost mem)" "mem' = mem\<lparr>lastGasCost := ?T\<rparr>"
      using c True gt n n0 by (auto simp: memoryGasCost_def word_less_nat_alt Let_def split: if_splits)
    have le: "unat (lastGasCost mem) \<le> memory_fee ?W"
      using p memory_fee_mono [of "?L div 32" ?W] True by (simp add: mem_priced_def)
    then have "unat (?T - lastGasCost mem) = memory_fee ?W - unat (lastGasCost mem)"
      using T by (subst unat_sub_u64) (simp_all add: word_le_nat_alt)
    moreover have "length (store (Resize mem' (toWordSize n * 32))) = 32 * ?W"
    proof -
      have "unat (toWordSize n * 32 - word_of_nat (Memory_Len mem)) = 32 * ?W - ?L"
        using True L w(3) by (subst unat_sub_u64) (simp_all add: word_le_nat_alt unat_Memory_Len [OF p])
      with True gt L r(2) show ?thesis by (simp add: Resize_def Memory_Len_def)
    qed
    ultimately show ?thesis
      using le r T True p w(2) by (auto simp: mem_priced_def Resize_def max_def)
  qed
  then show "\<exists>fee. r = Inr fee \<and> unat fee + memory_fee (?L div 32) = memory_fee (max (?L div 32) ?W)"
    and "mem_priced (Resize mem' (toWordSize n * 32))" by blast+
qed

text \<open>
  (C25) Memory is paid for exactly: while the memory is priced (its length is a whole number of words and its last fee is the quadratic
  fee of that length), \<^verbatim>\<open>memoryGasCost\<close> rejects exactly the sizes above the bound and otherwise charges, without
  wrap-around, the difference between the fee of the new and of the old size; expanding the memory as the
  interpreter does keeps it priced.
\<close>

theorem memoryGasCost_exact:
  assumes "mem_priced mem" "memoryGasCost mem n = (r, mem')"
  shows "if unat n \<le> 0x1FFFFFFFE0
    then (\<exists>fee. r = Inr fee \<and> unat fee + memory_fee (length (store mem) div 32) =
        memory_fee (max (length (store mem) div 32) (words_of (unat n)))) \<and>
      mem_priced (Resize mem' (toWordSize n * 32))
    else r = Inl errGasUintOverflow \<and> mem' = mem"
proof (cases "unat n \<le> 0x1FFFFFFFE0")
  case True
  with memoryGasCost_expands [OF assms(1) _ assms(2)] show ?thesis by simp
next
  case False
  then have "n > 0x1FFFFFFFE0" "n \<noteq> 0" by (auto simp: word_less_nat_alt)
  with False assms(2) show ?thesis by (simp add: memoryGasCost_def)
qed

lemma NewMemory_priced: "mem_priced NewMemory"
  by (simp add: mem_priced_def NewMemory_def memory_fee_def)

theorem memoryGasCost_exact_witness:
  "\<exists>fee mem'. memoryGasCost NewMemory 33 = (Inr fee, mem') \<and> unat fee = 6 \<and> mem_priced (Resize mem' 64)"
proof -
  obtain r mem' where m: "memoryGasCost NewMemory 33 = (r, mem')" by fastforce
  from memoryGasCost_exact [OF NewMemory_priced m] show ?thesis
    using m by (auto simp: NewMemory_def memory_fee_def words_of_def toWordSize_def)
qed

section \<open>Gas of a callee\<close>

text \<open>
  (C26) All but one 64th: since EIP-150, what a call instruction that can be paid for passes on to the callee is the gas asked for on the stack, capped at
  all but one 64th of what is left after the cost of the instruction itself; the subtraction in
  \<^verbatim>\<open>callGas\<close> then does not wrap around.
\<close>

theorem callGas_all_but_one_64th:
  assumes "gt_CreateBySuicide gt > 0" "0 \<le> cost" "callGas gt available base cost = Inr g"
    and "unat base + unat g \<le> unat available"
  shows "unat g = min (nat cost) (unat available - unat base - (unat available - unat base) div 64)"
proof -
  let ?A = "unat available - unat base"
  have A: "unat (available - base) = ?A" using assms(4) by (subst unat_sub_u64) (simp_all add: word_le_nat_alt)
  have "available - base \<ge> (available - base) div 64" by (simp add: word_le_nat_alt unat_div)
  then have G: "unat (available - base - (available - base) div 64) = ?A - ?A div 64"
    using A by (simp add: unat_sub_u64 unat_div)
  have lt: "?A - ?A div 64 < 2 ^ 64" using unat_u64_less [of available] by simp
  show ?thesis
  proof (cases "IsUint64 cost")
    case True
    then have "unat (Uint64 cost) = nat cost" by (rule unat_Uint64)
    with True assms(1,3) G show ?thesis
      by (cases "available - base - (available - base) div 64 < Uint64 cost")
        (simp_all add: callGas_def Let_def word_less_nat_alt min_def, (simp add: not_less flip: G)?)
  next
    case False
    with assms(1-3) G lt show ?thesis
      by (auto simp: callGas_def Let_def IsUint64_def min_def)
  qed
qed

theorem callGas_all_but_one_64th_witness:
  "callGas GasTableEIP150 6400 0 (2 ^ 70) = Inr 6300 \<and> (6300 :: nat) = min (nat (2 ^ 70)) (6400 - 0 - (6400 - 0) div 64)"
  using callGas_all_but_one_64th [of GasTableEIP150 "2 ^ 70" 6400 0 6300]
  by (simp add: callGas_def GasTableEIP150_def IsUint64_def)

section \<open>Net gas metering of storage\<close>

text \<open>What the writes of a transaction to a slot have cost, net of refunds and of 200 gas for each write.\<close>

definition sstore_potential :: "Hash \<Rightarrow> Hash \<Rightarrow> int" where
  "sstore_potential original current =
     (if current = original then 0 else if original = zeroHash then 19800
      else if current = zeroHash then 4800 - 15000 else 4800)"

lemma SubRefund_refund: "SubRefund s g = Some s' \<Longrightarrow> uint (refund s') = uint (refund s) - uint g"
  by (auto simp: SubRefund_def Let_def add_entry_def not_less uint_minus_simple_alt split: if_splits)

lemma AddRefund_refund:
  assumes "uint (refund s) < 2 ^ 63" "uint g < 2 ^ 63"
  shows "uint (refund (AddRefund s g)) = uint (refund s) + uint g"
proof -
  have "uint (refund s) + uint g < 2 ^ LENGTH(64)" using assms by simp
  then show ?thesis by (simp only: uint_add_lem) (simp add: AddRefund_def Let_def add_entry_def)
qed

text \<open>
  (C27) Net metering (EIP-1283): between Constantinople and Petersburg the gas charged for a write to a slot, less the change of the refund counter, is 200
  plus the difference that the write makes to a potential of the slot that only depends on its value before
  the transaction and its current value. Over any sequence of writes to a slot the costs therefore add up to 200
  for each write plus the potential of the final value.
\<close>

theorem gasSStore_net:
  assumes wf: "state_wf (sdb e)" and rules: "rIsConstantinople (chainRules e)" "\<not> rIsPetersburg (chainRules e)"
    and small: "uint (refund (sdb e)) < 2 ^ 63"
    and stack: "Back st 0 = Some x" "Back st 1 = Some y"
    and cur: "fst (GetState cr (sdb e) (Contract_Address c) (BigToHash x)) = current"
    and orig: "fst (GetCommittedState cr (sdb e) (Contract_Address c) (BigToHash x)) = original"
    and gas: "gasSStore cr gt e c st mem ms = Some (r, e', mem')"
  shows "\<exists>cost. r = Inr cost \<and>
    uint cost - (uint (refund (sdb e')) - uint (refund (sdb e))) =
    200 + sstore_potential original (BigToHash y) - sstore_potential original current"
proof -
  obtain s1 where g1: "GetState cr (sdb e) (Contract_Address c) (BigToHash x) = (current, s1)"
    using cur by (cases "GetState cr (sdb e) (Contract_Address c) (BigToHash x)") auto
  note r1 = GetState_read [OF wf g1, THEN conjunct1]
  obtain o2 s2 where g2: "GetCommittedState cr s1 (Contract_Address c) (BigToHash x) = (o2, s2)" by fastforce
  have wf1: "state_wf s1" using r1 by (simp add: read_ok_def)
  note r2 = GetCommittedState_read [OF wf1 g2]
  have o: "o2 = original"
    using r2 r1 orig GetCommittedState_read [OF wf, of cr "Contract_Address c" "BigToHash x"]
    by (cases "GetCommittedState cr (sdb e) (Contract_Address c) (BigToHash x)") (auto simp: read_ok_def same_view_def)
  have f: "refund s1 = refund (sdb e)" "refund s2 = refund (sdb e)"
    using r1 r2 by (auto simp: read_ok_def same_view_def)
  have small': "uint (refund s1) < 2 ^ 63" "uint (refund s2) < 2 ^ 63" using small f by simp_all
  show ?thesis
    using gas g1 g2 o small' stack rules
    by (auto simp: gasSStore_def sstore_potential_def Let_def f AddRefund_refund split: if_splits Option.bind_splits dest!: SubRefund_refund)
qed

definition sample_net_evm :: EVM where
  "sample_net_evm = sample_evm\<lparr>chainRules := (chainRules sample_evm)\<lparr>rIsConstantinople := True, rIsPetersburg := False\<rparr>\<rparr>"

lemma sample_missing: "getStateObject cr sample_state a = (None, sample_state)"
  by (simp add: getStateObject_def sample_state_def StateDB_New_def)

theorem gasSStore_net_witness:
  "\<exists>cost e'. gasSStore sample_crypto GasTableConstantinople sample_net_evm sample_contract (stk [1, 5]) NewMemory 0 =
     Some (Inr cost, e', NewMemory) \<and> uint cost - (uint (refund (sdb e')) - uint (refund (sdb sample_net_evm))) = 20000"
proof -
  have "last (replicate 31 (0 :: byte) @ [5]) \<noteq> last (replicate 32 0)" by simp
  then have "replicate 31 (0 :: byte) @ [5] \<noteq> replicate 32 0" by metis
  moreover have "nat_bytes 5 = [5]" by (simp add: nat_bytes.simps)
  ultimately have v: "BigToHash 5 \<noteq> zeroHash"
    by (simp add: Let_def BigToHash_def BytesToHash_def Hash_SetBytes_def zeroHash_def HashLength_def go_copy_def Bytes_def)
  have s: "sdb sample_net_evm = sample_state" "fst (GetState cr sample_state a k) = zeroHash"
    "fst (GetCommittedState cr sample_state a k) = zeroHash" for cr a k
    by (simp_all add: sample_net_evm_def sample_evm_simps GetState_def GetCommittedState_def sample_missing)
  have g: "gasSStore sample_crypto GasTableConstantinople sample_net_evm sample_contract (stk [1, 5]) NewMemory 0 =
     Some (Inr 20000, sample_net_evm, NewMemory)"
    using v by (simp add: gasSStore_def stk_simps s GetState_def GetCommittedState_def sample_missing Let_def sample_net_evm_def sample_evm_simps)
  have rl: "rIsConstantinople (chainRules sample_net_evm)" "\<not> rIsPetersburg (chainRules sample_net_evm)"
    by (simp_all add: sample_net_evm_def)
  have z: "refund sample_state = 0" by (simp add: sample_state_def StateDB_New_def)
  from gasSStore_net [OF _ rl _ _ _ refl refl g, of 1 5] v g show ?thesis
    by (simp add: s z sample_state_wf stk_simps sstore_potential_def)
qed

end
