(* ===== verification/Machine_Fuel.thy ===== *)
theory Machine_Fuel
  imports Evm_Props
begin

text \<open>
  The fuel that bounds the recursion of the interpreter has no influence on the results: more fuel only completes runs that
  were cut off, and with more fuel than gas none is.
\<close>

section \<open>Results that more fuel can only complete\<close>

definition le_res :: "'a outcome option \<Rightarrow> 'a outcome option \<Rightarrow> bool" where
  "le_res r r' \<longleftrightarrow> r = Some OutOfFuel \<or> r = r'"

named_theorems le_intros \<open>syntax-directed rules for the order on results\<close>

lemma le_res_refl [simp, intro]: "le_res r r"
  by (simp add: le_res_def)

lemma le_res_trans: "le_res r s \<Longrightarrow> le_res s t \<Longrightarrow> le_res r t"
  by (auto simp: le_res_def)

lemma le_res_and_then [le_intros]:
  "le_res m m' \<Longrightarrow> (\<And>x. le_res (k x) (k' x)) \<Longrightarrow> le_res (and_then m k) (and_then m' k')"
  by (cases "m'" rule: option.exhaust) (fastforce simp: le_res_def and_then_def split: outcome.splits)+

lemma le_res_bind [le_intros]: "(\<And>x. le_res (k x) (k' x)) \<Longrightarrow> le_res (m \<bind> k) (m \<bind> k')"
  by (cases m) auto

lemma le_res_if [le_intros]: "le_res a a' \<Longrightarrow> le_res b b' \<Longrightarrow> le_res (if c then a else b) (if c then a' else b')"
  by simp

lemma le_res_let [le_intros]: "le_res (k v) (k' v) \<Longrightarrow> le_res (Let v k) (Let v k')"
  by simp

lemma le_res_prod [le_intros]:
  "(\<And>x y. le_res (k x y) (k' x y)) \<Longrightarrow> le_res (case p of (x, y) \<Rightarrow> k x y) (case p of (x, y) \<Rightarrow> k' x y)"
  by (cases p) simp

lemma le_res_option [le_intros]:
  "le_res a a' \<Longrightarrow> (\<And>x. le_res (k x) (k' x)) \<Longrightarrow>
   le_res (case p of None \<Rightarrow> a | Some x \<Rightarrow> k x) (case p of None \<Rightarrow> a' | Some x \<Rightarrow> k' x)"
  by (cases p) simp_all

definition host_le :: "host \<Rightarrow> host \<Rightarrow> bool" where
  "host_le h h' \<longleftrightarrow> h_crypto h = h_crypto h' \<and>
     (\<forall>e clr a inp g v. le_res (h_Call h e clr a inp g v) (h_Call h' e clr a inp g v) \<and>
        le_res (h_CallCode h e clr a inp g v) (h_CallCode h' e clr a inp g v) \<and>
        le_res (h_DelegateCall h e clr a inp g) (h_DelegateCall h' e clr a inp g) \<and>
        le_res (h_StaticCall h e clr a inp g) (h_StaticCall h' e clr a inp g) \<and>
        le_res (h_Create h e clr inp g v) (h_Create h' e clr inp g v)) \<and>
     (\<forall>e clr inp g v salt. le_res (h_Create2 h e clr inp g v salt) (h_Create2 h' e clr inp g v salt))"

lemma host_leD [le_intros]:
  "host_le h h' \<Longrightarrow> le_res (h_Call h e clr a inp g v) (h_Call h' e clr a inp g v)"
  "host_le h h' \<Longrightarrow> le_res (h_CallCode h e clr a inp g v) (h_CallCode h' e clr a inp g v)"
  "host_le h h' \<Longrightarrow> le_res (h_DelegateCall h e clr a inp g) (h_DelegateCall h' e clr a inp g)"
  "host_le h h' \<Longrightarrow> le_res (h_StaticCall h e clr a inp g) (h_StaticCall h' e clr a inp g)"
  "host_le h h' \<Longrightarrow> le_res (h_Create h e clr inp g v) (h_Create h' e clr inp g v)"
  "host_le h h' \<Longrightarrow> le_res (h_Create2 h e clr inp g v salt) (h_Create2 h' e clr inp g v salt)"
  by (simp_all add: host_le_def)

section \<open>The instructions\<close>

definition mono_instr :: "executionFunc \<Rightarrow> bool" where
  "mono_instr ex \<longleftrightarrow> (\<forall>h h' f. host_le h h' \<longrightarrow> le_res (ex h f) (ex h' f))"

lemma mono_call:
  "mono_instr opCall" "mono_instr opCallCode" "mono_instr opDelegateCall" "mono_instr opStaticCall"
  "mono_instr opCreate" "mono_instr opCreate2"
  unfolding mono_instr_def opCall_def opCallCode_def opDelegateCall_def opStaticCall_def opCreate_def opCreate2_def
  by (intro allI impI, intro le_intros le_res_refl; assumption)+

text \<open>The others only use the cryptography of the host.\<close>

lemma mono_pure: "(\<And>h h' f. h_crypto h = h_crypto h' \<Longrightarrow> ex h f = ex h' f) \<Longrightarrow> mono_instr ex"
  unfolding mono_instr_def host_le_def by (metis le_res_refl)

lemma mono_arith:
  "mono_instr opAdd" "mono_instr opSub" "mono_instr opMul" "mono_instr opDiv" "mono_instr opSdiv" "mono_instr opMod"
  "mono_instr opSmod" "mono_instr opExp" "mono_instr opSignExtend" "mono_instr opNot" "mono_instr opLt" "mono_instr opGt"
  "mono_instr opSlt" "mono_instr opSgt" "mono_instr opEq" "mono_instr opIszero" "mono_instr opAnd" "mono_instr opOr"
  "mono_instr opXor" "mono_instr opByte" "mono_instr opAddmod" "mono_instr opMulmod" "mono_instr opSHL"
  "mono_instr opSHR" "mono_instr opSAR"
  by (rule mono_pure, simp only: opAdd_def opSub_def opMul_def opDiv_def opSdiv_def opMod_def opSmod_def opExp_def
      opSignExtend_def opNot_def opLt_def opGt_def opSlt_def opSgt_def opEq_def opIszero_def opAnd_def opOr_def
      opXor_def opByte_def opAddmod_def opMulmod_def opSHL_def opSHR_def opSAR_def)+

lemma mono_env:
  "mono_instr opSha3" "mono_instr opAddress" "mono_instr opBalance" "mono_instr opOrigin" "mono_instr opCaller"
  "mono_instr opCallValue" "mono_instr opCallDataLoad" "mono_instr opCallDataSize" "mono_instr opCallDataCopy"
  "mono_instr opReturnDataSize" "mono_instr opReturnDataCopy" "mono_instr opExtCodeSize" "mono_instr opCodeSize"
  "mono_instr opCodeCopy" "mono_instr opExtCodeCopy" "mono_instr opExtCodeHash" "mono_instr opGasprice"
  "mono_instr opBlockhash" "mono_instr opCoinbase" "mono_instr opTimestamp" "mono_instr opNumber"
  "mono_instr opDifficulty" "mono_instr opGasLimit"
  by (rule mono_pure, simp only: opSha3_def opAddress_def opBalance_def opOrigin_def opCaller_def opCallValue_def
      opCallDataLoad_def opCallDataSize_def opCallDataCopy_def opReturnDataSize_def opReturnDataCopy_def
      opExtCodeSize_def opCodeSize_def opCodeCopy_def opExtCodeCopy_def opExtCodeHash_def opGasprice_def
      opBlockhash_def opCoinbase_def opTimestamp_def opNumber_def opDifficulty_def opGasLimit_def)+

lemma mono_rest:
  "mono_instr opPop" "mono_instr opMload" "mono_instr opMstore" "mono_instr opMstore8" "mono_instr opSload"
  "mono_instr opSstore" "mono_instr opJump" "mono_instr opJumpi" "mono_instr opJumpdest" "mono_instr opPc"
  "mono_instr opMsize" "mono_instr opGas" "mono_instr opReturn" "mono_instr opRevert" "mono_instr opStop"
  "mono_instr opSuicide" "mono_instr (makeLog n)" "mono_instr opPush1" "mono_instr (makePush k m)"
  "mono_instr (makeDup n)" "mono_instr (makeSwap n)"
  by (rule mono_pure, simp only: opPop_def opMload_def opMstore_def opMstore8_def opSload_def opSstore_def opJump_def
      opJumpi_def opJumpdest_def opPc_def opMsize_def opGas_def opReturn_def opRevert_def opStop_def opSuicide_def
      makeLog_def opPush1_def makePush_def makeDup_def makeSwap_def)+

section \<open>The loop and the methods\<close>

lemma table_mono: "mono_instr (execute (JumpTable s op))"
proof (rule JumpTable_all)
  have z: "mono_instr (execute zero_op)" by (simp add: zero_op_simps mono_instr_def)
  show "list_all (\<lambda>p. mono_instr (execute p)) all_operations"
    unfolding all_operations_simps
    by (simp add: z mono_arith mono_env mono_rest mono_call)
qed

lemma le_res_loopStep [le_intros]:
  "(\<And>a b c. le_res (k a b c) (k' a b c)) \<Longrightarrow> (\<And>a. le_res (j a) (j' a)) \<Longrightarrow>
   le_res (case p of Return a b c \<Rightarrow> k a b c | Continue a \<Rightarrow> j a) (case p of Return a b c \<Rightarrow> k' a b c | Continue a \<Rightarrow> j' a)"
  by (cases p) simp_all

lemma Run_step_mono:
  assumes "host_le h h'"
  shows "le_res (Run_step h rs) (Run_step h' rs)"
proof -
  have c: "h_crypto h = h_crypto h'" using assms by (simp add: host_le_def)
  have ex: "le_res (execute (JumpTable s op) h f) (execute (JumpTable s op) h' f)" for s op f
    using table_mono [of s op] assms by (simp add: mono_instr_def)
  show ?thesis
    unfolding Run_step_def execute_step_def c
    by (intro le_intros ex le_res_refl)
qed

definition loop_le :: "(runState \<Rightarrow> loopResult) \<Rightarrow> (runState \<Rightarrow> loopResult) \<Rightarrow> bool" where
  "loop_le l l' \<longleftrightarrow> (\<forall>rs. le_res (l rs) (l' rs))"

lemma loop_leD [le_intros]: "loop_le l l' \<Longrightarrow> le_res (l rs) (l' rs)"
  by (simp add: loop_le_def)

lemma run_mono [le_intros]: "loop_le l l' \<Longrightarrow> le_res (run l cr e c inp ro) (run l' cr e c inp ro)"
  unfolding run_def Interpreter_Run_def by (intro le_intros le_res_refl; assumption)

lemma methods_mono [le_intros]:
  assumes "loop_le l l'"
  shows "le_res (Call_with l cr e clr a inp g v) (Call_with l' cr e clr a inp g v)"
    "le_res (CallCode_with l cr e clr a inp g v) (CallCode_with l' cr e clr a inp g v)"
    "le_res (DelegateCall_with l cr e clr a inp g) (DelegateCall_with l' cr e clr a inp g)"
    "le_res (StaticCall_with l cr e clr a inp g) (StaticCall_with l' cr e clr a inp g)"
    "le_res (create_with l cr e clr cah g v a) (create_with l' cr e clr cah g v a)"
  unfolding Call_with_def CallCode_with_def DelegateCall_with_def StaticCall_with_def create_with_def
  by (intro le_intros le_res_refl assms)+

lemma creations_mono [le_intros]:
  assumes "loop_le l l'"
  shows "le_res (Create_with l cr e clr code g v) (Create_with l' cr e clr code g v)"
    "le_res (Create2_with l cr e clr code g v salt) (Create2_with l' cr e clr code g v salt)"
  unfolding Create_with_def Create2_with_def by (intro le_intros le_res_refl assms)+

lemma host_of_mono: "loop_le l l' \<Longrightarrow> host_le (host_of cr l) (host_of cr l')"
  unfolding host_le_def host_of_def by (simp add: methods_mono creations_mono)

lemma run_loop_mono_Suc: "loop_le (run_loop cr n) (run_loop cr (Suc n))"
proof (induction n)
  case 0
  show ?case by (simp add: loop_le_def le_res_def)
next
  case (Suc n)
  have step: "le_res (and_then (Run_step (host_of cr l) rs) (\<lambda>r. case r of
        Return ret err rs \<Rightarrow> Some (Done (ret, err, rs)) | Continue rs \<Rightarrow> l rs))
      (and_then (Run_step (host_of cr l') rs) (\<lambda>r. case r of
        Return ret err rs \<Rightarrow> Some (Done (ret, err, rs)) | Continue rs \<Rightarrow> l' rs))" if "loop_le l l'" for l l' rs
    by (intro le_res_and_then le_res_loopStep Run_step_mono host_of_mono that le_res_refl loop_leD)
  show ?case unfolding loop_le_def
  proof
    fix rs
    from step [OF Suc.IH, of rs] show "le_res (run_loop cr (Suc n) rs) (run_loop cr (Suc (Suc n)) rs)"
      by (simp only: run_loop.simps(2) [of cr "Suc n" rs] run_loop.simps(2) [of cr n rs])
  qed
qed

lemma run_loop_mono: "n \<le> m \<Longrightarrow> loop_le (run_loop cr n) (run_loop cr m)"
proof (induction m rule: dec_induct)
  case base
  show ?case by (simp add: loop_le_def)
next
  case (step m)
  with run_loop_mono_Suc [of cr m] show ?case unfolding loop_le_def by (blast intro: le_res_trans)
qed

section \<open>The result does not depend on the fuel\<close>

lemma le_res_eq: "le_res r r' \<Longrightarrow> r \<noteq> Some OutOfFuel \<Longrightarrow> r' = r"
  by (auto simp: le_res_def)

lemma enough_eq:
  assumes "\<And>k. unat g < k \<Longrightarrow> F k \<noteq> Some OutOfFuel" "\<And>k l. k \<le> l \<Longrightarrow> le_res (F k) (F l)" "unat g < n" "unat g < m"
  shows "F n = F m"
  using assms by (metis le_res_eq nle_le)

text \<open>
  (C12) Fuel is no part of the meaning: any two amounts of fuel greater than the gas give the same result, for the four kinds of call and
  both creations. The fuel of the model only bounds the recursion; with one more than the gas the model computes what
  the unbounded loops and recursive calls of the code compute.
\<close>

theorem fuel_irrelevant:
  assumes "evm_ok cr e" "unat g < n" "unat g < m"
  shows "Call cr n e clr a inp g v = Call cr m e clr a inp g v \<and>
    CallCode cr n e clr a inp g v = CallCode cr m e clr a inp g v \<and>
    DelegateCall cr n e clr a inp g = DelegateCall cr m e clr a inp g \<and>
    StaticCall cr n e clr a inp g = StaticCall cr m e clr a inp g \<and>
    Create cr n e clr code g v = Create cr m e clr code g v \<and>
    Create2 cr n e clr code g v salt = Create2 cr m e clr code g v salt"
  unfolding method_defs
  by (intro conjI; rule enough_eq [where g = g]; (rule assms)?)
    (erule
      call_post_fuel [OF rl.Call_post [OF assms(1)]] call_post_fuel [OF rl.CallCode_post [OF assms(1)]]
      call_post_fuel [OF rl.DelegateCall_post [OF assms(1)]] call_post_fuel [OF rl.StaticCall_post [OF assms(1)]]
      create_post_fuel [OF rl.Create_post [OF assms(1)]] create_post_fuel [OF rl.Create2_post [OF assms(1)]] |
     (intro methods_mono creations_mono run_loop_mono, assumption))+

theorem fuel_irrelevant_witness:
  "Call sample_crypto 51 sample_evm (AccountRef zeroAddress) zeroAddress [] 50 0 =
   Call sample_crypto 1000 sample_evm (AccountRef zeroAddress) zeroAddress [] 50 0"
  using fuel_irrelevant [OF sample_evm_ok, of 50 51 1000] by simp

end
