(* ===== verification/Stack_Safety.thy ===== *)
theory Stack_Safety
  imports Evm_Props
begin

text \<open>
  The operand stack of a frame. Every execution function moves the height of the stack by a fixed amount; the bounds in
  the jump tables are those amounts, so an iteration of the loop neither underflows the stack nor lets it grow past its limit.
\<close>

section \<open>What an instruction takes from the stack and leaves on it\<close>

definition shape :: "executionFunc \<Rightarrow> nat \<Rightarrow> nat \<Rightarrow> bool" where
  "shape ex pops pushes \<longleftrightarrow> (\<forall>h f. upon (ex h f) (\<lambda>r. case r of
     OutOfFuel \<Rightarrow> True
   | Done (res, err, f') \<Rightarrow> err = None \<longrightarrow> Stack_len (f_stack f') + pops = Stack_len (f_stack f) + pushes))"

lemma stack_lens:
  "pop st = Some (x, st') \<Longrightarrow> Stack_len st = Suc (Stack_len st')"
  "peek st = Some x \<Longrightarrow> 0 < Stack_len st"
  "set_peek st v = Some st' \<Longrightarrow> Stack_len st' = Stack_len st \<and> 0 < Stack_len st"
  "dup st n = Some st' \<Longrightarrow> Stack_len st' = Suc (Stack_len st) \<and> n \<le> Stack_len st"
  "swap st n = Some st' \<Longrightarrow> Stack_len st' = Stack_len st \<and> n \<le> Stack_len st"
  by (auto simp: pop_def peek_def set_peek_def dup_def swap_def Stack_len_def push_def Let_def split: if_splits Option.bind_splits)

lemma push_len [simp]: "Stack_len (push st v) = Suc (Stack_len st)"
  by (simp add: push_def Stack_len_def)

lemma upon_any_and_then: "(\<And>x. upon (k x) Q) \<Longrightarrow> Q OutOfFuel \<Longrightarrow> upon (and_then m k) Q"
  by (rule upon_and_then) (auto simp: upon_def split: outcome.splits)

lemma shapeI:
  assumes "\<And>h f. upon (ex h f) (\<lambda>r. case r of OutOfFuel \<Rightarrow> True
    | Done (res, err, f') \<Rightarrow> err = None \<longrightarrow> Stack_len (f_stack f') + pops = Stack_len (f_stack f) + pushes)"
  shows "shape ex pops pushes"
  using assms by (simp add: shape_def)

lemma shape_binary:
  "shape opAdd 2 1" "shape opSub 2 1" "shape opMul 2 1" "shape opDiv 2 1" "shape opSdiv 2 1" "shape opMod 2 1"
  "shape opSmod 2 1" "shape opExp 2 1" "shape opSignExtend 2 1" "shape opNot 1 1" "shape opLt 2 1" "shape opGt 2 1"
  "shape opSlt 2 1" "shape opSgt 2 1" "shape opEq 2 1" "shape opIszero 1 1" "shape opAnd 2 1" "shape opOr 2 1"
  "shape opXor 2 1" "shape opByte 2 1" "shape opAddmod 3 1" "shape opMulmod 3 1" "shape opSHL 2 1"
  "shape opSHR 2 1" "shape opSAR 2 1"
  unfolding opAdd_def opSub_def opMul_def opDiv_def opSdiv_def opMod_def opSmod_def opExp_def
      opSignExtend_def opNot_def opLt_def opGt_def opSlt_def opSgt_def opEq_def opIszero_def opAnd_def opOr_def
      opXor_def opByte_def opAddmod_def opMulmod_def opSHL_def opSHR_def opSAR_def
  by (rule shapeI, intro upon_intros; auto dest!: stack_lens)+

lemma shape_env:
  "shape opSha3 2 1" "shape opAddress 0 1" "shape opBalance 1 1" "shape opOrigin 0 1" "shape opCaller 0 1"
  "shape opCallValue 0 1" "shape opCallDataLoad 1 1" "shape opCallDataSize 0 1" "shape opCallDataCopy 3 0"
  "shape opReturnDataSize 0 1" "shape opReturnDataCopy 3 0" "shape opExtCodeSize 1 1" "shape opCodeSize 0 1"
  "shape opCodeCopy 3 0" "shape opExtCodeCopy 4 0" "shape opExtCodeHash 1 1" "shape opGasprice 0 1"
  "shape opBlockhash 1 1" "shape opCoinbase 0 1" "shape opTimestamp 0 1" "shape opNumber 0 1"
  "shape opDifficulty 0 1" "shape opGasLimit 0 1"
  unfolding opSha3_def opAddress_def opBalance_def opOrigin_def opCaller_def opCallValue_def
      opCallDataLoad_def opCallDataSize_def opCallDataCopy_def opReturnDataSize_def opReturnDataCopy_def
      opExtCodeSize_def opCodeSize_def opCodeCopy_def opExtCodeCopy_def opExtCodeHash_def opGasprice_def
      opBlockhash_def opCoinbase_def opTimestamp_def opNumber_def opDifficulty_def opGasLimit_def
  by (rule shapeI, intro upon_intros; auto dest!: stack_lens split: prod.splits if_splits)+

lemma pop_topics_len: "pop_topics n st = Some (ts, st') \<Longrightarrow> Stack_len st = n + Stack_len st'"
  by (induction n arbitrary: st ts) (auto dest!: stack_lens split: Option.bind_splits)

lemma f_validJumpdest_stack: "f_validJumpdest f pos = Some (ok, f') \<Longrightarrow> f_stack f' = f_stack f"
  by (auto simp: f_validJumpdest_def Let_def split: Option.bind_splits prod.splits)

lemma shape_rest:
  "shape opPop 1 0" "shape opMload 1 1" "shape opMstore 2 0" "shape opMstore8 2 0" "shape opSload 1 1"
  "shape opSstore 2 0" "shape opJump 1 0" "shape opJumpi 2 0" "shape opJumpdest 0 0" "shape opPc 0 1"
  "shape opMsize 0 1" "shape opGas 0 1" "shape opReturn 2 0" "shape opRevert 2 0" "shape opStop 0 0"
  "shape opSuicide 1 0" "shape (makeLog n) (n + 2) 0" "shape opPush1 0 1" "shape (makePush k m) 0 1"
  "shape (makeDup d) d (d + 1)" "shape (makeSwap d) (d + 1) (d + 1)"
  unfolding opPop_def opMload_def opMstore_def opMstore8_def opSload_def opSstore_def opJump_def
      opJumpi_def opJumpdest_def opPc_def opMsize_def opGas_def opReturn_def opRevert_def opStop_def opSuicide_def
      makeLog_def opPush1_def makePush_def makeDup_def makeSwap_def
  by (rule shapeI, intro upon_intros; auto dest!: stack_lens pop_topics_len f_validJumpdest_stack split: prod.splits if_splits)+

lemma finish_call_shape:
  "upon (finish_call f st ro rs x) (\<lambda>r. case r of OutOfFuel \<Rightarrow> True
    | Done (res, err, f') \<Rightarrow> Stack_len (f_stack f') = Suc (Stack_len st))"
  unfolding finish_call_def by (intro upon_intros) auto

lemma shape_calls:
  "shape opCall 7 1" "shape opCallCode 7 1" "shape opDelegateCall 6 1" "shape opStaticCall 6 1"
  "shape opCreate 3 1" "shape opCreate2 4 1"
  unfolding opCall_def opCallCode_def opDelegateCall_def opStaticCall_def opCreate_def opCreate2_def
  by (rule shapeI, intro upon_intros upon_any_and_then;
      (auto dest!: stack_lens split: prod.splits if_splits; fail)?;
      (rule upon_mono [OF finish_call_shape], auto dest!: stack_lens split: outcome.splits)?)+

section \<open>The bounds in the tables\<close>

definition well_shaped :: "operation \<Rightarrow> bool" where
  "well_shaped p \<longleftrightarrow> (valid p \<longrightarrow> 0 \<le> op_minStack p \<and> op_maxStack p \<le> uint StackLimit + op_minStack p \<and>
     shape (execute p) (nat (op_minStack p)) (nat (uint StackLimit + op_minStack p - op_maxStack p)))"

lemma shape_at: "shape ex a b \<Longrightarrow> a = a' \<Longrightarrow> b = b' \<Longrightarrow> shape ex a' b'"
  by simp

lemmas shapes = shape_binary [THEN shape_at] shape_env [THEN shape_at] shape_rest [THEN shape_at]
  shape_calls [THEN shape_at]

lemmas stack_bound_defs = minStack_def maxStack_def minDupStack_def maxDupStack_def minSwapStack_def maxSwapStack_def

lemma table_well_shaped: "well_shaped (JumpTable s op)"
  by (rule JumpTable_all)
    (simp add: all_operations_simps well_shaped_def zero_op_simps stack_bound_defs shapes)

lemma charge_op_stack:
  "charge_op cr p rs = Some (err, ms, rs') \<Longrightarrow> f_stack (rs_frame rs') = f_stack (rs_frame rs)"
  by (auto simp: charge_op_def use_dynamic_gas_def Let_def
      split: if_splits option.splits prod.splits sum.splits Option.bind_splits)

lemma before_execute_stack: "before_execute rs ms = Some rs' \<Longrightarrow> f_stack (rs_frame rs') = f_stack (rs_frame rs)"
  by (auto simp: before_execute_def Let_def split: if_splits Option.bind_splits)

lemma Run_step_continue:
  assumes "Run_step h rs = Some (Done (Continue rs'))"
  obtains e1 rs0 p ms rs1 rs2 where
    "load_abort (f_evm (rs_frame rs)) = (False, e1)" "rs0 = begin_step (rs\<lparr>rs_frame := (rs_frame rs)\<lparr>f_evm := e1\<rparr>\<rparr>)"
    "p = JumpTable (instrSet e1) (rs_op rs0)" "check_op e1 (rs_op rs0) p (f_stack (rs_frame rs0)) = Some None"
    "charge_op (h_crypto h) p rs0 = Some (None, ms, rs1)" "before_execute rs1 ms = Some rs2"
    "execute_step h p rs2 = Some (Done (Continue rs'))"
  using assms
  by (auto simp: Run_step_def Let_def fail_def simp del: begin_step_frame begin_step_op
      split: prod.splits if_splits option.splits Option.bind_splits)

lemma execute_step_continue:
  assumes "execute_step h p rs = Some (Done (Continue rs'))"
  obtains res f where "execute p h (rs_frame rs) = Some (Done (res, None, f))" "\<not> reverts p" "\<not> halts p"
    "f_stack (rs_frame rs') = f_stack f" "f_memory (rs_frame rs') = f_memory f" "f_contract (rs_frame rs') = f_contract f"
    "f_pc (rs_frame rs') = (if jumps p then f_pc f else f_pc f + 1)"
    "f_evm (rs_frame rs') = (if returns p then (f_evm f)\<lparr>returnData := res\<rparr> else f_evm f)"
proof -
  from assms obtain res err f where x: "execute p h (rs_frame rs) = Some (Done (res, err, f))"
    by (cases "execute p h (rs_frame rs)") (auto simp: execute_step_def and_then_def split: outcome.splits)
  with assms show thesis
    by (intro that [of res f]) (auto simp: execute_step_def Let_def split: if_splits)
qed

lemma shapeD:
  "shape ex pops pushes \<Longrightarrow> ex h f = Some (Done (res, None, f')) \<Longrightarrow>
   Stack_len (f_stack f') + pops = Stack_len (f_stack f) + pushes"
  unfolding shape_def upon_def by fastforce

text \<open>
  (C11) The operand stack: whatever the instruction and the host, an iteration of the interpreter that continues has executed a valid instruction of the
  table for which there were enough operands, has changed the height of the stack by exactly what the entry of the table says, and
  leaves at most 1024 elements on it.
\<close>

theorem stack_bounded:
  assumes "Run_step h rs = Some (Done (Continue rs'))"
  defines "p \<equiv> JumpTable (instrSet (f_evm (rs_frame rs))) (GetOp (f_contract (rs_frame rs)) (f_pc (rs_frame rs)))"
    and "old \<equiv> Stack_len (f_stack (rs_frame rs))" and "new \<equiv> Stack_len (f_stack (rs_frame rs'))"
  shows "valid p \<and> op_minStack p \<le> int old \<and> new \<le> 1024 \<and>
    int new = int old + (1024 - op_maxStack p)"
proof -
  from assms(1) obtain e1 rs0 q ms rs1 rs2 where a: "load_abort (f_evm (rs_frame rs)) = (False, e1)"
    and rs0: "rs0 = begin_step (rs\<lparr>rs_frame := (rs_frame rs)\<lparr>f_evm := e1\<rparr>\<rparr>)"
    and q: "q = JumpTable (instrSet e1) (rs_op rs0)" and ck: "check_op e1 (rs_op rs0) q (f_stack (rs_frame rs0)) = Some None"
    and ch: "charge_op (h_crypto h) q rs0 = Some (None, ms, rs1)" and b: "before_execute rs1 ms = Some rs2"
    and ex: "execute_step h q rs2 = Some (Done (Continue rs'))" by (rule Run_step_continue)
  have "instrSet e1 = instrSet (f_evm (rs_frame rs))" using load_abort_step [OF a] by (simp add: evm_frame_def)
  then have qp: "q = p" using q rs0 by (simp add: p_def)
  have len: "Stack_len (f_stack (rs_frame rs2)) = old"
    using charge_op_stack [OF ch] before_execute_stack [OF b] rs0 by (simp add: old_def)
  from ex obtain res f where x: "execute q h (rs_frame rs2) = Some (Done (res, None, f))" "f_stack (rs_frame rs') = f_stack f"
    by (rule execute_step_continue)
  note c = check_op_None [OF ck]
  have w: "well_shaped p" unfolding p_def by (rule table_well_shaped)
  then have "shape (execute p) (nat (op_minStack p)) (nat (uint StackLimit + op_minStack p - op_maxStack p))"
    using c qp by (simp add: well_shaped_def)
  from shapeD [OF this x(1) [unfolded qp]] have
    "new + nat (op_minStack p) = old + nat (uint StackLimit + op_minStack p - op_maxStack p)"
    using len x(2) by (simp add: new_def)
  moreover have "0 \<le> op_minStack p" "op_maxStack p \<le> 1024 + op_minStack p" using w c qp by (simp_all add: well_shaped_def)
  ultimately have "int new = int old + (1024 - op_maxStack p)" by simp
  moreover have "valid p" "op_minStack p \<le> int old" "int old \<le> op_maxStack p"
    using c qp rs0 by (simp_all add: old_def)
  ultimately show ?thesis by simp
qed

definition sample_run :: "bytes \<Rightarrow> runState" where
  "sample_run code = \<lparr>rs_frame = \<lparr>f_pc = 0, f_evm = sample_evm,
       f_contract = SetCallCode (fst (NewContract (AccountRef zeroAddress) (AccountRef zeroAddress) (Some 0) 1000 Map.empty)) None zeroHash code,
       f_memory = NewMemory, f_stack = newstack\<rparr>,
     rs_op = 0, rs_cost = 0, rs_pcCopy = 0, rs_gasCopy = 0, rs_logged = False\<rparr>"

lemma sample_instrSet: "instrSet sample_evm = ConstantinopleSet" "abort sample_evm = None" "readOnly sample_evm = False"
  by (simp_all add: sample_evm_def NewEVM_def TestChainConfig_def IsEWASM_def isForked_def NewEVMInterpreter_set_def
      IsConstantinople_def sample_context_def)

lemmas table_defs = JumpTable_def newConstantinopleInstructionSet_def newByzantiumInstructionSet_def
  newHomesteadInstructionSet_def newFrontierInstructionSet_def frontier_part1_def frontier_part2_def frontier_part3_def
  frontier_part4_def frontier_part5_def frontier_part6_def frontier_part7_def

lemma PUSH1_entry:
  "JumpTable ConstantinopleSet PUSH1 = zero_op\<lparr>execute := opPush1, constantGas := GasFastestStep,
     op_minStack := minStack 0 1, op_maxStack := maxStack 0 1, valid := True\<rparr>"
  by (simp add: table_defs)

lemma sample_PUSH1:
  "\<exists>rs'. Run_step h (sample_run [PUSH1, 5]) = Some (Done (Continue rs')) \<and> data (f_stack (rs_frame rs')) = [5] \<and> f_pc (rs_frame rs') = 2"
  by (simp add: Run_step_def sample_run_def load_abort_def sample_instrSet begin_step_def sample_evm_simps
      SetCallCode_def NewContract_def GetOp_def GetByte_def PUSH1_entry check_op_def zero_op_simps minStack_def maxStack_def
      Stack_len_def newstack_def charge_op_def UseGas_def needed_memory_def use_dynamic_gas_def before_execute_def
      execute_step_def opPush1_def ret_nil_def push_def)

theorem stack_bounded_witness:
  "\<exists>rs'. Run_step (host_of sample_crypto (run_loop sample_crypto 0)) (sample_run [PUSH1, 5]) = Some (Done (Continue rs')) \<and>
    Stack_len (f_stack (rs_frame rs')) \<le> 1024"
  using sample_PUSH1 stack_bounded by metis

end
