(* ===== verification/Flow_Safety.thy ===== *)
theory Flow_Safety
  imports Stack_Safety
begin

text \<open>
  The program counter of a frame. Every instruction but the jumps moves it by the width of its own encoding, and the jumps are
  checked against the analysis of the code, so execution stays on the instructions of the code.
\<close>

section \<open>Where an instruction continues\<close>

definition pc_moves :: "executionFunc \<Rightarrow> u64 \<Rightarrow> bool" where
  "pc_moves ex n \<longleftrightarrow> (\<forall>h f. upon (ex h f) (\<lambda>r. case r of
     OutOfFuel \<Rightarrow> True
   | Done (res, err, f') \<Rightarrow> f_pc f' = f_pc f + n \<and> Code (f_contract f') = Code (f_contract f)))"

lemma pc_movesI:
  assumes "\<And>h f. upon (ex h f) (\<lambda>r. case r of OutOfFuel \<Rightarrow> True
    | Done (res, err, f') \<Rightarrow> f_pc f' = f_pc f + n \<and> Code (f_contract f') = Code (f_contract f))"
  shows "pc_moves ex n"
  using assms by (simp add: pc_moves_def)

lemma pc_binary:
  "pc_moves opAdd 0" "pc_moves opSub 0" "pc_moves opMul 0" "pc_moves opDiv 0" "pc_moves opSdiv 0" "pc_moves opMod 0"
  "pc_moves opSmod 0" "pc_moves opExp 0" "pc_moves opSignExtend 0" "pc_moves opNot 0" "pc_moves opLt 0" "pc_moves opGt 0"
  "pc_moves opSlt 0" "pc_moves opSgt 0" "pc_moves opEq 0" "pc_moves opIszero 0" "pc_moves opAnd 0" "pc_moves opOr 0"
  "pc_moves opXor 0" "pc_moves opByte 0" "pc_moves opAddmod 0" "pc_moves opMulmod 0" "pc_moves opSHL 0"
  "pc_moves opSHR 0" "pc_moves opSAR 0"
  unfolding opAdd_def opSub_def opMul_def opDiv_def opSdiv_def opMod_def opSmod_def opExp_def
      opSignExtend_def opNot_def opLt_def opGt_def opSlt_def opSgt_def opEq_def opIszero_def opAnd_def opOr_def
      opXor_def opByte_def opAddmod_def opMulmod_def opSHL_def opSHR_def opSAR_def
  by (rule pc_movesI, intro upon_intros; simp)+

lemma pc_env:
  "pc_moves opSha3 0" "pc_moves opAddress 0" "pc_moves opBalance 0" "pc_moves opOrigin 0" "pc_moves opCaller 0"
  "pc_moves opCallValue 0" "pc_moves opCallDataLoad 0" "pc_moves opCallDataSize 0" "pc_moves opCallDataCopy 0"
  "pc_moves opReturnDataSize 0" "pc_moves opReturnDataCopy 0" "pc_moves opExtCodeSize 0" "pc_moves opCodeSize 0"
  "pc_moves opCodeCopy 0" "pc_moves opExtCodeCopy 0" "pc_moves opExtCodeHash 0" "pc_moves opGasprice 0"
  "pc_moves opBlockhash 0" "pc_moves opCoinbase 0" "pc_moves opTimestamp 0" "pc_moves opNumber 0"
  "pc_moves opDifficulty 0" "pc_moves opGasLimit 0"
  unfolding opSha3_def opAddress_def opBalance_def opOrigin_def opCaller_def opCallValue_def
      opCallDataLoad_def opCallDataSize_def opCallDataCopy_def opReturnDataSize_def opReturnDataCopy_def
      opExtCodeSize_def opCodeSize_def opCodeCopy_def opExtCodeCopy_def opExtCodeHash_def opGasprice_def
      opBlockhash_def opCoinbase_def opTimestamp_def opNumber_def opDifficulty_def opGasLimit_def
  by (rule pc_movesI, intro upon_intros; auto split: prod.splits if_splits)+

lemma pc_rest:
  "pc_moves opPop 0" "pc_moves opMload 0" "pc_moves opMstore 0" "pc_moves opMstore8 0" "pc_moves opSload 0"
  "pc_moves opSstore 0" "pc_moves opJumpdest 0" "pc_moves opPc 0"
  "pc_moves opMsize 0" "pc_moves opGas 0" "pc_moves opReturn 0" "pc_moves opRevert 0" "pc_moves opStop 0"
  "pc_moves opSuicide 0" "pc_moves (makeLog n) 0" "pc_moves opPush1 1" "pc_moves (makePush k m) k"
  "pc_moves (makeDup d) 0" "pc_moves (makeSwap d) 0"
  unfolding opPop_def opMload_def opMstore_def opMstore8_def opSload_def opSstore_def
      opJumpdest_def opPc_def opMsize_def opGas_def opReturn_def opRevert_def opStop_def opSuicide_def
      makeLog_def opPush1_def makePush_def makeDup_def makeSwap_def
  by (rule pc_movesI, intro upon_intros; auto split: prod.splits if_splits)+

lemma UseGas_Code: "UseGas c g = (ok, c') \<Longrightarrow> Code c' = Code c"
  by (auto simp: UseGas_def split: if_splits)

lemma finish_call_pc:
  "upon (finish_call f st ro rs x) (\<lambda>r. case r of OutOfFuel \<Rightarrow> True
    | Done (res, err, f') \<Rightarrow> f_pc f' = f_pc f \<and> Code (f_contract f') = Code (f_contract f))"
  unfolding finish_call_def by (intro upon_intros) auto

lemma pc_calls:
  "pc_moves opCall 0" "pc_moves opCallCode 0" "pc_moves opDelegateCall 0" "pc_moves opStaticCall 0"
  "pc_moves opCreate 0" "pc_moves opCreate2 0"
  unfolding opCall_def opCallCode_def opDelegateCall_def opStaticCall_def opCreate_def opCreate2_def
  by (rule pc_movesI, intro upon_intros upon_any_and_then;
      (auto dest!: UseGas_Code split: prod.splits if_splits; fail)?;
      (rule upon_mono [OF finish_call_pc], auto split: outcome.splits)?)+

definition push_width :: "OpCode \<Rightarrow> u64" where
  "push_width op = (if IsPush op then ucast (op - 0x5f) else 0)"

text \<open>What the tables say of an opcode: which entries jump, and that the others skip exactly the immediate bytes of the opcode.\<close>

definition moves_as :: "OpCode \<Rightarrow> operation \<Rightarrow> bool" where
  "moves_as op p \<longleftrightarrow> (valid p \<longrightarrow> (if jumps p then \<not> IsPush op \<and> (execute p = opJump \<or> execute p = opJumpi) else pc_moves (execute p) (push_width op)))"

lemmas pc_facts = pc_binary pc_env pc_rest pc_calls

lemma pc_at: "pc_moves ex a \<Longrightarrow> a = b \<Longrightarrow> pc_moves ex b"
  by simp

lemma table_moves: "moves_as op (JumpTable s op)"
  by (rule JumpTable_entries)
    (simp_all add: all_entries_simps moves_as_def zero_op_simps pc_facts [THEN pc_at] push_width_def IsPush_def)

section \<open>Instruction boundaries\<close>

lemma unat_push_width: "unat (push_width op) = (if IsPush op then unat op - 0x5f else 0)" "unat (push_width op) \<le> 32"
proof -
  have u: "unat (ucast (op - 0x5f) :: u64) = unat (op - 0x5f)"
    using unsigned_less [of "op - 0x5f", where ?'a = nat] by (simp add: unsigned_ucast_eq take_bit_nat_eq_self_iff)
  have "IsPush op \<Longrightarrow> unat (op - 0x5f) = unat op - 0x5f \<and> unat op \<le> 0x7f" using push_width [of op] by simp
  with u show "unat (push_width op) = (if IsPush op then unat op - 0x5f else 0)" "unat (push_width op) \<le> 32"
    by (auto simp: push_width_def)
qed

lemma push_width_next:
  assumes "unat pc < length code" "length code < 2 ^ 62"
  shows "unat (pc + push_width (code ! unat pc) + 1) = next_pc code (unat pc)"
proof -
  note w = unat_push_width [of "code ! unat pc"]
  have "unat pc + unat (push_width (code ! unat pc)) + 1 < 2 ^ 64" using w(2) assms by simp
  then have "unat (pc + push_width (code ! unat pc) + 1) = unat pc + unat (push_width (code ! unat pc)) + 1"
    by (simp add: unat_word_ariths)
  with w(1) show ?thesis by (simp add: next_pc_def)
qed

lemma jump_target:
  assumes "f_validJumpdest f pos = Some (ok, f')" "0 \<le> pos" "length (Code (f_contract f)) < 2 ^ 62"
    "cache_ok (f_contract f) (jumpdests_of (f_evm f))"
  shows "Code (f_contract f') = Code (f_contract f)" "ok \<longleftrightarrow> jumpdest_ok (Code (f_contract f)) pos" "f_pc f' = f_pc f"
    "ok \<Longrightarrow> unat (Uint64 pos) = nat pos"
proof -
  from validJumpdest_spec [OF assms(2-4)] obtain c jd a where
    v: "validJumpdest (f_contract f) (jumpdests_of (f_evm f)) pos = Some (jumpdest_ok (Code (f_contract f)) pos, c, jd)"
    and c: "c = (f_contract f)\<lparr>analysis := a\<rparr>" by blast
  with assms(1) show "Code (f_contract f') = Code (f_contract f)" "f_pc f' = f_pc f"
    and ok: "ok \<longleftrightarrow> jumpdest_ok (Code (f_contract f)) pos"
    by (auto simp: f_validJumpdest_def)
  show "unat (Uint64 pos) = nat pos" if ok using that ok assms(2,3)
    by (intro unat_Uint64) (auto simp: IsUint64_def jumpdest_ok_def)
qed

lemma pop_word256:
  "pop st = Some (x, st') \<Longrightarrow> list_all word256 (data st) \<Longrightarrow> word256 x \<and> list_all word256 (data st')"
  by (auto simp: pop_def list_all_iff dest!: in_set_takeD split: if_splits)

lemma jump_boundary:
  assumes "execute p h f = Some (Done (res, None, f'))" "execute p = opJump \<or> execute p = opJumpi"
    "list_all word256 (data (f_stack f))"
    "length (Code (f_contract f)) < 2 ^ 62" "cache_ok (f_contract f) (jumpdests_of (f_evm f))"
  shows "Code (f_contract f') = Code (f_contract f) \<and>
    (f_pc f' = f_pc f + 1 \<or> jumpdest_ok (Code (f_contract f)) (uint (f_pc f')))"
proof -
  have t: "Code (f_contract f1) = Code (f_contract f) \<and> f_pc f1 = f_pc f \<and>
      (ok \<longrightarrow> jumpdest_ok (Code (f_contract f)) (uint (Uint64 pos)))"
    if "f_validJumpdest f pos = Some (ok, f1)" "word256 pos" for pos ok f1
    using jump_target [OF that(1) _ assms(4,5)] that(2)
    by (auto simp: word256_def jumpdest_ok_def uint_nat simp del: uint_nat)
  from assms(1-3) show ?thesis
    by (auto simp: opJump_def opJumpi_def ret_nil_def dest!: pop_word256 t split: Option.bind_splits if_splits prod.splits)
qed

section \<open>Paying for an instruction touches neither the jump destinations nor the abort flag\<close>

definition same_flow :: "EVM \<Rightarrow> EVM \<Rightarrow> bool" where
  "same_flow e e' \<longleftrightarrow> jumpdests_of e' = jumpdests_of e \<and> abort e' = abort e"

definition same_trace :: "EVM \<Rightarrow> EVM \<Rightarrow> bool" where
  "same_trace e e' \<longleftrightarrow> same_flow e e' \<and> tracer e' = tracer e \<and> vmConfig e' = vmConfig e"

lemma same_trace_simps [simp]:
  "same_trace e e" "same_trace e (e1\<lparr>sdb := s\<rparr>) = same_trace e e1" "same_trace e (e1\<lparr>callGasTemp := g\<rparr>) = same_trace e e1"
  by (simp_all add: same_trace_def same_flow_def)

definition keeps_flow :: "gasFunc \<Rightarrow> bool" where
  "keeps_flow dyn \<longleftrightarrow> (\<forall>cr gt e c st mem ms.
     upon (dyn cr gt e c st mem ms) (\<lambda>(r, e', mem'). same_trace e e'))"

lemma keeps_flowI:
  assumes "\<And>cr gt e c st mem ms. upon (dyn cr gt e c st mem ms) (\<lambda>(r, e', mem'). same_trace e e')"
  shows "keeps_flow dyn"
  using assms by (simp add: keeps_flow_def)

lemma new_account_cost_keeps: "new_account_cost cr e b a g = (g', e') \<Longrightarrow> same_trace e e'"
  by (auto simp: new_account_cost_def Let_def split: if_splits prod.splits)

lemma gasSuicide_eip150_keeps:
  "upon (gasSuicide_eip150 cr gt e c st) (\<lambda>(g, e'). same_trace e e')"
  unfolding gasSuicide_eip150_def by (intro upon_intros; auto split: if_splits)

lemma gasCallee_keeps:
  "same_trace e e1 \<Longrightarrow>
   upon (gasCallee gt e1 c st mem g) (\<lambda>(r, e', mem'). same_trace e e')"
  unfolding gasCallee_def by (intro upon_intros; auto)

lemma gas_calls_keep_flow:
  "keeps_flow gasCall" "keeps_flow gasCallCode" "keeps_flow gasDelegateCall" "keeps_flow gasStaticCall"
  unfolding gasCall_def gasCallCode_def gasDelegateCall_def gasStaticCall_def
  by (rule keeps_flowI, intro upon_intros gasCallee_keeps; auto dest!: new_account_cost_keeps)+

lemma gas_suicide_keeps_flow: "keeps_flow gasSuicide"
  unfolding gasSuicide_def
  by (rule keeps_flowI, intro upon_intros; auto dest!: uponD [OF gasSuicide_eip150_keeps] split: if_splits)

lemma gas_keeps_flow:
  "keeps_flow gasMLoad" "keeps_flow gasMStore" "keeps_flow gasMStore8" "keeps_flow gasCreate"
  "keeps_flow gasCallDataCopy" "keeps_flow gasReturnDataCopy" "keeps_flow gasCodeCopy"
  "keeps_flow gasSha3" "keeps_flow gasCreate2" "keeps_flow gasExtCodeCopy" "keeps_flow gasBalance"
  "keeps_flow gasExtCodeSize" "keeps_flow gasSLoad" "keeps_flow gasExp" "keeps_flow (makeGasLog k)"
  "keeps_flow gasSStore" "keeps_flow gasExtCodeHash" "keeps_flow gasReturn" "keeps_flow gasRevert"
  unfolding gasMLoad_def gasMStore_def gasMStore8_def gasCreate_def gasCallDataCopy_def gasReturnDataCopy_def
    gasCodeCopy_def gasSha3_def gasCreate2_def gasExtCodeCopy_def gasBalance_def gasExtCodeSize_def gasSLoad_def
    gasExp_def makeGasLog_def gasSStore_def gasExtCodeHash_def gasReturn_def gasRevert_def
  by (rule keeps_flowI, intro upon_intros; auto split: if_splits)+

lemma table_keeps_flow: "dynamicGas (JumpTable s op) = Some dyn \<Longrightarrow> keeps_flow dyn"
proof -
  have "list_all (\<lambda>p. \<forall>dyn. dynamicGas p = Some dyn \<longrightarrow> keeps_flow dyn) all_operations"
    by (simp add: all_operations_simps zero_op_simps gas_keeps_flow gas_calls_keep_flow gas_suicide_keeps_flow)
  from JumpTable_all [OF this] show "dynamicGas (JumpTable s op) = Some dyn \<Longrightarrow> keeps_flow dyn" by blast
qed

lemma some_Gas: "\<exists>g. c = c\<lparr>Gas := g\<rparr>" "\<exists>g. c\<lparr>Gas := x\<rparr> = c\<lparr>Gas := g\<rparr>"
  by (rule exI [of _ "Gas c"], simp) blast

lemma use_dynamic_gas_flow:
  assumes "use_dynamic_gas cr (JumpTable s op) f ms cost0 = Some (ok, cost, f')"
  shows "f_pc f' = f_pc f \<and> same_trace (f_evm f) (f_evm f') \<and>
    (\<exists>g. f_contract f' = (f_contract f)\<lparr>Gas := g\<rparr>)"
proof (cases "dynamicGas (JumpTable s op)")
  case None
  with assms show ?thesis by (auto simp: use_dynamic_gas_def some_Gas)
next
  case (Some dyn)
  from table_keeps_flow [OF this] have k:
    "dyn cr gt e c st mem ms = Some (r, e', mem') \<Longrightarrow> same_trace e e'" for gt e c st mem r e' mem'
    by (fastforce simp: keeps_flow_def upon_def)
  from assms Some show ?thesis
    by (auto simp: use_dynamic_gas_def UseGas_def Let_def some_Gas dest!: k
        split: Option.bind_splits sum.splits if_splits)
qed

lemma charge_op_flow:
  assumes "charge_op cr (JumpTable s op) rs = Some (err, ms, rs')"
  shows "f_pc (rs_frame rs') = f_pc (rs_frame rs) \<and>
    same_trace (f_evm (rs_frame rs)) (f_evm (rs_frame rs')) \<and>
    (\<exists>g. f_contract (rs_frame rs') = (f_contract (rs_frame rs))\<lparr>Gas := g\<rparr>)"
  using assms
  by (cases rule: charge_op_cases)
    (auto simp: UseGas_def some_Gas dest!: use_dynamic_gas_flow split: if_splits)

lemma before_execute_flow:
  assumes "before_execute rs ms = Some rs'"
  shows "f_pc (rs_frame rs') = f_pc (rs_frame rs) \<and> f_contract (rs_frame rs') = f_contract (rs_frame rs) \<and>
    same_flow (f_evm (rs_frame rs)) (f_evm (rs_frame rs'))"
  using assms by (auto simp: before_execute_def same_flow_def trace_def Let_def split: if_splits Option.bind_splits option.splits)

lemma STOP_halts: "valid (JumpTable s STOP) \<Longrightarrow> halts (JumpTable s STOP)"
proof -
  have "STOP = STOP \<longrightarrow> valid (JumpTable s STOP) \<longrightarrow> halts (JumpTable s STOP)"
    by (rule JumpTable_entries [where P = "\<lambda>op p. op = STOP \<longrightarrow> valid p \<longrightarrow> halts p"])
      (simp_all add: all_entries_simps zero_op_simps)
  then show "valid (JumpTable s STOP) \<Longrightarrow> halts (JumpTable s STOP)" by blast
qed

lemma next_boundary:
  assumes "boundary code pc" "pc < length code" "length code < 2 ^ 62" "unat w = pc" "op = code ! pc"
  shows "boundary code (unat (w + push_width op + 1))" "unat (w + push_width op + 1) = next_pc code pc"
proof -
  show "unat (w + push_width op + 1) = next_pc code pc" using push_width_next [of w code] assms by simp
  with boundary.step [OF assms(1,2)] show "boundary code (unat (w + push_width op + 1))" by simp
qed

lemma table_step_boundary:
  assumes "execute p h f = Some (Done (res, None, f'))" "p = JumpTable s (GetOp c (f_pc f))" "valid p" "\<not> halts p"
    "boundary (Code c) (unat (f_pc f))" "length (Code c) < 2 ^ 62" "list_all word256 (data (f_stack f))"
    "cache_ok c (jumpdests_of (f_evm f))" "f_contract f = c"
  defines "pc' \<equiv> unat (if jumps p then f_pc f' else f_pc f' + 1)"
  shows "boundary (Code c) pc' \<and> (pc' = next_pc (Code c) (unat (f_pc f)) \<or> pc' < length (Code c) \<and> Code c ! pc' = JUMPDEST) \<and>
    Code (f_contract f') = Code c"
proof -
  let ?op = "GetOp c (f_pc f)"
  have len: "unat (word_of_nat (length (Code c)) :: u64) = length (Code c)" using assms(6) by (intro unat_u64_of_nat) simp
  have lt: "unat (f_pc f) < length (Code c)"
  proof (rule ccontr)
    assume "\<not> unat (f_pc f) < length (Code c)"
    then have "?op = STOP" using len by (simp add: GetOp_def GetByte_def word_less_nat_alt)
    with STOP_halts [of s] assms(2-4) show False by simp
  qed
  then have op: "?op = Code c ! unat (f_pc f)" using len by (simp add: GetOp_def GetByte_def word_less_nat_alt)
  note nb = next_boundary [OF assms(5) lt assms(6) refl op]
  have m: "moves_as ?op p" unfolding assms(2) by (rule table_moves)
  show ?thesis
  proof (cases "jumps p")
    case True
    with m assms(3) have j: "\<not> IsPush ?op" "execute p = opJump \<or> execute p = opJumpi" by (simp_all add: moves_as_def)
    from jump_boundary [OF assms(1) j(2) assms(7)] assms(6,8,9) have
      "Code (f_contract f') = Code c \<and> (f_pc f' = f_pc f + 1 \<or> jumpdest_ok (Code c) (uint (f_pc f')))" by simp
    with nb j(1) True show ?thesis by (auto simp: pc'_def jumpdest_ok_def push_width_def)
  next
    case False
    with m assms(3) have "pc_moves (execute p) (push_width ?op)" by (simp add: moves_as_def)
    then have "f_pc f' = f_pc f + push_width ?op \<and> Code (f_contract f') = Code (f_contract f)"
      using assms(1) by (fastforce simp: pc_moves_def upon_def)
    with nb False assms(9) show ?thesis by (simp add: pc'_def)
  qed
qed

text \<open>
  (C6) Control flow: an iteration that starts at the first byte of an instruction of the code and continues, continues at the first
  byte of an instruction or past the end of the code, and it continues elsewhere than after the instruction only at a
  \<^verbatim>\<open>JUMPDEST\<close>. The code of the frame stays. So the immediate bytes of a push are never executed. The
  hypotheses are that the cached analyses are those of the code, the operands are 256-bit words and the code is shorter than
  $2^{62}$ bytes.
\<close>

theorem executes_instructions_only:
  assumes "Run_step h rs = Some (Done (Continue rs'))"
  defines "code \<equiv> Code (f_contract (rs_frame rs))" and "pc \<equiv> unat (f_pc (rs_frame rs))" and "pc' \<equiv> unat (f_pc (rs_frame rs'))"
  assumes "boundary code pc" "length code < 2 ^ 62" "list_all word256 (data (f_stack (rs_frame rs)))"
    and "cache_ok (f_contract (rs_frame rs)) (jumpdests_of (f_evm (rs_frame rs)))"
  shows "boundary code pc' \<and> (pc' = next_pc code pc \<or> pc' < length code \<and> code ! pc' = JUMPDEST) \<and>
    Code (f_contract (rs_frame rs')) = code"
proof -
  from assms(1) obtain e1 rs0 p ms rs1 rs2 where a: "load_abort (f_evm (rs_frame rs)) = (False, e1)"
    and rs0: "rs0 = begin_step (rs\<lparr>rs_frame := (rs_frame rs)\<lparr>f_evm := e1\<rparr>\<rparr>)"
    and p: "p = JumpTable (instrSet e1) (rs_op rs0)" and ck: "check_op e1 (rs_op rs0) p (f_stack (rs_frame rs0)) = Some None"
    and ch: "charge_op (h_crypto h) p rs0 = Some (None, ms, rs1)" and b: "before_execute rs1 ms = Some rs2"
    and ex: "execute_step h p rs2 = Some (Done (Continue rs'))" by (rule Run_step_continue)
  have jd: "jumpdests_of e1 = jumpdests_of (f_evm (rs_frame rs))"
    using a by (auto simp: load_abort_def split: option.splits nat.splits)
  let ?f = "rs_frame rs2"
  obtain g where f: "f_pc ?f = f_pc (rs_frame rs)" "f_contract ?f = (f_contract (rs_frame rs))\<lparr>Gas := g\<rparr>"
    "jumpdests_of (f_evm ?f) = jumpdests_of (f_evm (rs_frame rs))" "f_stack ?f = f_stack (rs_frame rs)"
    using charge_op_flow [OF ch [unfolded p]] before_execute_flow [OF b] charge_op_stack [OF ch] before_execute_stack [OF b] rs0 jd
    by (auto simp: same_trace_def same_flow_def)
  from ex obtain res f' where x: "execute p h ?f = Some (Done (res, None, f'))" "\<not> halts p"
    "f_contract (rs_frame rs') = f_contract f'" "f_pc (rs_frame rs') = (if jumps p then f_pc f' else f_pc f' + 1)"
    by (rule execute_step_continue)
  have op: "rs_op rs0 = GetOp (f_contract ?f) (f_pc ?f)" using rs0 f by (simp add: GetOp_def GetByte_def)
  have "cache_ok (f_contract ?f) (jumpdests_of (f_evm ?f))" using assms(8) f by (simp add: cache_ok_def)
  with table_step_boundary [OF x(1) p [unfolded op] _ x(2)] check_op_None [OF ck] assms(5-7) f x(3,4) show ?thesis
    by (simp add: code_def pc_def pc'_def)
qed

theorem executes_instructions_only_witness:
  "\<exists>rs'. Run_step (host_of sample_crypto (run_loop sample_crypto 0)) (sample_run [PUSH1, 5]) = Some (Done (Continue rs')) \<and>
    boundary [PUSH1, 5] (unat (f_pc (rs_frame rs')))"
proof -
  from sample_PUSH1 obtain rs' where
    r: "Run_step (host_of sample_crypto (run_loop sample_crypto 0)) (sample_run [PUSH1, 5]) = Some (Done (Continue rs'))" by blast
  have c: "Code (f_contract (rs_frame (sample_run [PUSH1, 5]))) = [PUSH1, 5]" "f_pc (rs_frame (sample_run [PUSH1, 5])) = 0"
    "data (f_stack (rs_frame (sample_run [PUSH1, 5]))) = []"
    "cache_ok (f_contract (rs_frame (sample_run [PUSH1, 5]))) (jumpdests_of (f_evm (rs_frame (sample_run [PUSH1, 5]))))"
    by (simp_all add: sample_run_def SetCallCode_def NewContract_def newstack_def cache_ok_def)
  from executes_instructions_only [OF r] c boundary.start [of "[PUSH1, 5]"] r show ?thesis by auto
qed

end
