(* ===== verification/Static_Safety.thy ===== *)
theory Static_Safety
  imports Flow_Safety
begin

text \<open>
  Read-only frames. The relation \<open>calm\<close> between two states holds when the second only has new empty accounts. Every instruction
  that the write protection lets through is calm, so the loop is (locale \<open>readonly_loop\<close>, interpreted on the loop of the model),
  and so are the calls made from a read-only frame and every static call.
\<close>

section \<open>States that only gained empty accounts\<close>

definition fresh :: "crypto \<Rightarrow> Database \<Rightarrow> Address \<Rightarrow> acctView" where
  "fresh cr db a = obj_view cr db (newObject cr a 0 None zeroHash None)"

definition quiet :: "crypto \<Rightarrow> StateDB \<Rightarrow> StateDB \<Rightarrow> bool" where
  "quiet cr s t \<longleftrightarrow> frame t = frame s \<and> refund t = refund s \<and> logs_of t = logs_of s \<and> logSize t = logSize s \<and>
     (\<forall>a. acct cr t a = acct cr s a \<or> acct cr s a = None \<and> acct cr t a = Some (fresh cr (sdb_db s) a))"

definition calm :: "crypto \<Rightarrow> StateDB \<Rightarrow> StateDB \<Rightarrow> bool" where
  "calm cr s t \<longleftrightarrow> extends cr s t \<and> quiet cr s t"

lemma quiet_same: "same_view cr t s \<Longrightarrow> quiet cr s t"
  by (simp add: quiet_def same_view_def)

lemma quiet_trans:
  assumes "quiet cr s t" "quiet cr t u"
  shows "quiet cr s u"
proof -
  have "sdb_db t = sdb_db s" using assms(1) by (simp add: quiet_def frame_def)
  then have "acct cr u a = acct cr s a \<or> acct cr s a = None \<and> acct cr u a = Some (fresh cr (sdb_db s) a)" for a
    using assms unfolding quiet_def by (metis option.distinct(1))
  with assms show ?thesis by (simp add: quiet_def)
qed

lemma calm_trans: "calm cr s t \<Longrightarrow> calm cr t u \<Longrightarrow> calm cr s u"
  unfolding calm_def using extends_trans quiet_trans by blast

lemma calm_refl: "state_wf s \<Longrightarrow> calm cr s s"
  by (simp add: calm_def extends_refl quiet_same)

lemma calm_same: "extends cr s t \<Longrightarrow> same_view cr t s \<Longrightarrow> calm cr s t"
  by (simp add: calm_def quiet_same)

lemma calm_wf: "calm cr s t \<Longrightarrow> state_wf t"
  by (auto simp: calm_def dest: extends_wf)

lemma calm_read: "read_ok cr s t \<Longrightarrow> calm cr s t"
  by (intro calm_same read_ok_extends) (auto simp: read_ok_def)

lemma read_calm:
  "GetBalance cr s a = (b, s') \<Longrightarrow> calm cr s0 s \<Longrightarrow> calm cr s0 s'"
  "GetCode cr s a = (c, s') \<Longrightarrow> calm cr s0 s \<Longrightarrow> calm cr s0 s'"
  "GetCodeHash cr s a = (c, s') \<Longrightarrow> calm cr s0 s \<Longrightarrow> calm cr s0 s'"
  "GetCodeSize cr s a = (k, s') \<Longrightarrow> calm cr s0 s \<Longrightarrow> calm cr s0 s'"
  "GetState cr s a x = (c, s') \<Longrightarrow> calm cr s0 s \<Longrightarrow> calm cr s0 s'"
  "Empty cr s a = (e, s') \<Longrightarrow> calm cr s0 s \<Longrightarrow> calm cr s0 s'"
  "Exist cr s a = (e, s') \<Longrightarrow> calm cr s0 s \<Longrightarrow> calm cr s0 s'"
  "CanTransfer cr s a v = (e, s') \<Longrightarrow> calm cr s0 s \<Longrightarrow> calm cr s0 s'"
  by (rule calm_trans, assumption, rule calm_read,
      (drule (1) GetBalance_read [OF calm_wf, rotated] GetCode_read [OF calm_wf, rotated] GetCodeHash_read [OF calm_wf, rotated]
        GetCodeSize_read [OF calm_wf, rotated] GetState_read [OF calm_wf, rotated] Empty_read [OF calm_wf, rotated]
        Exist_read [OF calm_wf, rotated] CanTransfer_read [OF calm_wf, rotated]), simp)+

lemma createObject_calm:
  assumes "crypto_ok cr" "calm cr s0 s" "acct cr s a = None" "createObject cr s a = (n, prev, s')"
  shows "calm cr s0 s'" "prev = None"
proof -
  note ext = createObject_extends [OF assms(1) calm_wf [OF assms(2)] assms(4)]
  obtain o1 s1 where g: "getStateObject cr s a = (o1, s1)" by (cases "getStateObject cr s a")
  note fr = getStateObject_frame [OF g] and same = getStateObject_same_view [OF g]
  let ?n = "newObject cr a 0 None zeroHash None"
  have none: "o1 = None" using getStateObject_peek [OF g] assms(3) by (simp add: acct_def)
  have n: "so_setNonce ?n 0 = ?n" by (simp add: so_setNonce_def newObject_def)
  have s': "s' = setStateObject (add_entry s1 (createObjectChange a)) ?n" and prev: "prev = None"
    using assms(4) g none n by (auto simp: createObject_def Let_def)
  have "acct cr s' = (acct cr s)(a \<mapsto> fresh cr (sdb_db s) a)"
    using same fr by (simp add: s' acct_set same_view_def fresh_def frame_def)
  with assms(3) fr same have "quiet cr s s'" by (simp add: quiet_def s' same_view_def)
  with ext have "calm cr s s'" by (simp add: calm_def)
  with assms(2) show "calm cr s0 s'" by (rule calm_trans)
  show "prev = None" by (rule prev)
qed

lemma GetOrNewStateObject_calm:
  assumes "crypto_ok cr" "calm cr s0 s" "GetOrNewStateObject cr s a = (obj, s')"
  shows "calm cr s0 s'"
proof -
  obtain o1 s1 where g: "getStateObject cr s a = (o1, s1)" by (cases "getStateObject cr s a")
  have s1: "calm cr s0 s1" using getStateObject_read [OF calm_wf [OF assms(2)] g] assms(2) by (blast intro: calm_trans calm_read)
  show ?thesis
  proof (cases o1)
    case None
    obtain n p s2 where c: "createObject cr s1 a = (n, p, s2)" by (cases "createObject cr s1 a")
    have "acct cr s1 a = None" using get_none g None getStateObject_same_view [OF g] by (simp add: same_view_def)
    from createObject_calm(1) [OF assms(1) s1 this c] None g c assms(3) show ?thesis
      by (simp add: GetOrNewStateObject_def)
  next
    case (Some o2)
    with peek_obj_Some g have "\<not> deleted o2" by blast
    with Some g assms(3) s1 show ?thesis by (simp add: GetOrNewStateObject_def)
  qed
qed

lemma touch_calm: "calm cr s0 s \<Longrightarrow> calm cr s0 (so_touch s obj)"
proof -
  assume c: "calm cr s0 s"
  have "acct cr (so_touch s obj) = acct cr s" by (rule acct_cong) (simp_all add: so_touch_def Let_def)
  then have "same_view cr (so_touch s obj) s"
    by (simp add: same_view_def so_touch_def Let_def frame_def logs_of_def fun_eq_iff)
  with touch_extends [OF calm_wf [OF c]] have "calm cr s (so_touch s obj)" by (rule calm_same)
  with c show ?thesis by (rule calm_trans)
qed

lemma AddBalance_calm:
  assumes "crypto_ok cr" "calm cr s0 s"
  shows "calm cr s0 (AddBalance cr s a 0)"
proof -
  obtain obj s1 where g: "GetOrNewStateObject cr s a = (obj, s1)" by fastforce
  from GetOrNewStateObject_calm [OF assms g] touch_calm g show ?thesis by (simp add: AddBalance_def so_AddBalance_def)
qed

lemma SubBalance_calm:
  assumes "crypto_ok cr" "calm cr s0 s"
  shows "calm cr s0 (SubBalance cr s a 0)"
proof -
  obtain obj s1 where g: "GetOrNewStateObject cr s a = (obj, s1)" by fastforce
  from GetOrNewStateObject_calm [OF assms g] g show ?thesis by (simp add: SubBalance_def so_SubBalance_def)
qed

lemma Transfer_calm: "crypto_ok cr \<Longrightarrow> calm cr s0 s \<Longrightarrow> calm cr s0 (Transfer cr s a b 0)"
  by (simp add: Transfer_def AddBalance_calm SubBalance_calm)

lemma CreateAccount_calm:
  assumes "crypto_ok cr" "calm cr s0 s" "acct cr s a = None"
  shows "calm cr s0 (CreateAccount cr s a)"
proof -
  obtain n p s' where c: "createObject cr s a = (n, p, s')" by (cases "createObject cr s a")
  from createObject_calm [OF assms c] c show ?thesis by (simp add: CreateAccount_def)
qed

lemma AddPreimage_calm:
  assumes "calm cr s0 s"
  shows "calm cr s0 (AddPreimage s h p)"
proof -
  have "acct cr (AddPreimage s h p) = acct cr s"
    by (rule acct_cong) (simp_all add: AddPreimage_def Let_def split: option.splits)
  then have "quiet cr s (AddPreimage s h p)"
    by (auto simp: quiet_def AddPreimage_def Let_def frame_def logs_of_def fun_eq_iff split: option.splits)
  with AddPreimage_extends [OF calm_wf [OF assms]] have "calm cr s (AddPreimage s h p)" by (simp add: calm_def)
  with assms show ?thesis by (rule calm_trans)
qed

lemma Snapshot_calm:
  assumes "calm cr s0 s" "Snapshot s = (i, s')"
  shows "calm cr s0 s'"
proof -
  have "calm cr s s'" using Snapshot_extends(1,2) [OF calm_wf [OF assms(1)] assms(2)] by (blast intro: calm_same)
  with assms(1) show ?thesis by (rule calm_trans)
qed

section \<open>Instructions in a read-only frame\<close>

definition evm_calm :: "crypto \<Rightarrow> EVM \<Rightarrow> EVM \<Rightarrow> bool" where
  "evm_calm cr e e' \<longleftrightarrow> evm_frame e' = evm_frame e \<and> calm cr (sdb e) (sdb e')"

definition read_only :: "EVM \<Rightarrow> bool" where
  "read_only e \<longleftrightarrow> readOnly e \<and> rIsByzantium (chainRules e)"

definition calm_call :: "crypto \<Rightarrow> EVM \<Rightarrow> callResult \<Rightarrow> bool" where
  "calm_call cr e r \<longleftrightarrow> upon r (\<lambda>r. case r of OutOfFuel \<Rightarrow> True | Done (ret, left, err, e') \<Rightarrow> evm_calm cr e e')"

text \<open>The calls a read-only frame can make, by a machine that keeps the state.\<close>

definition calm_host :: "crypto \<Rightarrow> host \<Rightarrow> bool" where
  "calm_host cr h \<longleftrightarrow> h_crypto h = cr \<and> (\<forall>e clr a inp g v. evm_ok cr e \<longrightarrow> read_only e \<longrightarrow>
     calm_call cr e (h_Call h e clr a inp g 0) \<and> calm_call cr e (h_CallCode h e clr a inp g v) \<and>
     calm_call cr e (h_DelegateCall h e clr a inp g) \<and> calm_call cr e (h_StaticCall h e clr a inp g))"

definition calm_instr :: "crypto \<Rightarrow> executionFunc \<Rightarrow> bool" where
  "calm_instr cr ex \<longleftrightarrow> (\<forall>h f. calm_host cr h \<longrightarrow> evm_ok cr (f_evm f) \<longrightarrow> read_only (f_evm f) \<longrightarrow>
     upon (ex h f) (\<lambda>r. case r of OutOfFuel \<Rightarrow> True | Done (res, err, f') \<Rightarrow> evm_calm cr (f_evm f) (f_evm f')))"

lemma evm_calm_refl [simp]: "evm_ok cr e \<Longrightarrow> evm_calm cr e e"
  by (auto simp: evm_calm_def intro: calm_refl)

lemma evm_calm_trans: "evm_calm cr e e1 \<Longrightarrow> evm_calm cr e1 e2 \<Longrightarrow> evm_calm cr e e2"
  by (auto simp: evm_calm_def intro: calm_trans)

lemma evm_calm_sdb [simp]:
  "evm_calm cr e (e1\<lparr>sdb := s\<rparr>) \<longleftrightarrow> evm_frame e1 = evm_frame e \<and> calm cr (sdb e) s"
  "evm_calm cr e (e1\<lparr>returnData := r\<rparr>) = evm_calm cr e e1"
  "evm_calm cr e (e1\<lparr>jumpdests_of := j\<rparr>) = evm_calm cr e e1"
  "evm_calm cr e (e1\<lparr>callGasTemp := g\<rparr>) = evm_calm cr e e1"
  by (simp_all add: evm_calm_def)

lemma evm_calm_start: "evm_ok cr e \<Longrightarrow> calm cr (sdb e) (sdb e)"
  by (auto intro: calm_refl)

lemma local_calm: "local_instr ex \<Longrightarrow> calm_instr cr ex"
  unfolding calm_instr_def local_instr_def
proof (intro allI impI)
  fix h and f :: Frame
  assume l: "\<forall>h f. upon (ex h f) (\<lambda>r. case r of OutOfFuel \<Rightarrow> False
    | Done (res, err, f') \<Rightarrow> f_contract f' = f_contract f \<and> f_evm f' = f_evm f)" and "evm_ok cr (f_evm f)"
  then show "upon (ex h f) (\<lambda>r. case r of OutOfFuel \<Rightarrow> True | Done (res, err, f') \<Rightarrow> evm_calm cr (f_evm f) (f_evm f'))"
    by (intro upon_mono [OF l [rule_format]]) (auto split: outcome.splits)
qed

lemma calm_instrI:
  assumes "\<And>h f. h_crypto h = cr \<Longrightarrow> calm_host cr h \<Longrightarrow> evm_ok cr (f_evm f) \<Longrightarrow> read_only (f_evm f) \<Longrightarrow>
     upon (ex h f) (\<lambda>r. case r of OutOfFuel \<Rightarrow> True | Done (res, err, f') \<Rightarrow> evm_calm cr (f_evm f) (f_evm f'))"
  shows "calm_instr cr ex"
  using assms by (simp add: calm_instr_def calm_host_def)

lemma calm_state:
  "calm_instr cr opBalance" "calm_instr cr opExtCodeSize" "calm_instr cr opExtCodeCopy" "calm_instr cr opSload"
  "calm_instr cr opExtCodeHash" "calm_instr cr opSha3"
  unfolding opBalance_def opExtCodeSize_def opExtCodeCopy_def opSload_def opExtCodeHash_def opSha3_def
  by (rule calm_instrI, intro upon_intros; simp; blast intro: read_calm AddPreimage_calm evm_calm_start)+

lemma f_validJumpdest_calm:
  "evm_ok cr (f_evm f) \<Longrightarrow> f_validJumpdest f pos = Some (ok, f') \<Longrightarrow> evm_calm cr (f_evm f) (f_evm f')"
  by (auto simp: f_validJumpdest_def split: Option.bind_splits)

lemma calm_jump: "calm_instr cr opJump" "calm_instr cr opJumpi"
  unfolding opJump_def opJumpi_def
  by (rule calm_instrI, intro upon_intros; clarsimp; (drule (1) f_validJumpdest_calm)?; simp)+

lemma finish_call_calm:
  "evm_calm cr (f_evm f) e \<Longrightarrow> upon (finish_call f st ro rs (ret, g, err, e)) (\<lambda>r. case r of OutOfFuel \<Rightarrow> True
    | Done (res, err, f') \<Rightarrow> evm_calm cr (f_evm f) (f_evm f'))"
  unfolding finish_call_def prod.case by (intro upon_intros) auto

lemma calm_called:
  "calm_call cr (f_evm f) m \<Longrightarrow> upon (and_then m (finish_call f st ro rs)) (\<lambda>r. case r of OutOfFuel \<Rightarrow> True
    | Done (res, err, f') \<Rightarrow> evm_calm cr (f_evm f) (f_evm f'))"
  unfolding calm_call_def
  by (rule upon_and_then, erule upon_mono) (auto split: outcome.splits intro!: finish_call_calm)

lemma calm_hostD:
  assumes "calm_host cr h" "evm_ok cr e" "read_only e"
  shows "calm_call cr e (h_Call h e clr a inp g 0)" "calm_call cr e (h_CallCode h e clr a inp g v)"
    "calm_call cr e (h_DelegateCall h e clr a inp g)" "calm_call cr e (h_StaticCall h e clr a inp g)"
  using assms by (simp_all add: calm_host_def)

lemma calm_calls: "calm_instr cr opCallCode" "calm_instr cr opDelegateCall" "calm_instr cr opStaticCall"
  unfolding opCallCode_def opDelegateCall_def opStaticCall_def
  by (rule calm_instrI, intro upon_intros calm_called; erule (2) calm_hostD)+

lemma opCall_calm:
  assumes "calm_host cr h" "evm_ok cr (f_evm f)" "read_only (f_evm f)" "Back (f_stack f) 2 = Some 0"
  shows "upon (opCall h f) (\<lambda>r. case r of OutOfFuel \<Rightarrow> True | Done (res, err, f') \<Rightarrow> evm_calm cr (f_evm f) (f_evm f'))"
proof -
  have *: "calm_call cr (f_evm f) (h_Call h (f_evm f) clr a inp g (U256 v))"
    if "pop (f_stack f) = Some (x1, st1)" "pop st1 = Some (x2, st2)" "pop st2 = Some (v, st3)" for x1 st1 x2 st2 v st3 clr a inp g
    using calm_hostD(1) [OF assms(1-3)] pop_Back [OF that] assms(4) by (simp add: U256_mod)
  show ?thesis unfolding opCall_def by (intro upon_intros; clarify; rule calm_called; erule (2) *)
qed

section \<open>Paying in a read-only frame\<close>

definition calm_dyn :: "crypto \<Rightarrow> gasFunc \<Rightarrow> bool" where
  "calm_dyn cr dyn \<longleftrightarrow> (\<forall>gt e c st mem ms. evm_ok cr e \<longrightarrow>
     upon (dyn cr gt e c st mem ms) (\<lambda>(r, e', mem'). evm_calm cr e e'))"

lemma calm_dynI:
  assumes "\<And>gt e c st mem ms. evm_ok cr e \<Longrightarrow> upon (dyn cr gt e c st mem ms) (\<lambda>(r, e', mem'). evm_calm cr e e')"
  shows "calm_dyn cr dyn"
  using assms by (simp add: calm_dyn_def)

lemma calm_gas:
  "calm_dyn cr gasMLoad" "calm_dyn cr gasMStore" "calm_dyn cr gasMStore8"
  "calm_dyn cr gasCallDataCopy" "calm_dyn cr gasReturnDataCopy" "calm_dyn cr gasCodeCopy"
  "calm_dyn cr gasSha3" "calm_dyn cr gasExtCodeCopy" "calm_dyn cr gasBalance"
  "calm_dyn cr gasExtCodeSize" "calm_dyn cr gasSLoad" "calm_dyn cr gasExp"
  "calm_dyn cr gasExtCodeHash" "calm_dyn cr gasReturn" "calm_dyn cr gasRevert"
  unfolding gasMLoad_def gasMStore_def gasMStore8_def gasCallDataCopy_def gasReturnDataCopy_def
    gasCodeCopy_def gasSha3_def gasExtCodeCopy_def gasBalance_def gasExtCodeSize_def gasSLoad_def
    gasExp_def gasExtCodeHash_def gasReturn_def gasRevert_def
  by (rule calm_dynI, intro upon_intros; simp)+

lemma new_account_cost_calm: "evm_ok cr e \<Longrightarrow> new_account_cost cr e b a g = (g', e') \<Longrightarrow> evm_calm cr e e'"
  by (auto simp: new_account_cost_def Let_def split: if_splits prod.splits
      intro: read_calm(6,7) [OF _ evm_calm_start])

lemma gasCallee_calm:
  "evm_calm cr e e1 \<Longrightarrow> upon (gasCallee gt e1 c st mem g) (\<lambda>(r, e', mem'). evm_calm cr e e')"
  unfolding gasCallee_def by (intro upon_intros; auto)

lemma calm_gas_calls:
  "calm_dyn cr gasCall" "calm_dyn cr gasCallCode" "calm_dyn cr gasDelegateCall" "calm_dyn cr gasStaticCall"
  unfolding gasCall_def gasCallCode_def gasDelegateCall_def gasStaticCall_def
  by (rule calm_dynI, intro upon_intros gasCallee_calm; auto dest: new_account_cost_calm)+

text \<open>What the tables say of the instructions that are allowed in a read-only frame.\<close>

definition calm_op :: "crypto \<Rightarrow> OpCode \<Rightarrow> operation \<Rightarrow> bool" where
  "calm_op cr op p \<longleftrightarrow> (valid p \<longrightarrow> \<not> writes p \<longrightarrow>
     (if op = CALL then execute p = opCall else calm_instr cr (execute p)) \<and>
     (\<forall>dyn. dynamicGas p = Some dyn \<longrightarrow> calm_dyn cr dyn))"

lemma table_calm: "calm_op cr op (JumpTable s op)"
  by (rule JumpTable_entries)
    (simp_all add: all_entries_simps calm_op_def zero_op_simps calm_gas calm_gas_calls calm_state calm_jump calm_calls
      local_instrs [THEN local_calm])

section \<open>Iterations in a read-only frame\<close>

lemma read_only_frame: "evm_frame e' = evm_frame e \<Longrightarrow> read_only e' = read_only e"
  by (simp add: read_only_def evm_frame_def)

lemma evm_calm_ok: "evm_ok cr e \<Longrightarrow> evm_calm cr e e' \<Longrightarrow> evm_ok cr e' \<and> read_only e' = read_only e"
  by (auto simp: evm_calm_def evm_ok_def evm_frame_def read_only_def dest: calm_wf)

lemma charge_op_calm:
  assumes "charge_op cr p rs = Some (err, ms, rs')" "evm_ok cr (f_evm (rs_frame rs))" "calm_op cr op p" "valid p" "\<not> writes p"
  shows "evm_calm cr (f_evm (rs_frame rs)) (f_evm (rs_frame rs'))"
  using assms(1)
proof (cases rule: charge_op_cases)
  case (charged c1 ok cost f2)
  have dyn: "evm_calm cr e e'" if "dynamicGas p = Some d" "d cr gt e c st mem ms = Some (r, e', mem')" "evm_ok cr e"
    for d gt e c st mem ms r e' mem'
    using that assms(3-5) by (fastforce simp: calm_op_def calm_dyn_def upon_def)
  from charged(3,5) assms(2) show ?thesis
    by (auto simp: use_dynamic_gas_def Let_def dest: dyn split: option.splits Option.bind_splits sum.splits prod.splits)
qed (use assms(2) in auto)

lemma before_execute_calm:
  assumes "before_execute rs ms = Some rs'" "evm_ok cr (f_evm (rs_frame rs))"
  shows "evm_calm cr (f_evm (rs_frame rs)) (f_evm (rs_frame rs'))"
  using before_execute_step [OF assms(1)] evm_calm_start [OF assms(2)] by (simp add: evm_calm_def)

definition calm_step :: "crypto \<Rightarrow> EVM \<Rightarrow> runState loopStep outcome option \<Rightarrow> bool" where
  "calm_step cr e r \<longleftrightarrow> upon r (\<lambda>r. case r of OutOfFuel \<Rightarrow> True
     | Done (Return ret err rs) \<Rightarrow> evm_calm cr e (f_evm (rs_frame rs))
     | Done (Continue rs) \<Rightarrow> evm_calm cr e (f_evm (rs_frame rs)))"

lemma execute_step_calm:
  assumes "upon (execute p h (rs_frame rs)) (\<lambda>r. case r of OutOfFuel \<Rightarrow> True
     | Done (res, err, f') \<Rightarrow> evm_calm cr (f_evm (rs_frame rs)) (f_evm f'))"
  shows "calm_step cr (f_evm (rs_frame rs)) (execute_step h p rs)"
  unfolding calm_step_def execute_step_def
  by (rule upon_and_then, rule upon_mono [OF assms]) (auto simp: Let_def upon_def split: outcome.splits)

lemma calm_step_from: "calm_step cr e1 r \<Longrightarrow> evm_calm cr e e1 \<Longrightarrow> calm_step cr e r"
  unfolding calm_step_def by (erule upon_mono) (auto intro: evm_calm_trans split: outcome.splits loopStep.splits)

lemma calm_step_intros:
  "(\<And>x. m = Some x \<Longrightarrow> calm_step cr e (k x)) \<Longrightarrow> calm_step cr e (m \<bind> k)"
  "(\<And>x y. p = (x, y) \<Longrightarrow> calm_step cr e (k' x y)) \<Longrightarrow> calm_step cr e (case p of (x, y) \<Rightarrow> k' x y)"
  "(q = None \<Longrightarrow> calm_step cr e m1) \<Longrightarrow> (\<And>x. q = Some x \<Longrightarrow> calm_step cr e (k2 x)) \<Longrightarrow>
   calm_step cr e (case q of None \<Rightarrow> m1 | Some x \<Rightarrow> k2 x)"
  unfolding calm_step_def by (auto intro: upon_intros)

lemma fail_calm: "evm_calm cr e (f_evm (rs_frame rs)) \<Longrightarrow> calm_step cr e (fail err rs)"
  by (simp add: fail_def calm_step_def upon_def)

lemma execute_calm:
  assumes "calm_host cr h" "evm_ok cr (f_evm f)" "read_only (f_evm f)" "calm_op cr op p" "valid p" "\<not> writes p"
    "op = CALL \<Longrightarrow> Back (f_stack f) 2 = Some 0"
  shows "upon (execute p h f) (\<lambda>r. case r of OutOfFuel \<Rightarrow> True | Done (res, err, f') \<Rightarrow> evm_calm cr (f_evm f) (f_evm f'))"
  using assms opCall_calm [OF assms(1-3)] by (auto simp: calm_op_def calm_instr_def split: if_splits)

lemma charged_calm:
  assumes "calm_host cr h" "evm_ok cr (f_evm (rs_frame rs))" "read_only (f_evm (rs_frame rs))" "calm_op cr op p" "valid p"
    "\<not> writes p" "op = CALL \<Longrightarrow> Back (f_stack (rs_frame rs)) 2 = Some 0" "charge_op cr p rs = Some (err, ms, rs1)"
  shows "calm_step cr (f_evm (rs_frame rs)) (case err of Some e \<Rightarrow> fail e rs1 | None \<Rightarrow>
     do { rs \<leftarrow> before_execute rs1 ms; execute_step h p rs })"
proof (intro calm_step_intros)
  note c1 = charge_op_calm [OF assms(8,2,4,5,6)]
  then show "calm_step cr (f_evm (rs_frame rs)) (fail e rs1)" for e by (rule fail_calm)
  fix rs2
  assume b: "before_execute rs1 ms = Some rs2"
  have ok1: "evm_ok cr (f_evm (rs_frame rs1))" using evm_calm_ok [OF assms(2) c1] by simp
  have c2: "evm_calm cr (f_evm (rs_frame rs)) (f_evm (rs_frame rs2))"
    using evm_calm_trans [OF c1 before_execute_calm [OF b ok1]] .
  have st: "f_stack (rs_frame rs2) = f_stack (rs_frame rs)" using charge_op_stack [OF assms(8)] before_execute_stack [OF b] by simp
  have "calm_step cr (f_evm (rs_frame rs2)) (execute_step h p rs2)"
    using evm_calm_ok [OF assms(2) c2] assms st by (intro execute_step_calm execute_calm) auto
  then show "calm_step cr (f_evm (rs_frame rs)) (execute_step h p rs2)" using c2 by (rule calm_step_from)
qed

lemma Run_step_calm:
  assumes "calm_host cr h" "evm_ok cr (f_evm (rs_frame rs))" "read_only (f_evm (rs_frame rs))"
  shows "calm_step cr (f_evm (rs_frame rs)) (Run_step h rs)"
proof -
  define f where "f = rs_frame rs"
  obtain aborted e1 where la: "load_abort (f_evm f) = (aborted, e1)" by (cases "load_abort (f_evm f)")
  have E1: "evm_calm cr (f_evm f) e1"
    using load_abort_step [OF la] assms(2) by (auto simp: evm_calm_def f_def intro: evm_calm_start)
  with assms(2,3) have ok1: "evm_ok cr e1" "read_only e1" unfolding f_def by (auto dest: evm_calm_ok)
  let ?rs = "begin_step (rs\<lparr>rs_frame := f\<lparr>f_evm := e1\<rparr>\<rparr>)"
  have crh: "h_crypto h = cr" using assms(1) by (simp add: calm_host_def)
  let ?p = "JumpTable (instrSet e1) (rs_op ?rs)"
  have "calm_step cr e1 (do {
       err \<leftarrow> check_op e1 (rs_op ?rs) ?p (f_stack (rs_frame ?rs));
       case err of
         Some e \<Rightarrow> fail e ?rs
       | None \<Rightarrow> do {
           (err, ms, rs) \<leftarrow> charge_op cr ?p ?rs;
           case err of Some e \<Rightarrow> fail e rs | None \<Rightarrow> do { rs \<leftarrow> before_execute rs ms; execute_step h ?p rs }
         }})" (is "calm_step cr e1 ?body")
  proof (rule calm_step_intros(1), rule calm_step_intros(3))
    fix err :: "vmError option"
    assume chk: "check_op e1 (rs_op ?rs) ?p (f_stack (rs_frame ?rs)) = Some err"
    show "calm_step cr e1 (fail e ?rs)" for e by (rule fail_calm) (use ok1 in simp)
    assume "err = None"
    with chk have v: "valid ?p \<and> \<not> writes ?p \<and> (rs_op ?rs = CALL \<longrightarrow> Back (f_stack (rs_frame ?rs)) 2 = Some 0)"
      using ok1(2) by (auto simp: read_only_def dest: check_op_None)
    show "calm_step cr e1 (do {
           (err, ms, rs) \<leftarrow> charge_op cr ?p ?rs;
           case err of Some e \<Rightarrow> fail e rs | None \<Rightarrow> do { rs \<leftarrow> before_execute rs ms; execute_step h ?p rs }
         })"
      by (rule calm_step_intros(1), (rule calm_step_intros(2))+)
        (use charged_calm [OF assms(1), of ?rs "rs_op ?rs" ?p] ok1 v table_calm in simp)
  qed
  then have "calm_step cr (f_evm f) ?body" using E1 by (rule calm_step_from)
  moreover have "calm_step cr (f_evm f) (Some (Done (Return [] None (rs\<lparr>rs_frame := f\<lparr>f_evm := e1\<rparr>\<rparr>))))"
    by (simp add: calm_step_def upon_def E1)
  ultimately show ?thesis
    unfolding Run_step_def f_def [symmetric] la Let_def prod.case crh by (cases aborted) (simp_all only: if_True if_False)
qed

section \<open>Calls in a read-only frame\<close>

definition calm_ok :: "crypto \<Rightarrow> StateDB \<Rightarrow> (bytes \<times> u64 \<times> vmError option \<times> EVM) outcome \<Rightarrow> bool" where
  "calm_ok cr s r \<longleftrightarrow> (case r of OutOfFuel \<Rightarrow> True | Done (ret, left, err, e') \<Rightarrow> err = None \<longrightarrow> calm cr s (sdb e'))"

lemma calm_ok_simps [simp]:
  "calm_ok cr s OutOfFuel" "calm_ok cr s (Done (ret, left, Some err, e'))"
  "calm_ok cr s (Done (ret, left, None, e')) = calm cr s (sdb e')"
  by (simp_all add: calm_ok_def)

text \<open>A failed call is undone; a successful one is calm.\<close>

lemma calm_callI:
  assumes "call_post cr n e g m" "upon m (calm_ok cr (sdb e))"
  shows "calm_call cr e m"
proof -
  have "evm_calm cr e e'" if "m = Some (Done (ret, left, err, e'))" for ret left err e'
    using uponD [OF assms(1) [unfolded call_post_upon] that] uponD [OF assms(2) that]
    by (cases err) (auto simp: call_res_Done evm_step_def evm_calm_def intro: calm_same)
  then show ?thesis by (auto simp: calm_call_def upon_def split: outcome.splits)
qed

lemma load_code_calm:
  assumes "load_code cr e c a = (c', e')" "calm cr s0 (sdb e)"
  shows "calm cr s0 (sdb e')"
  using assms by (auto simp: load_code_def split: prod.splits) (erule read_calm, erule read_calm, assumption)

locale readonly_loop = interpreter_loop +
  assumes calm_law: "evm_ok cr (f_evm (rs_frame rs)) \<Longrightarrow> read_only (f_evm (rs_frame rs)) \<Longrightarrow>
    upon (loop rs) (\<lambda>r. case r of OutOfFuel \<Rightarrow> True
      | Done (ret, err, rs') \<Rightarrow> evm_calm cr (f_evm (rs_frame rs)) (f_evm (rs_frame rs')))"
begin

lemma Interpreter_Run_calm:
  assumes "evm_ok cr e" "rIsByzantium (chainRules e)" "ro \<or> readOnly e"
  shows "upon (Interpreter_Run loop e c input ro) (\<lambda>r. case r of OutOfFuel \<Rightarrow> True
    | Done (ret, err, e', c') \<Rightarrow> calm cr (sdb e) (sdb e'))"
proof -
  define e1 where "e1 = (if ro \<and> \<not> readOnly e then e\<lparr>depth := depth e + 1, readOnly := True\<rparr> else e\<lparr>depth := depth e + 1\<rparr>)\<lparr>returnData := []\<rparr>"
  define leave :: "EVM \<Rightarrow> EVM" where
    "leave = (\<lambda>e'. let e' = (if ro \<and> \<not> readOnly e then e'\<lparr>readOnly := False\<rparr> else e') in e'\<lparr>depth := depth e' - 1\<rparr>)"
  define rs where "rs = \<lparr>rs_frame = \<lparr>f_pc = 0, f_evm = e1, f_contract = c\<lparr>Input := input\<rparr>, f_memory = NewMemory, f_stack = newstack\<rparr>,
    rs_op = 0, rs_cost = 0, rs_pcCopy = 0, rs_gasCopy = 0, rs_logged = False\<rparr>"
  have ok: "evm_ok cr (f_evm (rs_frame rs))" using assms(1) by (simp add: evm_ok_def e1_def rs_def)
  have ro: "read_only (f_evm (rs_frame rs))" using assms(2,3) by (auto simp: read_only_def e1_def rs_def)
  have s1: "sdb (f_evm (rs_frame rs)) = sdb e" "sdb e1 = sdb e" by (simp_all add: e1_def rs_def)
  have leave: "sdb (leave e') = sdb e'" for e' by (simp add: leave_def Let_def)
  have run: "Interpreter_Run loop e c input ro = (if length (Code c) = 0 then Some (Done ([], None, leave e1, c))
    else and_then (loop rs) (\<lambda>(ret, err, rs). do {
        evm \<leftarrow> capture_fault rs err; Some (Done (ret, err, leave evm, f_contract (rs_frame rs))) }))"
    unfolding Interpreter_Run_def Let_def e1_def leave_def rs_def by (simp cong: if_cong)
  have "upon (and_then (loop rs) (\<lambda>(ret, err, rs). do {
        evm \<leftarrow> capture_fault rs err; Some (Done (ret, err, leave evm, f_contract (rs_frame rs))) }))
      (\<lambda>r. case r of OutOfFuel \<Rightarrow> True | Done (ret, err, e', c') \<Rightarrow> calm cr (sdb e) (sdb e'))"
    by (rule upon_and_then, rule upon_mono [OF calm_law [OF ok ro]])
      (auto simp: leave s1 evm_calm_def intro!: upon_intros dest!: capture_fault_step split: outcome.splits)
  then show ?thesis unfolding run using evm_calm_start [OF assms(1)] by (simp add: leave s1 upon_def)
qed

lemma run_calm:
  assumes "evm_ok cr e" "rIsByzantium (chainRules e)" "ro \<or> readOnly e"
  shows "upon (run loop cr e c input ro) (\<lambda>r. case r of OutOfFuel \<Rightarrow> True
    | Done (ret, err, e', c') \<Rightarrow> calm cr (sdb e) (sdb e'))"
  unfolding run_def
  by (rule upon_intros; (rule Interpreter_Run_calm [OF assms])?; intro upon_intros; simp add: evm_calm_start [OF assms(1)])

lemma run_settle_calm:
  assumes "evm_ok cr e0" "evm_frame e = evm_frame e0" "rIsByzantium (chainRules e0)" "ro \<or> readOnly e0" "calm cr (sdb e0) (sdb e)"
  shows "upon (and_then (run loop cr e c input ro) (settle cr i)) (calm_ok cr (sdb e0))"
proof -
  have e: "evm_ok cr e" "rIsByzantium (chainRules e)" "ro \<or> readOnly e"
    using assms by (auto simp: evm_ok_def evm_frame_def dest: calm_wf)
  have "upon (settle cr i (ret, err, e', c')) (calm_ok cr (sdb e0))" if "calm cr (sdb e) (sdb e')" for ret err e' c'
    unfolding settle_def prod.case
    by (intro upon_intros) (use calm_trans [OF assms(5) that] in \<open>auto simp: calm_ok_def\<close>)
  then show ?thesis
    by (intro upon_and_then upon_mono [OF run_calm [OF e, of c input]]) (auto split: outcome.splits)
qed

lemma DelegateCall_calm:
  assumes "evm_ok cr e" "read_only e"
  shows "calm_call cr e (DelegateCall_with loop cr e clr a input g)"
proof (rule calm_callI [OF DelegateCall_post [OF assms(1)]])
  have body: "upon (and_then (run loop cr e2 c3 input False) (settle cr i)) (calm_ok cr (sdb e))"
    if "Snapshot (sdb e) = (i, s)" "new_contract (e\<lparr>sdb := s\<rparr>) clr to w g = (c, e1)" "load_code cr e1 c2 a = (c3, e2)"
    for i s to w c e1 c2 c3 e2
    using assms new_contract_step [OF that(2)] load_code_step [OF that(3)]
      load_code_calm [OF that(3), of "sdb e"] Snapshot_calm [OF evm_calm_start [OF assms(1)] that(1)]
    by (intro run_settle_calm) (auto simp: read_only_def)
  show "upon (DelegateCall_with loop cr e clr a input g) (calm_ok cr (sdb e))"
    unfolding DelegateCall_with_def by (intro upon_intros) (auto simp: evm_calm_start [OF assms(1)] intro: body)
qed

lemma CallCode_calm:
  assumes "evm_ok cr e" "read_only e"
  shows "calm_call cr e (CallCode_with loop cr e clr a input g v)"
proof (rule calm_callI [OF CallCode_post [OF assms(1)]])
  have body: "upon (and_then (run loop cr e2 c3 input False) (settle cr i)) (calm_ok cr (sdb e))"
    if "CanTransferFn (ctx e) (sdb e) x v = (can, s0)" "Snapshot s0 = (i, s)" "new_contract (e\<lparr>sdb := s\<rparr>) clr to w g = (c, e1)"
      "load_code cr e1 c a = (c3, e2)" for x can s0 i s to w c e1 c3 e2
    using assms new_contract_step [OF that(3)] load_code_step [OF that(4)] load_code_calm [OF that(4), of "sdb e"]
      Snapshot_calm [OF calm_same [OF funds_step [OF assms(1) that(1)]] that(2)]
    by (intro run_settle_calm) (auto simp: read_only_def)
  show "upon (CallCode_with loop cr e clr a input g v) (calm_ok cr (sdb e))"
    unfolding CallCode_with_def by (intro upon_intros) (auto simp: evm_calm_start [OF assms(1)] intro: body)
qed

lemma StaticCall_calm:
  assumes "evm_ok cr e" "rIsByzantium (chainRules e)"
  shows "calm_call cr e (StaticCall_with loop cr e clr a input g)"
proof (rule calm_callI [OF StaticCall_post [OF assms(1)]])
  have body: "upon (and_then (run loop cr (e2\<lparr>sdb := AddBalance cr (sdb e2) a 0\<rparr>) c3 input True) (settle cr i)) (calm_ok cr (sdb e))"
    if "Snapshot (sdb e) = (i, s)" "new_contract (e\<lparr>sdb := s\<rparr>) clr to w g = (c, e1)" "load_code cr e1 c a = (c3, e2)"
    for i s to w c e1 c3 e2
    using assms new_contract_step [OF that(2)] load_code_step [OF that(3)]
      load_code_calm [OF that(3), of "sdb e"] Snapshot_calm [OF evm_calm_start [OF assms(1)] that(1)]
    by (intro run_settle_calm) (auto intro: AddBalance_calm)
  show "upon (StaticCall_with loop cr e clr a input g) (calm_ok cr (sdb e))"
    unfolding StaticCall_with_def by (intro upon_intros) (auto simp: evm_calm_start [OF assms(1)] intro: body)
qed

lemma Call_calm:
  assumes "evm_ok cr e" "read_only e"
  shows "calm_call cr e (Call_with loop cr e clr a input g 0)"
proof (rule calm_callI [OF Call_post [OF assms(1)]])
  have T: "TransferFn (ctx e) = Transfer cr" using assms(1) by (simp add: evm_ok_def)
  have cr: "crypto_ok cr" using assms(1) by blast
  have seen: "calm cr (sdb e) s2 \<and> (\<not> ex \<longrightarrow> acct cr s2 a = None)"
    if "CanTransferFn (ctx e) (sdb e) x 0 = (can, s0)" "Snapshot s0 = (i, s1)" "Exist cr s1 a = (ex, s2)" for x can s0 i s1 ex s2
  proof -
    note s1 = Snapshot_calm [OF calm_same [OF funds_step [OF assms(1) that(1)]] that(2)]
    with read_calm(7) [OF that(3)] Exist_read [OF calm_wf [OF s1] that(3)] show ?thesis
      by (auto simp: read_ok_def same_view_def)
  qed
  have traced: "upon (and_then m (\<lambda>(ret, left, err, e'). do { e' \<leftarrow> trace_end e' ret err; Some (Done (ret, left, err, e')) }))
    (calm_ok cr (sdb e))" if "upon m (calm_ok cr (sdb e))" for m
    by (rule upon_and_then, rule upon_mono [OF that])
      (auto simp: calm_ok_def intro!: upon_intros dest!: trace_end_step split: outcome.splits)
  have body: "upon (and_then (run loop cr e4 c2 input False) (settle cr i)) (calm_ok cr (sdb e))"
    if "new_contract e1 clr to w g = (c, e2)" "load_code cr e2 c a = (c2, e3)" "trace_start e3 = Some e4"
      "calm cr (sdb e) (sdb e1)" "evm_frame e1 = evm_frame e" for i e1 to w c e2 c2 e3 e4
    using assms that(4,5) new_contract_step [OF that(1)] load_code_step [OF that(2)] load_code_calm [OF that(2), of "sdb e"]
      trace_start_step [OF that(3)]
    by (intro run_settle_calm) (auto simp: read_only_def)
  show "upon (Call_with loop cr e clr a input g 0) (calm_ok cr (sdb e))"
    unfolding Call_with_def
    apply (intro upon_intros traced)
    apply (simp_all add: evm_calm_start [OF assms(1)] T)
    subgoal by (drule (2) seen, drule trace_start_step, drule trace_end_step, simp)
    subgoal by (drule (2) seen, erule (2) body) (auto simp: T intro!: Transfer_calm CreateAccount_calm cr)
    done
qed

lemma host_of_calm: "calm_host cr (host_of cr loop)"
  unfolding calm_host_def
  by (auto simp: host_of_def read_only_def intro: Call_calm CallCode_calm DelegateCall_calm StaticCall_calm)

end

text \<open>The loop of the model is calm in a read-only frame at every fuel.\<close>

interpretation ro: readonly_loop cr "run_loop cr n" n for cr n
proof (induction n)
  case 0
  show ?case by unfold_locales (simp add: upon_def)
next
  case (Suc n)
  show ?case
  proof unfold_locales
    fix rs :: runState
    assume ok: "evm_ok cr (f_evm (rs_frame rs))" "read_only (f_evm (rs_frame rs))"
    have more: "upon (run_loop cr n rs1) (\<lambda>r. case r of OutOfFuel \<Rightarrow> True
        | Done (ret, err, rs') \<Rightarrow> evm_calm cr (f_evm (rs_frame rs)) (f_evm (rs_frame rs')))"
      if "evm_calm cr (f_evm (rs_frame rs)) (f_evm (rs_frame rs1))" for rs1
      using readonly_loop.calm_law [OF Suc, of rs1] evm_calm_ok [OF ok(1) that] ok(2) that
      by (auto elim!: upon_mono intro: evm_calm_trans split: outcome.splits)
    from Run_step_calm [OF readonly_loop.host_of_calm [OF Suc] ok]
    show "upon (run_loop cr (Suc n) rs) (\<lambda>r. case r of OutOfFuel \<Rightarrow> True
        | Done (ret, err, rs') \<Rightarrow> evm_calm cr (f_evm (rs_frame rs)) (f_evm (rs_frame rs')))"
      unfolding calm_step_def run_loop.simps
      by (intro upon_and_then, elim upon_mono)
        (auto split: outcome.splits loopStep.splits intro!: upon_intros more)
  qed
qed

text \<open>
  (C4) Static calls (EIP-214): from Byzantium on, a static call leaves every account that exists exactly as it was (balance,
  nonce, code, storage), adds no log and no refund, and the only accounts it can add are empty ones, whatever code it runs and however
  deep the calls that this code makes.
\<close>

theorem static_call_quiet:
  assumes "evm_ok cr e" "rIsByzantium (chainRules e)" "StaticCall cr n e clr a inp g = Some (Done (ret, left, err, e'))"
  shows "quiet cr (sdb e) (sdb e')"
  using uponD [OF ro.StaticCall_calm [OF assms(1,2), unfolded calm_call_def] assms(3) [unfolded StaticCall_def]]
  by (simp add: evm_calm_def calm_def)

lemma sample_rules: "rIsByzantium (chainRules sample_evm)"
  by (simp add: sample_evm_def NewEVM_def TestChainConfig_def IsEWASM_def isForked_def ChainConfig_Rules_def
      IsByzantium_def sample_context_def)

theorem static_call_quiet_witness:
  "\<exists>ret left err e'. StaticCall sample_crypto 51 sample_evm (AccountRef zeroAddress) (BytesToAddress [2]) [] 50 =
     Some (Done (ret, left, err, e')) \<and> quiet sample_crypto (sdb sample_evm) (sdb e')"
  using sample_failed_call static_call_quiet [OF sample_evm_ok sample_rules] by blast

end
