(* ===== verification/Cancel_Liveness.thy ===== *)
theory Cancel_Liveness
  imports Flow_Safety
begin

text \<open>
  \<^verbatim>\<open>EVM.Cancel\<close>. The loops of the interpreter read the flag before every instruction; \<open>abort\<close> counts how many reads still find it
  unset. The contract of a machine that can be stopped is the locale \<open>stoppable_host\<close>; a loop that keeps its part
  (\<open>stoppable_loop\<close>) makes such a machine, and the loop of the model keeps it.
\<close>

section \<open>Checks left before the flag is seen\<close>

text \<open>
  A structured tracer without a limit records every instruction. What it has recorded and the checks that are left are
  kept in balance: \<open>spent c d e e'\<close> holds when from \<open>e\<close> to \<open>e'\<close> every check that was passed is one more entry of the trace, where \<open>c\<close>
  entries were still to come for earlier checks in \<open>e\<close> and \<open>d\<close> are still to come in \<open>e'\<close>.
\<close>

definition traced :: "EVM \<Rightarrow> bool" where
  "traced e \<longleftrightarrow> Debug (vmConfig e) \<and> (\<exists>l. tracer e = Some l \<and> Limit (lg_cfg l) = 0)"

definition recorded :: "EVM \<Rightarrow> nat" where
  "recorded e = (case tracer e of None \<Rightarrow> 0 | Some l \<Rightarrow> length (lg_logs l))"

definition spent :: "nat \<Rightarrow> nat \<Rightarrow> EVM \<Rightarrow> EVM \<Rightarrow> bool" where
  "spent c d e e' \<longleftrightarrow> (\<forall>k. abort e = Some k \<longrightarrow>
     (\<exists>j \<le> k. abort e' = Some j \<and> (traced e \<longrightarrow> traced e' \<and> recorded e' + d + j = recorded e + c + k)))"

abbreviation within :: "EVM \<Rightarrow> EVM \<Rightarrow> bool" where
  "within \<equiv> spent 0 0"

definition late :: "nat \<Rightarrow> EVM \<Rightarrow> bool" where
  "late n e \<longleftrightarrow> (\<forall>k. abort e = Some k \<longrightarrow> n \<le> k)"

text \<open>Nothing that counts has changed.\<close>

definition kept :: "EVM \<Rightarrow> EVM \<Rightarrow> bool" where
  "kept e e' \<longleftrightarrow> abort e' = abort e \<and> vmConfig e' = vmConfig e \<and> recorded e' = recorded e \<and> traced e' = traced e"

lemma within_refl [simp]: "within e e"
  by (auto simp: spent_def)

lemma spent_trans: "spent c d e e1 \<Longrightarrow> spent d d' e1 e2 \<Longrightarrow> spent c d' e e2"
  unfolding spent_def by fastforce

lemma spent_untraced: "\<not> traced e \<Longrightarrow> spent c d e e' \<Longrightarrow> spent c' d' e e'"
  by (simp add: spent_def)

lemma late_within: "late n e1 \<Longrightarrow> spent c d e e1 \<Longrightarrow> late n e"
  unfolding spent_def late_def by fastforce

lemma spent_idle: "\<not> Debug (vmConfig e) \<Longrightarrow> spent c d e e"
  by (auto simp: spent_def traced_def)

lemma kept_within: "kept e e' \<Longrightarrow> within e e'"
  by (auto simp: spent_def kept_def)

lemma kept_trans: "kept e e1 \<Longrightarrow> kept e1 e2 \<Longrightarrow> kept e e2"
  by (simp add: kept_def)

lemma spent_kept: "spent c d e e1 \<Longrightarrow> kept e1 e2 \<Longrightarrow> spent c d e e2"
  by (simp add: spent_def kept_def)

lemma kept_simps [simp]:
  "kept e e" "kept e (e1\<lparr>sdb := s\<rparr>) = kept e e1" "kept e (e1\<lparr>callGasTemp := g\<rparr>) = kept e e1"
  "kept e (e1\<lparr>returnData := r\<rparr>) = kept e e1" "kept e (e1\<lparr>jumpdests_of := jd\<rparr>) = kept e e1"
  "kept e (e1\<lparr>depth := m\<rparr>) = kept e e1" "kept e (e1\<lparr>readOnly := b\<rparr>) = kept e e1"
  by (simp_all add: kept_def recorded_def traced_def)

lemma kept_from_simps [simp]:
  "kept (e\<lparr>sdb := s\<rparr>) e1 = kept e e1" "kept (e\<lparr>returnData := r\<rparr>) e1 = kept e e1" "kept (e\<lparr>depth := m\<rparr>) e1 = kept e e1"
  by (simp_all add: kept_def recorded_def traced_def)

lemma spent_simps [simp]:
  "spent c d e (e1\<lparr>sdb := s\<rparr>) = spent c d e e1" "spent c d e (e1\<lparr>callGasTemp := g\<rparr>) = spent c d e e1"
  "spent c d e (e1\<lparr>returnData := r\<rparr>) = spent c d e e1" "spent c d e (e1\<lparr>jumpdests_of := jd\<rparr>) = spent c d e e1"
  "spent c d e (e1\<lparr>depth := m\<rparr>) = spent c d e e1" "spent c d e (e1\<lparr>readOnly := b\<rparr>) = spent c d e e1"
  by (simp_all add: spent_def recorded_def traced_def)

lemma same_trace_kept: "same_trace e e' \<Longrightarrow> kept e e'"
  by (simp add: same_trace_def same_flow_def kept_def recorded_def traced_def)

text \<open>The results of the computations: the entries still to come, and the machine they leave.\<close>

definition stop_res :: "nat \<Rightarrow> EVM \<Rightarrow> ('a \<Rightarrow> nat \<times> EVM) \<Rightarrow> 'a outcome \<Rightarrow> bool" where
  "stop_res n e evm_of r \<longleftrightarrow> (case r of OutOfFuel \<Rightarrow> late n e | Done x \<Rightarrow> spent 0 (fst (evm_of x)) e (snd (evm_of x)))"

lemma stop_res_simps [simp]:
  "stop_res n e evm_of OutOfFuel = late n e" "stop_res n e evm_of (Done x) = spent 0 (fst (evm_of x)) e (snd (evm_of x))"
  by (simp_all add: stop_res_def)

lemma stop_and_then:
  assumes "upon m (stop_res n e1 get1)" "within e e1"
    "\<And>x. spent 0 (fst (get1 x)) e (snd (get1 x)) \<Longrightarrow> upon (k x) (stop_res n e get2)"
  shows "upon (and_then m k) (stop_res n e get2)"
  by (rule upon_and_then, rule upon_mono [OF assms(1)])
    (use assms(2,3) in \<open>auto intro: late_within spent_trans intro!: assms(3) split: outcome.splits\<close>)

definition call_evm :: "bytes \<times> u64 \<times> vmError option \<times> EVM \<Rightarrow> nat \<times> EVM" where
  "call_evm = (\<lambda>(ret, left, err, e). (0, e))"

definition create_evm :: "bytes \<times> Address \<times> u64 \<times> vmError option \<times> EVM \<Rightarrow> nat \<times> EVM" where
  "create_evm = (\<lambda>(ret, a, left, err, e). (0, e))"

definition exec_evm :: "bytes \<times> vmError option \<times> Frame \<Rightarrow> nat \<times> EVM" where
  "exec_evm = (\<lambda>(res, err, f). (0, f_evm f))"

lemma result_evm_simps [simp]:
  "call_evm (ret, left, err, e) = (0, e)" "create_evm (ret, a, left, err, e) = (0, e)" "exec_evm (res, err, f) = (0, f_evm f)"
  by (simp_all add: call_evm_def create_evm_def exec_evm_def)

locale stoppable_host =
  fixes h :: host
    and n :: nat
  assumes call_stops: "upon (h_Call h e clr a inp g v) (stop_res n e call_evm)"
    and callcode_stops: "upon (h_CallCode h e clr a inp g v) (stop_res n e call_evm)"
    and delegatecall_stops: "upon (h_DelegateCall h e clr a inp g) (stop_res n e call_evm)"
    and staticcall_stops: "upon (h_StaticCall h e clr a inp g) (stop_res n e call_evm)"
    and create_stops: "upon (h_Create h e clr code g v) (stop_res n e create_evm)"
    and create2_stops: "upon (h_Create2 h e clr code g v salt) (stop_res n e create_evm)"

definition stops :: "executionFunc \<Rightarrow> bool" where
  "stops ex \<longleftrightarrow> (\<forall>h n f. stoppable_host h n \<longrightarrow> upon (ex h f) (stop_res n (f_evm f) exec_evm))"

lemma stopsI: "(\<And>h n f. stoppable_host h n \<Longrightarrow> upon (ex h f) (stop_res n (f_evm f) exec_evm)) \<Longrightarrow> stops ex"
  by (simp add: stops_def)

lemma local_stops: "local_instr ex \<Longrightarrow> stops ex"
proof (rule stopsI)
  fix h n f
  assume l: "local_instr ex"
  show "upon (ex h f) (stop_res n (f_evm f) exec_evm)"
    by (rule upon_mono [OF l [unfolded local_instr_def, rule_format]]) (auto split: outcome.splits)
qed

lemma state_stops:
  "stops opSha3" "stops opBalance" "stops opExtCodeSize" "stops opExtCodeCopy" "stops opExtCodeHash" "stops opSload"
  "stops opSstore" "stops opSuicide" "stops (makeLog k)"
  unfolding opSha3_def opBalance_def opExtCodeSize_def opExtCodeCopy_def opExtCodeHash_def opSload_def opSstore_def
    opSuicide_def makeLog_def
  by (rule stopsI, intro upon_intros; simp)+

lemma f_validJumpdest_kept: "f_validJumpdest f pos = Some (ok, f') \<Longrightarrow> kept (f_evm f) (f_evm f')"
  by (auto simp: f_validJumpdest_def split: Option.bind_splits)

lemma jump_stops: "stops opJump" "stops opJumpi"
  unfolding opJump_def opJumpi_def
  by (rule stopsI, intro upon_intros; simp add: kept_within f_validJumpdest_kept)+

lemma finish_call_stops:
  "within e e' \<Longrightarrow> upon (finish_call f st ro rs (ret, g, err, e')) (stop_res n e exec_evm)"
  unfolding finish_call_def prod.case by (intro upon_intros) simp

lemma call_instr_stops:
  "upon m (stop_res n (f_evm f) call_evm) \<Longrightarrow> upon (and_then m (finish_call f st ro rs)) (stop_res n (f_evm f) exec_evm)"
  by (rule stop_and_then, assumption, simp, clarsimp, erule finish_call_stops)

lemma call_instrs_stop: "stops opCall" "stops opCallCode" "stops opDelegateCall" "stops opStaticCall"
  unfolding opCall_def opCallCode_def opDelegateCall_def opStaticCall_def
  by (rule stopsI, intro upon_intros call_instr_stops; erule stoppable_host.call_stops stoppable_host.callcode_stops
      stoppable_host.delegatecall_stops stoppable_host.staticcall_stops)+

lemma create_instrs_stop: "stops opCreate" "stops opCreate2"
  unfolding opCreate_def opCreate2_def
  by (rule stopsI, intro upon_intros, (rule stop_and_then, erule stoppable_host.create_stops stoppable_host.create2_stops, simp),
      clarsimp, (auto intro!: upon_intros)[])+

definition stopping :: "operation \<Rightarrow> bool" where
  "stopping p \<longleftrightarrow> (valid p \<longrightarrow> stops (execute p))"

lemma table_stops: "stopping (JumpTable s op)"
  by (rule JumpTable_all)
    (simp add: all_operations_simps zero_op_simps stopping_def state_stops jump_stops call_instrs_stop create_instrs_stop
      local_instrs [THEN local_stops])

section \<open>An iteration\<close>

text \<open>
  An instruction that fails before it is traced is recorded when the loop is left, by the deferred function: until then its
  entry is still to come.
\<close>

definition owed :: "vmError option \<Rightarrow> runState \<Rightarrow> nat" where
  "owed err rs = (if err \<noteq> None \<and> \<not> rs_logged rs then 1 else 0)"

definition step_evm :: "runState loopStep \<Rightarrow> nat \<times> EVM" where
  "step_evm r = (case r of Return ret err rs \<Rightarrow> (owed err rs, f_evm (rs_frame rs)) | Continue rs \<Rightarrow> (0, f_evm (rs_frame rs)))"

definition loop_evm :: "bytes \<times> vmError option \<times> runState \<Rightarrow> nat \<times> EVM" where
  "loop_evm = (\<lambda>(ret, err, rs). (owed err rs, f_evm (rs_frame rs)))"

definition run_evm :: "bytes \<times> vmError option \<times> EVM \<times> Contract \<Rightarrow> nat \<times> EVM" where
  "run_evm = (\<lambda>(ret, err, e, c). (0, e))"

lemma loop_evm_simps [simp]:
  "step_evm (Return ret err rs) = (owed err rs, f_evm (rs_frame rs))" "step_evm (Continue rs) = (0, f_evm (rs_frame rs))"
  "loop_evm (ret, err, rs) = (owed err rs, f_evm (rs_frame rs))" "run_evm (ret, err, e, c) = (0, e)"
  by (simp_all add: step_evm_def loop_evm_def run_evm_def)

lemma stop_res_from: "stop_res n e1 g r \<Longrightarrow> within e e1 \<Longrightarrow> stop_res n e g r"
  by (cases r) (auto intro: late_within spent_trans)

lemma stop_res_kept: "upon m (stop_res n e1 g) \<Longrightarrow> kept e e1 \<Longrightarrow> upon m (stop_res n e g)"
  by (blast intro: upon_mono stop_res_from kept_within)

lemma spent_logged: "within e e' \<Longrightarrow> (traced e \<Longrightarrow> rs_logged rs) \<Longrightarrow> spent 0 (owed err rs) e e'"
  by (cases "traced e") (auto simp: owed_def intro: spent_untraced)

lemma execute_step_stops:
  assumes "stops (execute p)" "stoppable_host h n" "traced (f_evm (rs_frame rs)) \<Longrightarrow> rs_logged rs"
  shows "upon (execute_step h p rs) (stop_res n (f_evm (rs_frame rs)) step_evm)"
  unfolding execute_step_def
proof (rule stop_and_then)
  show "upon (execute p h (rs_frame rs)) (stop_res n (f_evm (rs_frame rs)) exec_evm)" using assms by (simp add: stops_def)
  fix x
  assume "spent 0 (fst (exec_evm x)) (f_evm (rs_frame rs)) (snd (exec_evm x))"
  then show "upon (case x of (res, err, f) \<Rightarrow>
       let f = (if returns p then f\<lparr>f_evm := (f_evm f)\<lparr>returnData := res\<rparr>\<rparr> else f); rs = rs\<lparr>rs_frame := f\<rparr>
       in if err \<noteq> None then Some (Done (Return [] err rs))
          else if reverts p then Some (Done (Return res (Some errExecutionReverted) rs))
          else if halts p then Some (Done (Return res None rs))
          else if \<not> jumps p then Some (Done (Continue (rs\<lparr>rs_frame := f\<lparr>f_pc := f_pc f + 1\<rparr>\<rparr>)))
          else Some (Done (Continue rs))) (stop_res n (f_evm (rs_frame rs)) step_evm)"
    by (cases x) (auto simp: Let_def upon_def intro!: spent_logged assms(3))
qed simp

text \<open>Each iteration that is not the last uses up one of the checks that are left.\<close>

definition ticked :: "EVM \<Rightarrow> EVM \<Rightarrow> bool" where
  "ticked e e' \<longleftrightarrow> within e e' \<and> (\<forall>k. abort e = Some k \<longrightarrow> (\<exists>j < k. abort e' = Some j))"

lemma ticked_trans: "ticked e e1 \<Longrightarrow> spent 0 d e1 e2 \<Longrightarrow> spent 0 d e e2"
  by (auto simp: ticked_def intro: spent_trans)

lemma ticked_late: "ticked e e1 \<Longrightarrow> late n e1 \<Longrightarrow> late (Suc n) e"
  unfolding ticked_def late_def by fastforce

lemma load_abort_ticks:
  assumes "load_abort e = (b, e1)"
  shows "b \<Longrightarrow> kept e e1" "\<not> b \<Longrightarrow> late n e1 \<Longrightarrow> late (Suc n) e" "\<not> b \<Longrightarrow> spent 0 1 e e1"
    "\<not> b \<Longrightarrow> spent 1 0 e1 e' \<Longrightarrow> ticked e e'"
  using assms
  by (auto simp: load_abort_def kept_def spent_def late_def ticked_def traced_def recorded_def split: option.splits nat.splits)

lemma CaptureState_records:
  "Limit (lg_cfg l) = 0 \<Longrightarrow>
   length (lg_logs (snd (CaptureState l env pc op gas cost mem stck c d err))) = Suc (length (lg_logs l)) \<and>
   lg_cfg (snd (CaptureState l env pc op gas cost mem stck c d err)) = lg_cfg l"
  by (simp add: CaptureState_def Let_def)

lemma trace_records:
  "trace e (\<lambda>l. CaptureState l env pc op gas cost mem stck c d err) = Some e' \<Longrightarrow> spent 1 0 e e'"
  by (auto simp: trace_def spent_def traced_def recorded_def CaptureState_records split: option.splits)

lemma before_execute_records:
  assumes "before_execute rs ms = Some rs'"
  shows "spent 1 0 (f_evm (rs_frame rs)) (f_evm (rs_frame rs'))" "traced (f_evm (rs_frame rs')) \<Longrightarrow> rs_logged rs'"
  using assms
  by (auto simp: before_execute_def Let_def traced_def simp del: One_nat_def split: if_splits Option.bind_splits
      intro: trace_records spent_idle)

lemma charge_op_logged: "charge_op cr p rs = Some (err, ms, rs') \<Longrightarrow> rs_logged rs' = rs_logged rs"
  by (auto simp: charge_op_def Let_def split: prod.splits if_splits Option.bind_splits option.splits)

text \<open>What is left of an iteration after the check of the flag, which the trace does not show yet.\<close>

definition step_res :: "nat \<Rightarrow> EVM \<Rightarrow> runState loopStep outcome \<Rightarrow> bool" where
  "step_res n e r \<longleftrightarrow> (case r of OutOfFuel \<Rightarrow> late n e | Done x \<Rightarrow> spent 1 (fst (step_evm x)) e (snd (step_evm x)))"

lemma fail_records:
  assumes "kept e (f_evm (rs_frame rs))" "traced e \<Longrightarrow> \<not> rs_logged rs"
  shows "upon (fail er rs) (step_res n e)"
proof -
  have "spent 1 1 e (f_evm (rs_frame rs))" using assms(1) by (simp add: spent_def kept_def)
  with assms(2) show ?thesis
    by (cases "traced e") (auto simp: fail_def upon_def step_res_def owed_def intro: spent_untraced)
qed

lemma charged_stops:
  assumes "stoppable_host h n" "p = JumpTable s op" "valid p" "charge_op cr p rs = Some (err, ms, rs1)"
    "traced (f_evm (rs_frame rs)) \<Longrightarrow> \<not> rs_logged rs"
  shows "upon (case err of Some e \<Rightarrow> fail e rs1 | None \<Rightarrow> do { rs \<leftarrow> before_execute rs1 ms; execute_step h p rs })
    (step_res n (f_evm (rs_frame rs)))"
proof (intro upon_intros)
  have kept: "kept (f_evm (rs_frame rs)) (f_evm (rs_frame rs1))"
    using charge_op_flow [OF assms(4) [unfolded assms(2)]] by (blast intro: same_trace_kept)
  then show "upon (fail e rs1) (step_res n (f_evm (rs_frame rs)))" for e
    using assms(5) by (auto intro!: fail_records simp: charge_op_logged [OF assms(4)])
  fix rs2
  assume b: "before_execute rs1 ms = Some rs2"
  have "stops (execute p)" using table_stops [of s op] assms(2,3) by (simp add: stopping_def)
  from execute_step_stops [OF this assms(1) before_execute_records(2) [OF b]]
  show "upon (execute_step h p rs2) (step_res n (f_evm (rs_frame rs)))"
  proof (rule upon_mono)
    fix r
    assume r: "stop_res n (f_evm (rs_frame rs2)) step_evm r"
    have "spent 1 0 (f_evm (rs_frame rs)) (f_evm (rs_frame rs2))"
      using before_execute_records(1) [OF b] kept by (simp add: spent_def kept_def)
    with r show "step_res n (f_evm (rs_frame rs)) r"
      by (cases r) (simp_all add: step_res_def late_within spent_trans)
  qed
qed

lemma Run_step_stops:
  assumes "stoppable_host h n"
  shows "upon (Run_step h rs) (\<lambda>r. case r of OutOfFuel \<Rightarrow> late (Suc n) (f_evm (rs_frame rs))
    | Done (Return ret err rs') \<Rightarrow> spent 0 (owed err rs') (f_evm (rs_frame rs)) (f_evm (rs_frame rs'))
    | Done (Continue rs') \<Rightarrow> ticked (f_evm (rs_frame rs)) (f_evm (rs_frame rs')))"
proof -
  define f where "f = rs_frame rs"
  obtain aborted e1 where la: "load_abort (f_evm f) = (aborted, e1)" by (cases "load_abort (f_evm f)")
  let ?rs = "begin_step (rs\<lparr>rs_frame := f\<lparr>f_evm := e1\<rparr>\<rparr>)"
  let ?p = "JumpTable (instrSet e1) (rs_op ?rs)"
  have new: "\<not> rs_logged ?rs" if "traced e1" using that by (simp add: begin_step_def traced_def Let_def)
  have "upon (do {
       err \<leftarrow> check_op e1 (rs_op ?rs) ?p (f_stack (rs_frame ?rs));
       case err of
         Some e \<Rightarrow> fail e ?rs
       | None \<Rightarrow> do {
           (err, ms, rs) \<leftarrow> charge_op (h_crypto h) ?p ?rs;
           case err of Some e \<Rightarrow> fail e rs | None \<Rightarrow> do { rs \<leftarrow> before_execute rs ms; execute_step h ?p rs }
         }}) (step_res n e1)" (is "upon ?body _")
  proof (rule upon_bind, rule upon_option)
    fix err :: "vmError option"
    assume chk: "check_op e1 (rs_op ?rs) ?p (f_stack (rs_frame ?rs)) = Some err"
    show "upon (fail e ?rs) (step_res n e1)" for e using new by (intro fail_records) simp_all
    assume "err = None"
    with chk have "valid ?p" by (auto dest: check_op_None)
    with charged_stops [OF assms refl this, of _ ?rs] new show "upon (do {
           (err, ms, rs) \<leftarrow> charge_op (h_crypto h) ?p ?rs;
           case err of Some e \<Rightarrow> fail e rs | None \<Rightarrow> do { rs \<leftarrow> before_execute rs ms; execute_step h ?p rs }
         }) (step_res n e1)"
      by (intro upon_bind) (auto split: prod.splits)
  qed
  then have "\<not> aborted \<Longrightarrow> upon ?body (\<lambda>r. case r of OutOfFuel \<Rightarrow> late (Suc n) (f_evm f)
    | Done (Return ret err rs') \<Rightarrow> spent 0 (owed err rs') (f_evm f) (f_evm (rs_frame rs'))
    | Done (Continue rs') \<Rightarrow> ticked (f_evm f) (f_evm (rs_frame rs')))"
    by (elim upon_mono)
      (auto simp: step_res_def intro: load_abort_ticks [OF la] spent_trans [OF load_abort_ticks(3) [OF la]]
        split: outcome.splits loopStep.splits)
  then show ?thesis
    unfolding Run_step_def f_def [symmetric] la Let_def prod.case
    by (cases aborted)
      (simp_all add: upon_def owed_def kept_within load_abort_ticks(1) [OF la] del: begin_step_op begin_step_frame)
qed

section \<open>Calls\<close>

lemma helpers_kept:
  "new_contract e clr ob v g = (c, e') \<Longrightarrow> kept e e'"
  "load_code cr e c a = (c', e') \<Longrightarrow> kept e e'"
  "trace_start e = Some e' \<Longrightarrow> kept e e'"
  "trace_end e ret err = Some e' \<Longrightarrow> kept e e'"
  by (auto simp: new_contract_def load_code_def trace_start_def trace_end_def trace_def CaptureStart_def CaptureEnd_def
      kept_def recorded_def traced_def Let_def split: prod.splits option.splits if_splits)

lemma capture_fault_records:
  assumes "capture_fault rs err = Some e'" "spent 0 (owed err rs) e (f_evm (rs_frame rs))"
  shows "within e e'"
proof -
  have "spent (owed err rs) 0 (f_evm (rs_frame rs)) e'"
    using assms(1)
    by (auto simp: capture_fault_def Let_def owed_def traced_def simp del: One_nat_def split: if_splits
        intro: trace_records spent_idle)
      (auto simp: trace_def CaptureFault_def spent_def traced_def recorded_def split: option.splits)
  with assms(2) show ?thesis by (rule spent_trans)
qed

lemma settle_stops: "spent 0 (fst (run_evm x)) e (snd (run_evm x)) \<Longrightarrow> upon (settle cr i x) (stop_res n e call_evm)"
  unfolding settle_def by (cases x) (auto intro!: upon_intros)

lemma finish_create_stops:
  "spent 0 (fst (run_evm x)) e (snd (run_evm x)) \<Longrightarrow> upon (finish_create cr i a x) (stop_res n e create_evm)"
  unfolding finish_create_def
  by (cases x; simp only: prod.case; intro upon_intros)
    (auto simp: Let_def dest!: helpers_kept(4) split: if_splits prod.splits Option.bind_splits, (blast intro: spent_kept)+)

locale stoppable_loop =
  fixes cr :: crypto
    and loop :: "runState \<Rightarrow> loopResult"
    and n :: nat
  assumes loop_stops: "upon (loop rs) (stop_res n (f_evm (rs_frame rs)) loop_evm)"
begin

lemma Interpreter_Run_stops: "upon (Interpreter_Run loop e c input ro) (stop_res n e run_evm)"
proof -
  define e1 where "e1 = (if ro \<and> \<not> readOnly e then e\<lparr>depth := depth e + 1, readOnly := True\<rparr> else e\<lparr>depth := depth e + 1\<rparr>)\<lparr>returnData := []\<rparr>"
  define leave :: "EVM \<Rightarrow> EVM" where
    "leave = (\<lambda>e'. let e' = (if ro \<and> \<not> readOnly e then e'\<lparr>readOnly := False\<rparr> else e') in e'\<lparr>depth := depth e' - 1\<rparr>)"
  define rs where "rs = \<lparr>rs_frame = \<lparr>f_pc = 0, f_evm = e1, f_contract = c\<lparr>Input := input\<rparr>, f_memory = NewMemory, f_stack = newstack\<rparr>,
    rs_op = 0, rs_cost = 0, rs_pcCopy = 0, rs_gasCopy = 0, rs_logged = False\<rparr>"
  have kept: "kept e (f_evm (rs_frame rs))" "kept e e1" by (simp_all add: e1_def rs_def)
  have leave: "kept e' (leave e')" for e' by (simp add: leave_def Let_def)
  have run: "Interpreter_Run loop e c input ro = (if length (Code c) = 0 then Some (Done ([], None, leave e1, c))
    else and_then (loop rs) (\<lambda>(ret, err, rs). do {
        evm \<leftarrow> capture_fault rs err; Some (Done (ret, err, leave evm, f_contract (rs_frame rs))) }))"
    unfolding Interpreter_Run_def Let_def e1_def leave_def rs_def by (simp cong: if_cong)
  have "upon (and_then (loop rs) (\<lambda>(ret, err, rs). do {
        evm \<leftarrow> capture_fault rs err; Some (Done (ret, err, leave evm, f_contract (rs_frame rs))) }))
      (stop_res n e run_evm)"
    by (rule stop_and_then [OF loop_stops])
      (auto simp: kept_within kept intro!: upon_intros spent_kept [OF _ leave] intro: capture_fault_records)
  then show ?thesis unfolding run by (simp add: upon_def kept_within kept_trans [OF kept(2) leave])
qed

lemma run_stops: "kept e0 e \<Longrightarrow> upon (run loop cr e c input ro) (stop_res n e0 run_evm)"
  unfolding run_def
  by (rule upon_option) (auto intro!: upon_intros stop_res_kept [OF Interpreter_Run_stops] simp: kept_within)

lemma called_stops:
  "kept e0 e \<Longrightarrow> upon (and_then (run loop cr e c input ro) (settle cr i)) (stop_res n e0 call_evm)"
  by (rule stop_and_then [OF run_stops], assumption, simp, erule settle_stops)

lemma traced_stops:
  "upon m (stop_res n e call_evm) \<Longrightarrow>
   upon (and_then m (\<lambda>(ret, left, err, e'). do { e' \<leftarrow> trace_end e' ret err; Some (Done (ret, left, err, e')) }))
     (stop_res n e call_evm)"
  by (rule stop_and_then, assumption, simp)
    (auto intro!: upon_intros elim: spent_kept dest!: helpers_kept(4))

lemma Call_stops: "upon (Call_with loop cr e clr a input g v) (stop_res n e call_evm)"
  unfolding Call_with_def
  by (intro upon_intros traced_stops called_stops)
    (auto dest!: helpers_kept intro!: kept_within split: if_splits, (simp add: kept_def)+)

lemma CallCode_stops: "upon (CallCode_with loop cr e clr a input g v) (stop_res n e call_evm)"
  unfolding CallCode_with_def
  by (intro upon_intros called_stops) (auto dest!: helpers_kept intro!: kept_within, (simp add: kept_def)+)

lemma DelegateCall_stops: "upon (DelegateCall_with loop cr e clr a input g) (stop_res n e call_evm)"
  unfolding DelegateCall_with_def
  by (intro upon_intros called_stops) (auto dest!: helpers_kept intro!: kept_within, (simp add: kept_def)+)

lemma StaticCall_stops: "upon (StaticCall_with loop cr e clr a input g) (stop_res n e call_evm)"
  unfolding StaticCall_with_def
  by (intro upon_intros called_stops) (auto dest!: helpers_kept intro!: kept_within, (simp add: kept_def)+)

lemma created_stops:
  "kept e0 e \<Longrightarrow> upon (and_then (run loop cr e c input ro) (finish_create cr i a)) (stop_res n e0 create_evm)"
  by (rule stop_and_then [OF run_stops], assumption, simp, erule finish_create_stops)

lemma create_with_stops: "kept e0 e \<Longrightarrow> upon (create_with loop cr e clr cah g v a) (stop_res n e0 create_evm)"
  unfolding create_with_def
  by (intro upon_intros created_stops) (auto dest!: helpers_kept intro!: kept_within, (simp add: kept_def)+)

lemma Create_stops: "upon (Create_with loop cr e clr code g v) (stop_res n e create_evm)"
  unfolding Create_with_def by (intro upon_intros create_with_stops) simp

lemma Create2_stops: "upon (Create2_with loop cr e clr code g v salt) (stop_res n e create_evm)"
  unfolding Create2_with_def by (intro upon_intros create_with_stops) simp

end

sublocale stoppable_loop \<subseteq> stoppable: stoppable_host "host_of cr loop" n
  by unfold_locales (simp_all add: host_of_def Call_stops CallCode_stops DelegateCall_stops StaticCall_stops Create_stops Create2_stops)

context stoppable_loop
begin

lemma host_of_stops: "stoppable_host (host_of cr loop) n"
  by (rule stoppable.stoppable_host_axioms)

end

text \<open>The loop of the model is cut off at fuel \<open>n\<close> only when \<open>n\<close> or more checks of the flag were left.\<close>

interpretation sl: stoppable_loop cr "run_loop cr n" n for cr n
proof (induction n)
  case 0
  show ?case by unfold_locales (simp add: upon_def late_def)
next
  case (Suc n)
  show ?case
  proof unfold_locales
    fix rs :: runState
    let ?e = "f_evm (rs_frame rs)"
    have more: "upon (run_loop cr n rs1) (stop_res (Suc n) ?e loop_evm)" if "ticked ?e (f_evm (rs_frame rs1))" for rs1
    proof (rule upon_mono [OF stoppable_loop.loop_stops [OF Suc]])
      fix x
      assume "stop_res n (f_evm (rs_frame rs1)) loop_evm x"
      with that show "stop_res (Suc n) ?e loop_evm x"
        by (cases x) (auto intro: ticked_trans ticked_late)
    qed
    from Run_step_stops [OF stoppable_loop.host_of_stops [OF Suc], of cr rs]
    show "upon (run_loop cr (Suc n) rs) (stop_res (Suc n) ?e loop_evm)"
      unfolding run_loop.simps
      by (intro upon_and_then, elim upon_mono)
        (auto split: outcome.splits loopStep.splits intro!: upon_intros more)
  qed
qed

lemma enough_checks: "upon m (stop_res n e g) \<Longrightarrow> abort e = Some k \<Longrightarrow> k < n \<Longrightarrow> m \<noteq> Some OutOfFuel"
  by (auto simp: upon_def late_def)

text \<open>
  A computation from \<open>e\<close> ends, with at most \<open>k\<close> instructions: it returns (or panics) and leaves a machine in which \<open>k'\<close> of the \<open>k\<close> checks
  are left, and when a tracer records the instructions, its trace has \<open>k - k'\<close> new entries, those of the nested
  frames among them.
\<close>

definition stops_after :: "nat \<Rightarrow> EVM \<Rightarrow> ('a \<Rightarrow> nat \<times> EVM) \<Rightarrow> 'a outcome option \<Rightarrow> bool" where
  "stops_after k e evm_of m \<longleftrightarrow> m \<noteq> Some OutOfFuel \<and> (\<forall>x. m = Some (Done x) \<longrightarrow>
     (\<exists>k' \<le> k. abort (snd (evm_of x)) = Some k' \<and> (traced e \<longrightarrow> recorded (snd (evm_of x)) + k' = recorded e + k)))"

lemma stops_afterI:
  assumes "upon m (stop_res n e evm_of)" "\<And>x. fst (evm_of x) = 0" "abort e = Some k" "k < n"
  shows "stops_after k e evm_of m"
  using enough_checks [OF assms(1,3,4)] assms(1-3) by (auto simp: stops_after_def upon_def spent_def)

lemma results_settled: "fst (call_evm x) = 0" "fst (create_evm y) = 0"
  by (simp_all add: call_evm_def create_evm_def split: prod.splits)

text \<open>
  (C14) Cancellation: once \<^verbatim>\<open>Cancel\<close> has been called by another goroutine, so that the loops will still pass \<open>k\<close> checks of the flag
  before they see it, every call and creation ends (it is never cut off by fuel beyond \<open>k\<close>) within \<open>k\<close> further
  instructions, those of nested calls included, however much gas is left: the checks that are left at its end and the
  entries that a structured tracer without a limit has recorded by then sum to what they were when the call began. A loop that is
  entered when the machine is cancelled ends at once, without output, without an error and without
  touching the frame.
\<close>

theorem cancelled_machine_stops:
  assumes "abort e = Some k" "k < n"
  shows "stops_after k e call_evm (Call cr n e clr a inp g v) \<and> stops_after k e call_evm (CallCode cr n e clr a inp g v) \<and>
    stops_after k e call_evm (DelegateCall cr n e clr a inp g) \<and> stops_after k e call_evm (StaticCall cr n e clr a inp g) \<and>
    stops_after k e create_evm (Create cr n e clr code g v) \<and> stops_after k e create_evm (Create2 cr n e clr code g v salt) \<and>
    (Cancelled (f_evm (rs_frame rs)) \<longrightarrow> run_loop cr (Suc m) rs = Some (Done ([], None, rs)))"
  unfolding method_defs
  by (intro conjI; (rule stops_afterI [OF _ _ assms])?)
    (auto intro: sl.Call_stops sl.CallCode_stops sl.DelegateCall_stops sl.StaticCall_stops sl.Create_stops sl.Create2_stops
      simp: results_settled Cancelled_def Run_step_def load_abort_def)

text \<open>A machine that is traced and will be cancelled after three more instructions, and init code that loops for ever.\<close>

definition cancelled_evm :: EVM where
  "cancelled_evm = sample_evm\<lparr>vmConfig := (vmConfig sample_evm)\<lparr>Debug := True\<rparr>, tracer := Some (NewStructLogger None), abort := Some 3\<rparr>"

theorem cancelled_machine_stops_witness:
  "traced cancelled_evm \<and>
   stops_after 3 cancelled_evm create_evm
     (Create sample_crypto 4 cancelled_evm (AccountRef zeroAddress) [0x5b, 0x60, 0, 0x56] 1000000 0)"
  using cancelled_machine_stops [of cancelled_evm 3 4]
  by (simp add: cancelled_evm_def traced_def NewStructLogger_def)

end
