(* ===== verification/Stack_Types.thy ===== *)
theory Stack_Types
  imports Flow_Safety
begin

text \<open>
  The operands on the stack are unbounded integers in the code. Every instruction keeps them within 256 bits, given an environment
  whose own values are.
\<close>

section \<open>The operands are 256-bit words\<close>

definition words :: "Stack \<Rightarrow> bool" where
  "words st \<longleftrightarrow> list_all word256 (data st)"

lemma words_newstack [simp]: "words newstack"
  by (simp add: words_def newstack_def)

lemma words_push [simp]: "words (push st v) \<longleftrightarrow> words st \<and> word256 v"
  by (auto simp: words_def push_def)

lemma words_ops:
  "pop st = Some (x, st') \<Longrightarrow> words st \<Longrightarrow> word256 x \<and> words st'"
  "peek st = Some x \<Longrightarrow> words st \<Longrightarrow> word256 x"
  "set_peek st v = Some st' \<Longrightarrow> words st \<Longrightarrow> word256 v \<Longrightarrow> words st'"
  "dup st k = Some st' \<Longrightarrow> words st \<Longrightarrow> words st'"
  "swap st k = Some st' \<Longrightarrow> words st \<Longrightarrow> words st'"
proof -
  show "pop st = Some (x, st') \<Longrightarrow> words st \<Longrightarrow> word256 x \<and> words st'" using pop_word256 by (simp add: words_def)
  show "peek st = Some x \<Longrightarrow> words st \<Longrightarrow> word256 x"
    by (auto simp: peek_def words_def list_all_iff Stack_len_def split: if_splits)
  show "set_peek st v = Some st' \<Longrightarrow> words st \<Longrightarrow> word256 v \<Longrightarrow> words st'"
    by (auto simp: set_peek_def words_def list_all_iff Stack_len_def dest!: set_update_subset_insert [THEN subsetD] split: if_splits)
  show "dup st k = Some st' \<Longrightarrow> words st \<Longrightarrow> words st'"
    by (auto simp: dup_def words_def push_def list_all_iff Stack_len_def split: if_splits)
  show "swap st k = Some st' \<Longrightarrow> words st \<Longrightarrow> words st'"
    by (auto simp: swap_def words_def list_all_iff Stack_len_def Let_def dest!: set_update_subset_insert [THEN subsetD] split: if_splits)
qed

lemma word256_small [simp]: "word256 0" "word256 1"
  by (simp_all add: word256_def)

lemma word256_uint64 [simp]: "word256 (uint (w :: u64))"
  using uint_lt2p [of w] by (simp add: word256_def)

lemma word256_uint8 [simp]: "word256 (uint (w :: byte))"
  unfolding word256_def by (intro conjI uint_ge_0 order.strict_trans [OF uint_lt2p]) simp

lemma word256_bits:
  assumes "word256 x" "word256 y"
  shows "word256 (x AND y)" "word256 (x OR y)" "word256 (x XOR y)"
proof -
  obtain v w :: "256 word" where "x = uint v" "y = uint w" using assms uint_of_word256 by metis
  then show "word256 (x AND y)" "word256 (x OR y)" "word256 (x XOR y)"
    by (simp_all add: unsigned_and_eq [symmetric] unsigned_or_eq [symmetric] unsigned_xor_eq [symmetric] del: unsigned_and_eq unsigned_or_eq unsigned_xor_eq)
qed

lemma word256_Exp [simp]: "word256 (fst (Exp b e))"
  unfolding Exp_def by (rule exp_words_word256) simp

lemma word256_length: "n < 2 ^ 63 \<Longrightarrow> word256 (int n)"
  by (simp add: word256_def)

lemma word256_data: "getDataBig d x 32 = Some r \<Longrightarrow> word256 x \<Longrightarrow> length d < 2 ^ 63 \<Longrightarrow> word256 (SetBytes r)"
  using getDataBig_window [of x 32 d] by (intro word256_SetBytes) (auto simp: word256_def)

lemma word256_mload: "Memory_Get m off 32 = Some r \<Longrightarrow> word256 (SetBytes r)"
  by (intro word256_SetBytes) (auto simp: Memory_Get_def split: if_splits Option.bind_splits)

section \<open>What an instruction finds around it\<close>

text \<open>
  The Go types fix the lengths of addresses and hashes. That balances, the gas price and the value of the call are 256-bit words is
  up to the client of the machine.
\<close>

definition env_typed :: "crypto \<Rightarrow> Frame \<Rightarrow> bool" where
  "env_typed cr f \<longleftrightarrow>
     (let e = f_evm f; c = f_contract f
      in evm_ok cr e \<and> word256 (GasPrice (ctx e)) \<and> (\<forall>v. val c = Some v \<longrightarrow> word256 v) \<and>
         length (Contract_Address c) = 20 \<and> length (CallerAddress c) = 20 \<and>
         length (Origin (ctx e)) = 20 \<and> length (Coinbase (ctx e)) = 20 \<and>
         (\<forall>g n. GetHash (ctx e) = Some g \<longrightarrow> length (g n) = 32) \<and>
         (\<forall>a v. acct cr (sdb e) a = Some v \<longrightarrow> word256 (av_balance v) \<and> (\<forall>k. length (av_storage v k) = 32)) \<and>
         length (Input c) < 2 ^ 63 \<and> length (Code c) < 2 ^ 63 \<and> Memory_Len (f_memory f) < 2 ^ 63)"

definition host_typed :: "crypto \<Rightarrow> host \<Rightarrow> bool" where
  "host_typed cr h \<longleftrightarrow> h_crypto h = cr \<and> (\<forall>e clr code g v salt.
     upon (h_Create h e clr code g v) (\<lambda>r. case r of OutOfFuel \<Rightarrow> True | Done (ret, a, left, err, e') \<Rightarrow> length a = 20) \<and>
     upon (h_Create2 h e clr code g v salt) (\<lambda>r. case r of OutOfFuel \<Rightarrow> True | Done (ret, a, left, err, e') \<Rightarrow> length a = 20))"

definition typed :: "crypto \<Rightarrow> executionFunc \<Rightarrow> bool" where
  "typed cr ex \<longleftrightarrow> (\<forall>h f. host_typed cr h \<longrightarrow> env_typed cr f \<longrightarrow> words (f_stack f) \<longrightarrow>
     upon (ex h f) (\<lambda>r. case r of OutOfFuel \<Rightarrow> True | Done (res, err, f') \<Rightarrow> words (f_stack f')))"

lemma typedI:
  assumes "\<And>h f. h_crypto h = cr \<Longrightarrow> host_typed cr h \<Longrightarrow> env_typed cr f \<Longrightarrow> words (f_stack f) \<Longrightarrow>
     upon (ex h f) (\<lambda>r. case r of OutOfFuel \<Rightarrow> True | Done (res, err, f') \<Rightarrow> words (f_stack f'))"
  shows "typed cr ex"
  using assms by (simp add: typed_def host_typed_def)

lemma typed_arith:
  "typed cr opAdd" "typed cr opSub" "typed cr opMul" "typed cr opDiv" "typed cr opSdiv" "typed cr opMod"
  "typed cr opSmod" "typed cr opExp" "typed cr opSignExtend" "typed cr opNot" "typed cr opLt" "typed cr opGt"
  "typed cr opSlt" "typed cr opSgt" "typed cr opEq" "typed cr opIszero" "typed cr opAnd" "typed cr opOr"
  "typed cr opXor" "typed cr opByte" "typed cr opAddmod" "typed cr opMulmod" "typed cr opSHL"
  "typed cr opSHR" "typed cr opSAR"
  unfolding opAdd_def opSub_def opMul_def opDiv_def opSdiv_def opMod_def opSmod_def opExp_def
      opSignExtend_def opNot_def opLt_def opGt_def opSlt_def opSgt_def opEq_def opIszero_def opAnd_def opOr_def
      opXor_def opByte_def opAddmod_def opMulmod_def opSHL_def opSHR_def opSAR_def
  by (rule typedI, intro upon_intros; auto dest!: words_ops(1) dest: words_ops(2) intro: words_ops(3) word256_bits)+

lemma env_typedD:
  assumes "env_typed cr f"
  shows "evm_ok cr (f_evm f)" "word256 (GasPrice (ctx (f_evm f)))" "val (f_contract f) = Some v \<Longrightarrow> word256 v"
    "length (Contract_Address (f_contract f)) \<le> 32" "length (CallerAddress (f_contract f)) \<le> 32"
    "length (Origin (ctx (f_evm f))) \<le> 32" "length (Coinbase (ctx (f_evm f))) \<le> 32"
    "GetHash (ctx (f_evm f)) = Some g \<Longrightarrow> length (g n) = 32"
    "length (Input (f_contract f)) < 2 ^ 63" "length (Code (f_contract f)) < 2 ^ 63" "Memory_Len (f_memory f) < 2 ^ 63"
  using assms by (auto simp: env_typed_def Let_def)

lemma typed_reads:
  assumes "env_typed cr f"
  shows "GetBalance cr (sdb (f_evm f)) a = (b, s) \<Longrightarrow> word256 b"
    "GetState cr (sdb (f_evm f)) a k = (v, s) \<Longrightarrow> length v \<le> 32"
    "GetCodeHash cr s1 a = (x, s) \<Longrightarrow> length x \<le> 32"
proof -
  have wf: "state_wf (sdb (f_evm f))" and v: "acct cr (sdb (f_evm f)) a = Some w \<Longrightarrow>
      word256 (av_balance w) \<and> (\<forall>k. length (av_storage w k) = 32)" for a w
    using assms by (auto simp: env_typed_def Let_def)
  show "word256 b" if "GetBalance cr (sdb (f_evm f)) a = (b, s)"
    using GetBalance_read [OF wf that] v by (auto split: option.splits)
  show "length v \<le> 32" if "GetState cr (sdb (f_evm f)) a k = (v, s)"
    using GetState_read [OF wf that] v by (auto split: option.splits)
  show "length x \<le> 32" if "GetCodeHash cr s1 a = (x, s)"
    using that by (auto simp: GetCodeHash_def split: prod.splits option.splits)
qed

lemma typed_env:
  "typed cr opSha3" "typed cr opAddress" "typed cr opBalance" "typed cr opOrigin" "typed cr opCaller"
  "typed cr opCallValue" "typed cr opCallDataLoad" "typed cr opCallDataSize" "typed cr opCallDataCopy"
  "typed cr opReturnDataSize" "typed cr opReturnDataCopy" "typed cr opExtCodeSize" "typed cr opCodeSize"
  "typed cr opCodeCopy" "typed cr opExtCodeCopy" "typed cr opExtCodeHash" "typed cr opGasprice"
  "typed cr opBlockhash" "typed cr opCoinbase" "typed cr opTimestamp" "typed cr opNumber"
  "typed cr opDifficulty" "typed cr opGasLimit"
  unfolding opSha3_def opAddress_def opBalance_def opOrigin_def opCaller_def opCallValue_def
      opCallDataLoad_def opCallDataSize_def opCallDataCopy_def opReturnDataSize_def opReturnDataCopy_def
      opExtCodeSize_def opCodeSize_def opCodeCopy_def opExtCodeCopy_def opExtCodeHash_def opGasprice_def
      opBlockhash_def opCoinbase_def opTimestamp_def opNumber_def opDifficulty_def opGasLimit_def
  by (rule typedI, intro upon_intros; auto dest!: words_ops(1) dest: words_ops(2) typed_reads word256_data env_typedD
      simp: env_typedD word256_length Contract_Caller_def word256_Hash_Big
      intro: words_ops(3) word256_SetBytes)+

lemma pop_topics_words: "pop_topics k st = Some (ts, st') \<Longrightarrow> words st \<Longrightarrow> words st'"
  by (induction k arbitrary: st ts) (auto dest!: words_ops(1) split: Option.bind_splits)

lemma word256_push:
  assumes "go_slice code i j = Some d" "int j - int i \<le> m" "m \<le> 32"
  shows "word256 (SetBytes (RightPadBytes d m))"
  using assms by (intro word256_SetBytes) (auto simp: RightPadBytes_eq go_slice_Some_iff)

lemma typed_push: "m \<le> 32 \<Longrightarrow> typed cr (makePush k m)"
  unfolding makePush_def
  by (rule typedI, intro upon_intros) (auto intro!: word256_push split: if_splits)

lemma typed_rest:
  "typed cr opPop" "typed cr opMload" "typed cr opMstore" "typed cr opMstore8" "typed cr opSload"
  "typed cr opSstore" "typed cr opJump" "typed cr opJumpi" "typed cr opJumpdest" "typed cr opPc"
  "typed cr opMsize" "typed cr opGas" "typed cr opReturn" "typed cr opRevert" "typed cr opStop"
  "typed cr opSuicide" "typed cr (makeLog k)" "typed cr opPush1" "typed cr (makeDup d)" "typed cr (makeSwap d)"
  unfolding opPop_def opMload_def opMstore_def opMstore8_def opSload_def opSstore_def opJump_def opJumpi_def
      opJumpdest_def opPc_def opMsize_def opGas_def opReturn_def opRevert_def opStop_def opSuicide_def
      makeLog_def opPush1_def makeDup_def makeSwap_def
  by (rule typedI, intro upon_intros; auto dest!: words_ops(1) dest: words_ops(2,4,5) typed_reads word256_mload pop_topics_words env_typedD
      simp: env_typedD word256_length intro: words_ops(3) word256_SetBytes)+

lemma finish_call_words: "words st \<Longrightarrow> upon (finish_call f st ro rs x) (\<lambda>r. case r of OutOfFuel \<Rightarrow> True
    | Done (res, err, f') \<Rightarrow> words (f_stack f'))"
  unfolding finish_call_def by (intro upon_intros) auto

lemma typed_calls: "typed cr opCall" "typed cr opCallCode" "typed cr opDelegateCall" "typed cr opStaticCall"
  unfolding opCall_def opCallCode_def opDelegateCall_def opStaticCall_def
  by (rule typedI, intro upon_intros upon_any_and_then finish_call_words; auto dest!: words_ops(1))+

lemma created_words:
  assumes "upon m (\<lambda>r. case r of OutOfFuel \<Rightarrow> True | Done (ret, a, left, err, e') \<Rightarrow> length a = 20)"
    "\<And>ret a left err e'. length a = 20 \<Longrightarrow> upon (k (ret, a, left, err, e')) Q" "Q OutOfFuel"
  shows "upon (and_then m k) Q"
  by (rule upon_and_then, rule upon_mono [OF assms(1)]) (auto intro: assms(2,3) split: outcome.splits)

lemma host_typedD:
  assumes "host_typed cr h"
  shows "upon (h_Create h e clr code g v) (\<lambda>r. case r of OutOfFuel \<Rightarrow> True | Done (ret, a, left, err, e') \<Rightarrow> length a = 20)"
    "upon (h_Create2 h e clr code g v salt) (\<lambda>r. case r of OutOfFuel \<Rightarrow> True | Done (ret, a, left, err, e') \<Rightarrow> length a = 20)"
  using assms by (auto simp: host_typed_def)

lemma typed_creates: "typed cr opCreate" "typed cr opCreate2"
  unfolding opCreate_def opCreate2_def
  by (rule typedI, intro upon_intros created_words; (erule host_typedD)?;
      auto dest!: words_ops(1) simp: Let_def ret_nil_def upon_def intro: word256_SetBytes)+

lemma create_with_typed:
  "length a = 20 \<Longrightarrow> upon (create_with loop cr e clr cah g v a) (\<lambda>r. case r of OutOfFuel \<Rightarrow> True
    | Done (ret, a, left, err, e') \<Rightarrow> length a = 20)"
  unfolding create_with_def finish_create_def
  by (intro upon_intros upon_any_and_then; simp?)

lemma host_of_typed: "crypto_ok cr \<Longrightarrow> host_typed cr (host_of cr loop)"
  unfolding host_typed_def host_of_def Create_with_def Create2_with_def
  by (auto intro!: upon_intros create_with_typed simp: CreateAddress_def CreateAddress2_def split: Option.bind_splits if_splits)

definition typed_op :: "crypto \<Rightarrow> operation \<Rightarrow> bool" where
  "typed_op cr p \<longleftrightarrow> (valid p \<longrightarrow> typed cr (execute p))"

lemma table_typed: "typed_op cr (JumpTable s op)"
  by (rule JumpTable_all)
    (simp add: all_operations_simps zero_op_simps typed_op_def typed_arith typed_env typed_push typed_rest typed_calls typed_creates)

text \<open>
  (C13) Types: every instruction of every jump table leaves 256-bit words on the stack when it finds 256-bit words there. Around it the
  addresses and hashes have the lengths of their Go types, lengths fit in 63 bits, and the balances, the gas price and the value of the call are words;
  the code does not reduce these three when it pushes them.
\<close>

theorem instructions_keep_words:
  assumes "env_typed cr f" "words (f_stack f)" "valid (JumpTable s op)"
    "execute (JumpTable s op) (host_of cr loop) f = Some (Done (res, err, f'))"
  shows "words (f_stack f')"
proof -
  have "crypto_ok cr" using env_typedD(1) [OF assms(1)] by blast
  with table_typed [of cr s op] assms(1-3) have "upon (execute (JumpTable s op) (host_of cr loop) f)
      (\<lambda>r. case r of OutOfFuel \<Rightarrow> True | Done (res, err, f') \<Rightarrow> words (f_stack f'))"
    by (simp add: typed_op_def typed_def host_of_typed)
  from uponD [OF this assms(4)] show ?thesis by simp
qed

lemma sample_env_typed: "env_typed sample_crypto (rs_frame (sample_run code))" if "length code < 100"
proof -
  have "acct sample_crypto sample_state a = None" for a
    by (simp add: acct_def peek_obj_def getStateObject_def sample_state_def StateDB_New_def)
  with sample_evm_ok that show ?thesis
    by (simp add: env_typed_def sample_run_def sample_evm_simps sample_context_def SetCallCode_def NewContract_def
        Contract_Address_def ContractRef_Address_def zeroAddress_def zeroHash_def Memory_Len_def NewMemory_def AddressLength_def HashLength_def)
qed

theorem instructions_keep_words_witness:
  "\<exists>res err f'. execute (JumpTable ConstantinopleSet PUSH1) (host_of sample_crypto (run_loop sample_crypto 0)) (rs_frame (sample_run [PUSH1, 5])) =
     Some (Done (res, err, f')) \<and> words (f_stack f')"
proof -
  have "valid (JumpTable ConstantinopleSet PUSH1)" by (simp add: PUSH1_entry zero_op_simps)
  moreover obtain f' where
    "execute (JumpTable ConstantinopleSet PUSH1) (host_of sample_crypto (run_loop sample_crypto 0)) (rs_frame (sample_run [PUSH1, 5])) =
       Some (Done ([], None, f'))" by (simp add: PUSH1_entry zero_op_simps opPush1_def ret_nil_def Let_def)
  moreover have "words (f_stack (rs_frame (sample_run [PUSH1, 5])))" by (simp add: sample_run_def)
  ultimately show ?thesis using instructions_keep_words [OF sample_env_typed [of "[PUSH1, 5]"]] by fastforce
qed

end
