(* ===== verification/Trie.thy ===== *)
theory Trie
  imports Crypto
begin

text \<open>
  \<^verbatim>\<open>Out/trie\<close>: the Merkle Patricia trie in memory. Keys are lists of nibbles that end with the terminator 16; a nil
  interface is \<open>nilNode\<close>. The database that hash nodes are loaded from is a parameter: \<open>db h\<close> is the
  node stored under the hash \<open>h\<close>, if any. The operations follow hash nodes through the database, so their recursion is not
  structural; they take fuel, and \<open>OutOfFuel\<close> marks a run that was cut off. \<open>None\<close> is a panic.
\<close>

section \<open>Encodings of keys\<close>

text \<open>\<^verbatim>\<open>hasTerm\<close>: whether a hex key has the terminator.\<close>

definition hasTerm :: "bytes \<Rightarrow> bool" where
  "hasTerm s \<longleftrightarrow> length s > 0 \<and> s ! (length s - 1) = 16"

definition keybytesToHex :: "bytes \<Rightarrow> bytes" where
  "keybytesToHex key = concat (map (\<lambda>b. [b div 16, b mod 16]) key) @ [16]"

text \<open>Writes the bytes that the nibbles make from position \<open>bi\<close> on; an odd nibble or a short buffer panics.\<close>

fun decodeNibbles :: "bytes \<Rightarrow> bytes \<Rightarrow> nat \<Rightarrow> bytes option" where
  "decodeNibbles [] buf bi = Some buf"
| "decodeNibbles [x] buf bi = None"
| "decodeNibbles (x # y # nibbles) buf bi =
     (if bi < length buf then decodeNibbles nibbles (buf[bi := push_bit 4 x OR y]) (bi + 1) else None)"

definition hexToCompact :: "bytes \<Rightarrow> bytes option" where
  "hexToCompact hex =
     (let (terminator, hex) = (if hasTerm hex then (1, take (length hex - 1) hex) else (0, hex));
          buf = (replicate (length hex div 2 + 1) 0)[0 := push_bit 5 terminator];
          (buf, hex) = (if odd (length hex) then (buf[0 := buf ! 0 OR push_bit 4 1 OR hex ! 0], drop 1 hex) else (buf, hex))
      in decodeNibbles hex buf 1)"

definition compactToHex :: "bytes \<Rightarrow> bytes option" where
  "compactToHex compact =
     (if length compact = 0 then Some compact
      else let base = keybytesToHex compact;
               base = (if base ! 0 < 2 then take (length base - 1) base else base);
               chop = 2 - (base ! 0 AND 1)
           in go_slice base (unat chop) (length base))"

definition hexToKeybytes :: "bytes \<Rightarrow> bytes option" where
  "hexToKeybytes hex =
     (let hex = (if hasTerm hex then take (length hex - 1) hex else hex)
      in if odd (length hex) then None else decodeNibbles hex (replicate (length hex div 2) 0) 0)"

fun prefixLen :: "bytes \<Rightarrow> bytes \<Rightarrow> nat" where
  "prefixLen (x # a) (y # b) = (if x \<noteq> y then 0 else Suc (prefixLen a b))"
| "prefixLen _ _ = 0"

section \<open>Nodes\<close>

record nodeFlag =
  fl_hash :: "bytes option"
  fl_dirty :: bool

datatype node =
    nilNode
  | fullNode (Children: "node list") nodeFlag
  | shortNode (Key: bytes) (Val: node) nodeFlag
  | hashNode bytes
  | valueNode bytes

definition newFlag :: nodeFlag where
  "newFlag = \<lparr>fl_hash = None, fl_dirty = True\<rparr>"

record MissingNodeError =
  NodeHash :: Hash
  Path :: bytes

type_synonym nodeDb = "Hash \<Rightarrow> node option"

definition resolveHash :: "nodeDb \<Rightarrow> bytes \<Rightarrow> bytes \<Rightarrow> MissingNodeError + node" where
  "resolveHash db n prefix =
     (let hash = BytesToHash n
      in case db hash of Some nd \<Rightarrow> Inr nd | None \<Rightarrow> Inl \<lparr>NodeHash = hash, Path = prefix\<rparr>)"

definition resolve :: "nodeDb \<Rightarrow> node \<Rightarrow> bytes \<Rightarrow> MissingNodeError + node" where
  "resolve db n prefix = (case n of hashNode h \<Rightarrow> resolveHash db h prefix | _ \<Rightarrow> Inr n)"

text \<open>Assignment to an element of the array of children.\<close>

definition set_child :: "node list \<Rightarrow> byte \<Rightarrow> node \<Rightarrow> node list option" where
  "set_child cs i c = (if unat i < length cs then Some (cs[unat i := c]) else None)"

section \<open>Reading\<close>

fun tryGet ::
  "nat \<Rightarrow> nodeDb \<Rightarrow> node \<Rightarrow> bytes \<Rightarrow> nat \<Rightarrow> (bytes option \<times> node \<times> bool \<times> MissingNodeError option) outcome option"
where
  "tryGet 0 db origNode key pos = Some OutOfFuel"
| "tryGet (Suc fuel) db origNode key pos =
     (case origNode of
        nilNode \<Rightarrow> Some (Done (None, nilNode, False, None))
      | valueNode v \<Rightarrow> Some (Done (Some v, origNode, False, None))
      | shortNode nKey nVal flags \<Rightarrow>
          if int (length key) - int pos < int (length nKey) \<or> nKey \<noteq> take (length nKey) (drop pos key)
          then Some (Done (None, origNode, False, None))
          else and_then (tryGet fuel db nVal key (pos + length nKey)) (\<lambda>(val, newnode, didResolve, err).
            Some (Done (val, if err = None \<and> didResolve then shortNode nKey newnode flags else origNode, didResolve, err)))
      | fullNode children flags \<Rightarrow> do {
          i \<leftarrow> go_index key pos;
          c \<leftarrow> go_index children (unat i);
          and_then (tryGet fuel db c key (pos + 1)) (\<lambda>(val, newnode, didResolve, err).
            Some (Done (val, if err = None \<and> didResolve then fullNode (children[unat i := newnode]) flags else origNode,
              didResolve, err)))
        }
      | hashNode n \<Rightarrow>
          (case resolveHash db n (take pos key) of
             Inl err \<Rightarrow> Some (Done (None, origNode, True, Some err))
           | Inr child \<Rightarrow> and_then (tryGet fuel db child key pos) (\<lambda>(val, newnode, _, err).
               Some (Done (val, newnode, True, err)))))"

section \<open>Inserting\<close>

fun insert_node ::
  "nat \<Rightarrow> nodeDb \<Rightarrow> node \<Rightarrow> bytes \<Rightarrow> bytes \<Rightarrow> node \<Rightarrow> (bool \<times> node \<times> MissingNodeError option) outcome option"
where
  "insert_node 0 db n prefix key val = Some OutOfFuel"
| "insert_node (Suc fuel) db n prefix key val =
     (if length key = 0
      then (case n of
              valueNode v \<Rightarrow> (case val of valueNode w \<Rightarrow> Some (Done (v \<noteq> w, val, None)) | _ \<Rightarrow> None)
            | _ \<Rightarrow> Some (Done (True, val, None)))
      else case n of
        shortNode nKey nVal flags \<Rightarrow>
          (let matchlen = prefixLen key nKey
           in if matchlen = length nKey
              then and_then (insert_node fuel db nVal (prefix @ take matchlen key) (drop matchlen key) val) (\<lambda>(dirty, nn, err).
                if \<not> dirty \<or> err \<noteq> None then Some (Done (False, n, err))
                else Some (Done (True, shortNode nKey nn newFlag, None)))
              else do {
                i \<leftarrow> go_index nKey matchlen;
                and_then (insert_node fuel db nilNode (prefix @ take (matchlen + 1) nKey) (drop (matchlen + 1) nKey) nVal)
                  (\<lambda>(_, c, err). do {
                     children \<leftarrow> set_child (replicate 17 nilNode) i c;
                     if err \<noteq> None then Some (Done (False, nilNode, err))
                     else do {
                       j \<leftarrow> go_index key matchlen;
                       and_then (insert_node fuel db nilNode (prefix @ take (matchlen + 1) key) (drop (matchlen + 1) key) val)
                         (\<lambda>(_, c, err). do {
                            children \<leftarrow> set_child children j c;
                            let branch = fullNode children newFlag;
                            if err \<noteq> None then Some (Done (False, nilNode, err))
                            else if matchlen = 0 then Some (Done (True, branch, None))
                            else Some (Done (True, shortNode (take matchlen key) branch newFlag, None))
                          })
                     }
                   })
              })
      | fullNode children flags \<Rightarrow> do {
          c \<leftarrow> go_index children (unat (key ! 0));
          and_then (insert_node fuel db c (prefix @ [key ! 0]) (drop 1 key) val) (\<lambda>(dirty, nn, err).
            if \<not> dirty \<or> err \<noteq> None then Some (Done (False, n, err))
            else Some (Done (True, fullNode (children[unat (key ! 0) := nn]) newFlag, None)))
        }
      | nilNode \<Rightarrow> Some (Done (True, shortNode key val newFlag, None))
      | hashNode h \<Rightarrow>
          (case resolveHash db h prefix of
             Inl err \<Rightarrow> Some (Done (False, nilNode, Some err))
           | Inr rn \<Rightarrow> and_then (insert_node fuel db rn prefix key val) (\<lambda>(dirty, nn, err).
               if \<not> dirty \<or> err \<noteq> None then Some (Done (False, rn, err)) else Some (Done (True, nn, None))))
      | valueNode _ \<Rightarrow> None)"

section \<open>Deleting\<close>

text \<open>The loop over the children: the index of the only one that is left, -1 for none and -2 for several.\<close>

fun only_child :: "node list \<Rightarrow> nat \<Rightarrow> int \<Rightarrow> int" where
  "only_child [] i pos = pos"
| "only_child (cld # children) i pos =
     (if cld \<noteq> nilNode
      then if pos = - 1 then only_child children (i + 1) (int i) else - 2
      else only_child children (i + 1) pos)"

text \<open>The full node after one of its children has lost a key: with one child left it becomes a short node.\<close>

definition reduce_full ::
  "nodeDb \<Rightarrow> node list \<Rightarrow> bytes \<Rightarrow> (bool \<times> node \<times> MissingNodeError option) outcome option" where
  "reduce_full db children prefix =
     (let pos = only_child children 0 (- 1)
      in if pos \<ge> 0
         then (let c = children ! nat pos;
                   short = Some (Done (True, shortNode [word_of_int pos] c newFlag, None))
               in if pos \<noteq> 16
                  then (case resolve db c prefix of
                          Inl err \<Rightarrow> Some (Done (False, nilNode, Some err))
                        | Inr cnode \<Rightarrow>
                            (case cnode of
                               shortNode cKey cVal _ \<Rightarrow> Some (Done (True, shortNode (word_of_int pos # cKey) cVal newFlag, None))
                             | _ \<Rightarrow> short))
                  else short)
         else Some (Done (True, fullNode children newFlag, None)))"

fun delete_node ::
  "nat \<Rightarrow> nodeDb \<Rightarrow> node \<Rightarrow> bytes \<Rightarrow> bytes \<Rightarrow> (bool \<times> node \<times> MissingNodeError option) outcome option"
where
  "delete_node 0 db n prefix key = Some OutOfFuel"
| "delete_node (Suc fuel) db n prefix key =
     (case n of
        shortNode nKey nVal flags \<Rightarrow>
          (let matchlen = prefixLen key nKey
           in if matchlen < length nKey then Some (Done (False, n, None))
              else if matchlen = length key then Some (Done (True, nilNode, None))
              else and_then (delete_node fuel db nVal (prefix @ take (length nKey) key) (drop (length nKey) key)) (\<lambda>(dirty, child, err).
                if \<not> dirty \<or> err \<noteq> None then Some (Done (False, n, err))
                else (case child of
                        shortNode cKey cVal _ \<Rightarrow> Some (Done (True, shortNode (nKey @ cKey) cVal newFlag, None))
                      | _ \<Rightarrow> Some (Done (True, shortNode nKey child newFlag, None)))))
      | fullNode children flags \<Rightarrow> do {
          k \<leftarrow> go_index key 0;
          c \<leftarrow> go_index children (unat k);
          and_then (delete_node fuel db c (prefix @ [k]) (drop 1 key)) (\<lambda>(dirty, nn, err).
            if \<not> dirty \<or> err \<noteq> None then Some (Done (False, n, err))
            else reduce_full db (children[unat k := nn]) prefix)
        }
      | valueNode _ \<Rightarrow> Some (Done (True, nilNode, None))
      | nilNode \<Rightarrow> Some (Done (False, nilNode, None))
      | hashNode h \<Rightarrow>
          (case resolveHash db h prefix of
             Inl err \<Rightarrow> Some (Done (False, nilNode, Some err))
           | Inr rn \<Rightarrow> and_then (delete_node fuel db rn prefix key) (\<lambda>(dirty, nn, err).
               if \<not> dirty \<or> err \<noteq> None then Some (Done (False, rn, err)) else Some (Done (True, nn, None)))))"

section \<open>The operations of a trie\<close>

text \<open>The state of a trie is its root; the operations return the root they leave.\<close>

definition emptyRoot :: Hash where
  "emptyRoot = HexToHash ''56e81f171bcc55a6ff8345e692c0f86e5b48e01b996cadc001622fb5e363b421''"

definition Trie_New :: "nodeDb \<Rightarrow> Hash \<Rightarrow> MissingNodeError + node" where
  "Trie_New db root =
     (if root \<noteq> zeroHash \<and> root \<noteq> emptyRoot then resolveHash db root [] else Inr nilNode)"

definition TryGet ::
  "nat \<Rightarrow> nodeDb \<Rightarrow> node \<Rightarrow> bytes \<Rightarrow> (bytes option \<times> MissingNodeError option \<times> node) outcome option" where
  "TryGet fuel db root key =
     and_then (tryGet fuel db root (keybytesToHex key) 0) (\<lambda>(val, newroot, didResolve, err).
       Some (Done (val, err, if err = None \<and> didResolve then newroot else root)))"

definition TryDelete :: "nat \<Rightarrow> nodeDb \<Rightarrow> node \<Rightarrow> bytes \<Rightarrow> (MissingNodeError option \<times> node) outcome option" where
  "TryDelete fuel db root key =
     and_then (delete_node fuel db root [] (keybytesToHex key)) (\<lambda>(_, n, err).
       Some (Done (err, if err \<noteq> None then root else n)))"

definition TryUpdate :: "nat \<Rightarrow> nodeDb \<Rightarrow> node \<Rightarrow> bytes \<Rightarrow> bytes \<Rightarrow> (MissingNodeError option \<times> node) outcome option" where
  "TryUpdate fuel db root key val =
     (let k = keybytesToHex key
      in if length val \<noteq> 0
         then and_then (insert_node fuel db root [] k (valueNode val)) (\<lambda>(_, n, err).
           Some (Done (err, if err \<noteq> None then root else n)))
         else and_then (delete_node fuel db root [] k) (\<lambda>(_, n, err).
           Some (Done (err, if err \<noteq> None then root else n))))"

end
