(* ===== verification/Trie_Props.thy ===== *)
theory Trie_Props
  imports Trie
begin

text \<open>
  What the trie of \<^verbatim>\<open>Out/trie\<close> does. \<open>holds db n k v\<close> is the content of a node, through the database; \<open>wf_node\<close> is the
  invariant (branches with at least two children, no short node below a short node, every hash in the database). Reading, inserting and
  deleting are shown to keep it and to act on the content as on a map; the interface \<open>keyed_store\<close> is interpreted on
  the trie. The invariant makes the shape of a trie a function of its content.
\<close>

section \<open>What a trie holds\<close>

inductive holds :: "nodeDb \<Rightarrow> node \<Rightarrow> bytes \<Rightarrow> bytes \<Rightarrow> bool" for db where
  holds_value: "holds db (valueNode v) [] v"
| holds_short: "holds db c k v \<Longrightarrow> holds db (shortNode nk c fl) (nk @ k) v"
| holds_full: "unat i < length cs \<Longrightarrow> holds db (cs ! unat i) k v \<Longrightarrow> holds db (fullNode cs fl) (i # k) v"
| holds_hash: "db (BytesToHash h) = Some n \<Longrightarrow> holds db n k v \<Longrightarrow> holds db (hashNode h) k v"

inductive_simps holds_simps [simp]:
  "holds db nilNode k v" "holds db (valueNode w) k v" "holds db (shortNode nk c fl) k v" "holds db (fullNode cs fl) k v"
  "holds db (hashNode h) k v"

definition nibbles :: "bytes \<Rightarrow> bool" where
  "nibbles ns \<longleftrightarrow> list_all (\<lambda>x. x < 16) ns"

definition hexkey :: "bytes \<Rightarrow> bool" where
  "hexkey k \<longleftrightarrow> k \<noteq> [] \<and> nibbles (butlast k) \<and> last k = 16"

fun is_short :: "node \<Rightarrow> bool" where
  "is_short (shortNode _ _ _) = True"
| "is_short _ = False"

fun is_value :: "node \<Rightarrow> bool" where
  "is_value (valueNode _) = True"
| "is_value _ = False"

definition is_full :: "node \<Rightarrow> bool" where
  "is_full n \<longleftrightarrow> (\<exists>cs fl. n = fullNode cs fl)"

text \<open>A branch, possibly behind its hash.\<close>

definition branches :: "nodeDb \<Rightarrow> node \<Rightarrow> bool" where
  "branches db n \<longleftrightarrow> is_full n \<or> (\<exists>h m. n = hashNode h \<and> db (BytesToHash h) = Some m \<and> is_full m)"

inductive wf_node :: "nodeDb \<Rightarrow> node \<Rightarrow> bool" for db where
  wf_leaf: "hexkey nk \<Longrightarrow> wf_node db (shortNode nk (valueNode v) fl)"
| wf_ext: "nk \<noteq> [] \<Longrightarrow> nibbles nk \<Longrightarrow> branches db c \<Longrightarrow> wf_node db c \<Longrightarrow> wf_node db (shortNode nk c fl)"
| wf_full: "length cs = 17 \<Longrightarrow>
    (\<And>i. i < 17 \<Longrightarrow> cs ! i = nilNode \<or> i = 16 \<and> is_value (cs ! i) \<or> i \<noteq> 16 \<and> wf_node db (cs ! i)) \<Longrightarrow>
    i < 17 \<Longrightarrow> j < 17 \<Longrightarrow> i \<noteq> j \<Longrightarrow> cs ! i \<noteq> nilNode \<Longrightarrow> cs ! j \<noteq> nilNode \<Longrightarrow> wf_node db (fullNode cs fl)"
| wf_hash: "db (BytesToHash h) = Some n \<Longrightarrow> is_short n \<or> is_full n \<Longrightarrow> wf_node db n \<Longrightarrow> wf_node db (hashNode h)"

inductive_simps wf_node_simps:
  "wf_node db nilNode" "wf_node db (valueNode w)" "wf_node db (shortNode nk c fl)" "wf_node db (fullNode cs fl)"
  "wf_node db (hashNode h)"

text \<open>What may stand where the key \<open>k\<close> is still to be followed.\<close>

definition wf_at :: "nodeDb \<Rightarrow> node \<Rightarrow> bytes \<Rightarrow> bool" where
  "wf_at db n k \<longleftrightarrow> n = nilNode \<or> (if k = [] then is_value n else wf_node db n)"

section \<open>Keys\<close>

lemma hexkey_Nil [simp]: "\<not> hexkey []"
  by (simp add: hexkey_def)

lemma hexkey_Cons: "hexkey (x # k) \<longleftrightarrow> (if k = [] then x = 16 else x < 16 \<and> hexkey k)"
  by (auto simp: hexkey_def nibbles_def)

lemma hexkey_append: "nibbles ns \<Longrightarrow> hexkey k \<Longrightarrow> hexkey (ns @ k)"
  by (induction ns) (auto simp: hexkey_Cons nibbles_def)

lemma hexkey_appendD: "hexkey (xs @ k) \<Longrightarrow> k \<noteq> [] \<Longrightarrow> hexkey k \<and> nibbles xs"
  by (induction xs) (auto simp: hexkey_Cons nibbles_def split: if_splits)

lemma hexkey_not_nibbles: "hexkey k \<Longrightarrow> \<not> nibbles (k @ xs)"
  by (induction k) (auto simp: hexkey_Cons nibbles_def split: if_splits)

text \<open>No key is a proper prefix of another.\<close>

lemma hexkey_prefix: "hexkey k \<Longrightarrow> hexkey (k @ xs) \<Longrightarrow> xs = []"
  by (induction k) (auto simp: hexkey_Cons split: if_splits)

lemma prefixLen_spec:
  "prefixLen a b \<le> length a" "prefixLen a b \<le> length b" "take (prefixLen a b) a = take (prefixLen a b) b"
  "prefixLen a b < length a \<Longrightarrow> prefixLen a b < length b \<Longrightarrow> a ! prefixLen a b \<noteq> b ! prefixLen a b"
  by (induction a b rule: prefixLen.induct) auto

lemma prefixLen_split:
  obtains p a' b' where "a = p @ a'" "b = p @ b'" "prefixLen a b = length p" "a' = [] \<or> b' = [] \<or> hd a' \<noteq> hd b'"
proof (rule that)
  let ?m = "prefixLen a b"
  show "a = take ?m a @ drop ?m a" by simp
  show "b = take ?m a @ drop ?m b" using prefixLen_spec(3) [of a b] by simp
  show "?m = length (take ?m a)" using prefixLen_spec(1) [of a b] by simp
  show "drop ?m a = [] \<or> drop ?m b = [] \<or> hd (drop ?m a) \<noteq> hd (drop ?m b)"
    using prefixLen_spec(4) [of a b] by (auto simp: hd_drop_conv_nth not_le)
qed

lemma hexkey_keybytesToHex: "hexkey (keybytesToHex k)"
proof -
  have "unat (b div 16) < 16 \<and> unat (b mod 16) < 16" for b :: byte
    using unsigned_less [of b, where ?'a = nat] by (simp add: unat_div unat_mod less_mult_imp_div_less)
  then have "b div 16 < 16 \<and> b mod 16 < 16" for b :: byte by (simp add: word_less_nat_alt)
  then have "nibbles (concat (map (\<lambda>b. [b div 16, b mod 16]) k))" by (simp add: nibbles_def list_all_iff)
  then show ?thesis unfolding keybytesToHex_def by (intro hexkey_append) (simp_all add: hexkey_Cons)
qed

lemma nibble_pair: "push_bit 4 (b div 16) OR (b mod 16) = (b :: byte)"
proof -
  have "b div 16 = drop_bit 4 b" "b mod 16 = take_bit 4 b" by (simp_all add: drop_bit_eq_div take_bit_eq_mod)
  then show ?thesis by (simp add: bit_eq_iff bit_simps) auto
qed

lemma keybytesToHex_inj: "keybytesToHex a = keybytesToHex b \<Longrightarrow> a = b"
proof (induction a arbitrary: b)
  case (Cons x a)
  then obtain y b' where b: "b = y # b'" by (cases b) (auto simp: keybytesToHex_def)
  with Cons.prems have "x div 16 = y div 16" "x mod 16 = y mod 16" "keybytesToHex a = keybytesToHex b'"
    by (auto simp: keybytesToHex_def)
  moreover from this have "x = y" by (metis nibble_pair)
  ultimately show ?case using Cons.IH b by simp
qed (cases b, auto simp: keybytesToHex_def)

section \<open>Sameness\<close>

lemma holds_fun: "holds db n k v \<Longrightarrow> holds db n k w \<Longrightarrow> v = w"
  by (induction arbitrary: w rule: holds.induct) auto

text \<open>Two nodes that stand for the same part of the trie: one may have loaded more of it.\<close>

definition same :: "nodeDb \<Rightarrow> node \<Rightarrow> node \<Rightarrow> bool" where
  "same db n n' \<longleftrightarrow> (\<forall>k v. holds db n' k v \<longleftrightarrow> holds db n k v) \<and> (wf_node db n \<longrightarrow> wf_node db n') \<and>
     (branches db n \<longrightarrow> branches db n') \<and> (n' = nilNode \<longleftrightarrow> n = nilNode) \<and> (\<forall>v. n = valueNode v \<longrightarrow> n' = n)"

lemma same_refl [simp]: "same db n n"
  by (simp add: same_def)

lemma same_wf_at: "same db n n' \<Longrightarrow> wf_at db n k \<Longrightarrow> wf_at db n' k"
  by (cases n) (auto simp: same_def wf_at_def split: if_splits)

lemma is_full_simps [simp]:
  "\<not> is_full nilNode" "\<not> is_full (valueNode v)" "\<not> is_full (shortNode nk c fl)" "is_full (fullNode cs fl)" "\<not> is_full (hashNode h)"
  by (simp_all add: is_full_def)

lemma branches_simps [simp]:
  "\<not> branches db nilNode" "\<not> branches db (valueNode v)" "\<not> branches db (shortNode nk c fl)" "branches db (fullNode cs fl)"
  "branches db (hashNode h) \<longleftrightarrow> (\<exists>m. db (BytesToHash h) = Some m \<and> is_full m)"
  by (auto simp: branches_def)

lemma same_short: "same db c c' \<Longrightarrow> same db (shortNode nk c fl) (shortNode nk c' fl)"
  by (auto simp: same_def wf_node_simps)

lemma same_full:
  assumes "i < length cs" "same db (cs ! i) c'"
  shows "same db (fullNode cs fl) (fullNode (cs[i := c']) fl)"
proof -
  have slot: "same db (cs ! j) (cs[i := c'] ! j)" if "j < length cs" for j using assms that by (auto simp: nth_list_update)
  have "wf_node db (fullNode (cs[i := c']) fl)" if wf: "wf_node db (fullNode cs fl)"
  proof -
    from wf obtain a b where cs: "length cs = 17" "a < 17" "b < 17" "a \<noteq> b" "cs ! a \<noteq> nilNode" "cs ! b \<noteq> nilNode"
      "\<And>j. j < 17 \<Longrightarrow> cs ! j = nilNode \<or> j = 16 \<and> is_value (cs ! j) \<or> j \<noteq> 16 \<and> wf_node db (cs ! j)"
      by (auto simp: wf_node_simps)
    show ?thesis
    proof (rule wf_full)
      fix j :: nat assume "j < 17"
      with cs(1) cs(7) [of j] slot [of j]
      show "cs[i := c'] ! j = nilNode \<or> j = 16 \<and> is_value (cs[i := c'] ! j) \<or> j \<noteq> 16 \<and> wf_node db (cs[i := c'] ! j)"
        by (cases "cs ! j") (auto simp: same_def)
    qed (use cs slot in \<open>auto simp: same_def\<close>)
  qed
  moreover have "holds db (cs[i := c'] ! j) k v \<longleftrightarrow> holds db (cs ! j) k v" if "j < length cs" for j k v
    using slot [OF that] by (simp add: same_def)
  ultimately show ?thesis by (auto simp: same_def)
qed

lemma same_hash:
  assumes "db (BytesToHash h) = Some m" "is_short m \<or> is_full m" "same db m n'"
  shows "same db (hashNode h) n'"
  using assms by (auto simp: same_def wf_node_simps branches_def)

section \<open>Following a key\<close>

definition keyp :: "bytes \<Rightarrow> bool" where
  "keyp k \<longleftrightarrow> k = [] \<or> hexkey k"

fun weight :: "node \<Rightarrow> bytes \<Rightarrow> nat" where
  "weight (hashNode h) k = Suc (2 * length k)"
| "weight n k = 2 * length k"

lemma weight_le: "weight n k \<le> Suc (2 * length k)"
  by (cases "(n, k)" rule: weight.cases) auto

lemma weight_loaded: "is_short n \<or> is_full n \<Longrightarrow> weight n k = 2 * length k"
  by (cases n) auto

lemma wf_at_Nil: "wf_at db n [] \<longleftrightarrow> n = nilNode \<or> (\<exists>v. n = valueNode v)"
  by (cases n) (auto simp: wf_at_def)

lemma wf_at_short:
  assumes "wf_at db (shortNode nk c fl) (nk @ k)" "keyp (nk @ k)"
  shows "wf_at db c k \<and> keyp k \<and> nk \<noteq> []"
proof -
  have wf: "wf_node db (shortNode nk c fl)" "hexkey (nk @ k)"
    using assms by (auto simp: wf_at_def keyp_def split: if_splits)
  from wf(1) show ?thesis
  proof cases
    case (wf_leaf v)
    then show ?thesis using wf(2) hexkey_prefix [of nk k] by (auto simp: wf_at_def keyp_def)
  next
    case wf_ext
    then show ?thesis using wf(2) hexkey_not_nibbles [of nk "[]"] hexkey_appendD [of nk k]
      by (cases "k = []") (auto simp: wf_at_def keyp_def)
  qed
qed

lemma wf_at_full:
  assumes "wf_at db (fullNode cs fl) k" "keyp k"
  obtains i k' where "k = i # k'" "unat i < 17" "length cs = 17" "wf_at db (cs ! unat i) k'" "keyp k'"
proof -
  obtain i k' where k: "k = i # k'" using assms by (cases k) (auto simp: wf_at_def)
  have i: "i = 16 \<and> k' = [] \<or> i < 16 \<and> hexkey k'" using assms(2) k by (auto simp: keyp_def hexkey_Cons split: if_splits)
  then have lt: "unat i < 17" by (auto simp: word_less_nat_alt)
  have "wf_node db (fullNode cs fl)" using assms k by (simp add: wf_at_def)
  then have cs: "length cs = 17"
      "cs ! unat i = nilNode \<or> unat i = 16 \<and> is_value (cs ! unat i) \<or> unat i \<noteq> 16 \<and> wf_node db (cs ! unat i)"
    using lt by (auto simp: wf_node_simps)
  have "wf_at db (cs ! unat i) k'" using i cs(2) by (auto simp: wf_at_def word_less_nat_alt)
  then show ?thesis using that [OF k lt cs(1)] i by (auto simp: keyp_def)
qed

lemma wf_at_hash:
  assumes "wf_at db (hashNode h) k"
  obtains m where "db (BytesToHash h) = Some m" "is_short m \<or> is_full m" "wf_at db m k"
  using assms by (auto simp: wf_at_def wf_node_simps split: if_splits)

section \<open>Reading\<close>

lemma unat_byte_eq [simp]: "unat (a :: byte) = unat b \<longleftrightarrow> a = b"
  by (simp add: word_unat_eq_iff)

lemma resolveHash_Some: "db (BytesToHash h) = Some m \<Longrightarrow> resolveHash db h p = Inr m"
  by (simp add: resolveHash_def)

lemma tryGet_ok:
  assumes "wf_at db n (drop pos key)" "keyp (drop pos key)" "pos \<le> length key" "weight n (drop pos key) < fuel"
  shows "\<exists>v n' r. tryGet fuel db n key pos = Some (Done (v, n', r, None)) \<and> same db n n' \<and> (\<not> r \<longrightarrow> n' = n) \<and>
    (\<forall>w. v = Some w \<longleftrightarrow> holds db n (drop pos key) w)"
  using assms
proof (induction fuel arbitrary: n pos)
  case (Suc fuel)
  show ?case
  proof (cases n)
    case nilNode
    then show ?thesis by (auto intro: exI [of _ False])
  next
    case (valueNode w)
    then have "drop pos key = []" using Suc.prems(1) by (auto simp: wf_at_def wf_node_simps split: if_splits)
    then show ?thesis using valueNode by auto
  next
    case (shortNode nk c fl)
    show ?thesis
    proof (cases "\<exists>k. drop pos key = nk @ k")
      case True
      then obtain k where k: "drop pos key = nk @ k" by blast
      with Suc.prems(1,2) shortNode have c: "wf_at db c k" "keyp k" "nk \<noteq> []" using wf_at_short by metis+
      have pos: "drop (pos + length nk) key = k" using k by (metis append_eq_conv_conj drop_drop add.commute)
      have len: "length key - pos = length nk + length k" using k by (metis length_append length_drop)
      have le: "pos + length nk \<le> length key" using len Suc.prems(3) c(3) by (cases nk) auto
      have "weight c k < fuel" using Suc.prems(4) shortNode k c(3) weight_le [of c k] by (cases nk) auto
      with Suc.IH [of c "pos + length nk"] c le pos
      obtain v n' r where IH: "tryGet fuel db c key (pos + length nk) = Some (Done (v, n', r, None))" "same db c n'" "\<not> r \<longrightarrow> n' = c"
        "\<forall>w. v = Some w \<longleftrightarrow> holds db c k w" by auto
      have "\<not> int (length key) - int pos < int (length nk)" "nk = take (length nk) (drop pos key)"
        using len k Suc.prems(3) by auto
      with IH k same_short [of db c n' nk fl] show ?thesis unfolding shortNode by auto
    next
      case False
      then have "\<not> (\<exists>w. holds db n (drop pos key) w)" using shortNode by auto
      moreover have "int (length key) - int pos < int (length nk) \<or> nk \<noteq> take (length nk) (drop pos key)"
        using False by (metis append_take_drop_id)
      ultimately show ?thesis using shortNode by auto
    qed
  next
    case (fullNode cs fl)
    with Suc.prems(1,2) obtain i k where k: "drop pos key = i # k" "unat i < 17" "length cs = 17" "wf_at db (cs ! unat i) k" "keyp k"
      using wf_at_full by blast
    have pos: "pos < length key" "key ! pos = i" "drop (Suc pos) key = k"
      using k(1) by (metis drop_all not_le list.distinct(1), metis nth_via_drop, metis drop_Suc tl_drop list.sel(3))
    have "weight (cs ! unat i) k < fuel" using Suc.prems(4) fullNode k(1) weight_le [of "cs ! unat i" k] by simp
    with Suc.IH [of "cs ! unat i" "Suc pos"] k pos
    obtain v n' r where IH: "tryGet fuel db (cs ! unat i) key (Suc pos) = Some (Done (v, n', r, None))" "same db (cs ! unat i) n'"
        "\<not> r \<longrightarrow> n' = cs ! unat i" "\<forall>w. v = Some w \<longleftrightarrow> holds db (cs ! unat i) k w" by auto
    then show ?thesis using fullNode k pos same_full [of "unat i" cs db n' fl] by (auto simp: go_index_def)
  next
    case (hashNode h)
    with Suc.prems(1) obtain m where m: "db (BytesToHash h) = Some m" "is_short m \<or> is_full m" "wf_at db m (drop pos key)"
      using wf_at_hash by blast
    have "weight m (drop pos key) < fuel" using Suc.prems(4) hashNode m(2) weight_loaded by auto
    with Suc.IH [of m pos] m Suc.prems
    obtain v n' r where "tryGet fuel db m key pos = Some (Done (v, n', r, None))" "same db m n'"
        "\<forall>w. v = Some w \<longleftrightarrow> holds db m (drop pos key) w" by blast
    then show ?thesis using hashNode m same_hash [of db h m n'] by (auto simp: resolveHash_Some)
  qed
qed simp

section \<open>Inserting\<close>

text \<open>\<open>n'\<close> is what \<open>n\<close> becomes when \<open>v\<close> is stored under \<open>k\<close>.\<close>

definition stored :: "nodeDb \<Rightarrow> node \<Rightarrow> bytes \<Rightarrow> bytes \<Rightarrow> node \<Rightarrow> bool" where
  "stored db n k v n' \<longleftrightarrow> (\<forall>k' w. holds db n' k' w \<longleftrightarrow> (if k' = k then w = v else holds db n k' w)) \<and>
     wf_at db n' k \<and> n' \<noteq> nilNode \<and> (branches db n \<longrightarrow> branches db n')"

lemma wf_not_nil: "wf_node db n \<Longrightarrow> n \<noteq> nilNode"
  by (auto simp: wf_node_simps)

lemma stored_same: "holds db n k v \<Longrightarrow> wf_at db n k \<Longrightarrow> same db n n' \<Longrightarrow> stored db n k v n'"
  using same_wf_at [of db n n' k] by (auto simp: stored_def same_def dest: holds_fun)

lemma stored_value: "wf_at db n [] \<Longrightarrow> stored db n [] v (valueNode v)"
  by (cases n) (auto simp: stored_def wf_at_def)

lemma stored_leaf: "hexkey k \<Longrightarrow> stored db nilNode k v (shortNode k (valueNode v) fl)"
  by (auto simp: stored_def wf_at_def intro: wf_leaf)

lemma stored_short:
  assumes "wf_at db (shortNode nk c fl) (nk @ k)" "keyp (nk @ k)" "stored db c k v c'"
  shows "stored db (shortNode nk c fl) (nk @ k) v (shortNode nk c' fl')"
proof -
  have wf: "wf_node db (shortNode nk c fl)" "hexkey (nk @ k)" using assms(1,2) by (auto simp: wf_at_def keyp_def split: if_splits)
  from wf(1) have "wf_node db (shortNode nk c' fl')"
  proof cases
    case wf_leaf
    then have "k = []" using wf(2) hexkey_prefix by blast
    then show ?thesis using assms(3) wf_leaf by (auto simp: stored_def wf_at_Nil intro: wf_node.wf_leaf)
  next
    case wf_ext
    then have "k \<noteq> []" using wf(2) hexkey_not_nibbles [of nk "[]"] by auto
    then show ?thesis using assms(3) wf_ext by (auto simp: stored_def wf_at_def intro: wf_node.wf_ext)
  qed
  then show ?thesis using assms(3) wf(2) by (auto simp: stored_def wf_at_def)
qed

lemma wf_full_update:
  assumes "wf_node db (fullNode cs fl)" "keyp (i # k)" "wf_at db c k" "c \<noteq> nilNode"
  shows "wf_node db (fullNode (cs[unat i := c]) fl')"
proof -
  have i: "i = 16 \<and> k = [] \<or> i < 16 \<and> k \<noteq> []" using assms(2) by (auto simp: keyp_def hexkey_Cons split: if_splits)
  then have lt: "unat i < 17" by (auto simp: word_less_nat_alt)
  from assms(1) obtain a b where cs: "length cs = 17" "a < 17" "b < 17" "a \<noteq> b" "cs ! a \<noteq> nilNode" "cs ! b \<noteq> nilNode"
      "\<And>j. j < 17 \<Longrightarrow> cs ! j = nilNode \<or> j = 16 \<and> is_value (cs ! j) \<or> j \<noteq> 16 \<and> wf_node db (cs ! j)"
    by (auto simp: wf_node_simps)
  show ?thesis
  proof (rule wf_full [of _ _ a b])
    fix j :: nat assume "j < 17"
    with i cs(1) cs(7) [of j] assms(3,4)
    show "cs[unat i := c] ! j = nilNode \<or> j = 16 \<and> is_value (cs[unat i := c] ! j) \<or> j \<noteq> 16 \<and> wf_node db (cs[unat i := c] ! j)"
      by (auto simp: nth_list_update wf_at_def word_less_nat_alt split: if_splits)
  qed (use cs lt assms(4) in \<open>auto simp: nth_list_update split: if_splits\<close>)
qed

lemma holds_full_update:
  "unat i < length cs \<Longrightarrow> holds db (fullNode (cs[unat i := c]) fl') k w \<longleftrightarrow>
     (if k \<noteq> [] \<and> hd k = i then holds db c (tl k) w else holds db (fullNode cs fl) k w)"
  by (cases k) (auto simp: nth_list_update)

lemma stored_full:
  assumes "wf_at db (fullNode cs fl) (i # k)" "keyp (i # k)" "stored db (cs ! unat i) k v c"
  shows "stored db (fullNode cs fl) (i # k) v (fullNode (cs[unat i := c]) fl')"
proof -
  have wf: "wf_node db (fullNode cs fl)" using assms(1) by (simp add: wf_at_def)
  obtain "unat i < length cs" using wf_at_full [OF assms(1,2)] by (metis list.inject)
  moreover have "wf_node db (fullNode (cs[unat i := c]) fl')"
    using wf_full_update [OF wf assms(2)] assms(3) by (simp add: stored_def)
  moreover have "holds db (fullNode cs fl) (j # k') w \<longleftrightarrow> unat j < length cs \<and> holds db (cs ! unat j) k' w" for j k' w by auto
  ultimately show ?thesis using assms(3)
    by (auto simp: stored_def wf_at_def holds_full_update [where fl = fl] neq_Nil_conv simp del: holds_simps(4))
qed

lemma stored_hash:
  assumes "db (BytesToHash h) = Some m" "stored db m k v n'"
  shows "stored db (hashNode h) k v n'"
  using assms by (auto simp: stored_def branches_def)

text \<open>A node below the rest of a key; the insertion at an empty place makes it.\<close>

definition attach :: "bytes \<Rightarrow> node \<Rightarrow> node" where
  "attach k c = (if k = [] then c else shortNode k c newFlag)"

lemma insert_attach: "0 < fuel \<Longrightarrow> insert_node fuel db nilNode p k c = Some (Done (True, attach k c, None))"
  by (cases fuel) (auto simp: attach_def)

lemma holds_attach: "holds db (attach k c) k' w \<longleftrightarrow> (\<exists>r. k' = k @ r \<and> holds db c r w)"
  by (auto simp: attach_def)

definition fork :: "byte \<Rightarrow> node \<Rightarrow> byte \<Rightarrow> node \<Rightarrow> node" where
  "fork y c x d = fullNode ((replicate 17 nilNode)[unat y := c, unat x := d]) newFlag"

lemma holds_fork:
  assumes "x \<noteq> y" "unat x < 17" "unat y < 17"
  shows "holds db (fork y c x d) k w \<longleftrightarrow> (\<exists>r. k = y # r \<and> holds db c r w \<or> k = x # r \<and> holds db d r w)"
proof -
  have "unat i < 17 \<Longrightarrow> (replicate 17 nilNode)[unat y := c, unat x := d] ! unat i = (if i = x then d else if i = y then c else nilNode)" for i
    using assms by (auto simp: nth_list_update)
  with assms show ?thesis unfolding fork_def by (auto split: if_splits)
qed

lemma wf_fork:
  assumes "x \<noteq> y" "keyp (x # a)" "keyp (y # b)" "wf_at db c b" "wf_at db d a" "c \<noteq> nilNode" "d \<noteq> nilNode"
  shows "wf_node db (fork y c x d)"
proof -
  have i: "x = 16 \<and> a = [] \<or> x < 16 \<and> a \<noteq> []" "y = 16 \<and> b = [] \<or> y < 16 \<and> b \<noteq> []"
    using assms(2,3) by (auto simp: keyp_def hexkey_Cons split: if_splits)
  then have lt: "unat x < 17" "unat y < 17" by (auto simp: word_less_nat_alt)
  show ?thesis unfolding fork_def
  proof (rule wf_full [of _ _ "unat x" "unat y"])
    fix j :: nat assume "j < 17"
    then show "(replicate 17 nilNode)[unat y := c, unat x := d] ! j = nilNode \<or>
       j = 16 \<and> is_value ((replicate 17 nilNode)[unat y := c, unat x := d] ! j) \<or>
       j \<noteq> 16 \<and> wf_node db ((replicate 17 nilNode)[unat y := c, unat x := d] ! j)"
      using i assms(1,4-7) by (auto simp: nth_list_update wf_at_def word_less_nat_alt split: if_splits)
  qed (use assms lt in \<open>auto simp: nth_list_update\<close>)
qed

lemma wf_fork_attach:
  assumes "wf_node db (shortNode (p @ y # b) c fl)" "hexkey (p @ x # a)" "x \<noteq> y"
  shows "wf_node db (attach p (fork y (attach b c) x (attach a (valueNode v))))"
proof -
  have xa: "keyp (x # a)" "nibbles p" using hexkey_appendD [OF assms(2)] by (auto simp: keyp_def)
  have d: "wf_at db (attach a (valueNode v)) a" "attach a (valueNode v) \<noteq> nilNode"
    using xa(1) by (auto simp: wf_at_def attach_def keyp_def hexkey_Cons intro: wf_leaf split: if_splits)
  from assms(1) obtain k where "keyp (y # k)" "wf_at db (attach b c) k" "attach b c \<noteq> nilNode"
  proof cases
    case (wf_leaf w)
    then show ?thesis using that [of b] hexkey_appendD [of p "y # b"]
      by (auto simp: keyp_def wf_at_def attach_def hexkey_Cons intro: wf_node.wf_leaf split: if_splits)
  next
    case wf_ext
    then have "wf_node db (attach b c)" by (auto simp: attach_def nibbles_def intro: wf_node.wf_ext)
    then show ?thesis using that [of "[16]"] wf_ext wf_not_nil by (auto simp: keyp_def wf_at_def hexkey_Cons nibbles_def)
  qed
  then have "wf_node db (fork y (attach b c) x (attach a (valueNode v)))" using wf_fork [OF assms(3) xa(1)] d by blast
  then show ?thesis using xa(2) by (auto simp: attach_def [of p] fork_def intro: wf_ext)
qed

lemma stored_split:
  assumes "wf_at db (shortNode (p @ y # b) c fl) (p @ x # a)" "keyp (p @ x # a)" "x \<noteq> y"
  shows "stored db (shortNode (p @ y # b) c fl) (p @ x # a) v (attach p (fork y (attach b c) x (attach a (valueNode v))))"
proof -
  have wf: "wf_node db (shortNode (p @ y # b) c fl)" "hexkey (p @ x # a)" using assms(1,2) by (auto simp: wf_at_def keyp_def)
  have lt: "unat x < 17" "unat y < 17"
    using hexkey_appendD [OF wf(2)] wf(1) hexkey_appendD [of p "y # b"]
    by (auto simp: hexkey_Cons wf_node_simps nibbles_def word_less_nat_alt split: if_splits)
  have "attach p (fork y (attach b c) x (attach a (valueNode v))) \<noteq> nilNode" by (simp add: attach_def [of p] fork_def)
  then show ?thesis using wf_fork_attach [OF wf assms(3)] assms(3)
    by (auto simp: stored_def wf_at_def holds_attach holds_fork [OF assms(3) lt])
qed

lemma insert_node_ok:
  assumes "wf_at db n k" "keyp k" "weight n k < fuel"
  shows "\<exists>dirty n'. insert_node fuel db n p k (valueNode v) = Some (Done (dirty, n', None)) \<and> stored db n k v n' \<and>
    (\<not> dirty \<longrightarrow> holds db n k v)"
  using assms
proof (induction fuel arbitrary: n p k)
  case (Suc fuel)
  show ?case
  proof (cases "k = []")
    case True
    then show ?thesis using Suc.prems stored_value [of db n v] by (auto simp: wf_at_Nil)
  next
    case k: False
    have keep: "stored db n k v n" if "holds db n k v" using that Suc.prems(1) by (intro stored_same) auto
    show ?thesis
    proof (cases n)
      case nilNode
      then show ?thesis using k Suc.prems(2) stored_leaf by (auto simp: keyp_def)
    next
      case (valueNode w)
      then show ?thesis using k Suc.prems(1) by (auto simp: wf_at_def wf_node_simps)
    next
      case (hashNode h)
      with Suc.prems(1) obtain m where m: "db (BytesToHash h) = Some m" "is_short m \<or> is_full m" "wf_at db m k"
        using wf_at_hash by blast
      have "weight m k < fuel" using Suc.prems(3) hashNode m(2) weight_loaded by auto
      with Suc.IH [of m k p] m Suc.prems
      obtain dirty n' where IH: "insert_node fuel db m p k (valueNode v) = Some (Done (dirty, n', None))" "stored db m k v n'"
          "\<not> dirty \<longrightarrow> holds db m k v" by blast
      moreover have "stored db (hashNode h) k v m" if "holds db m k v"
        using that m by (intro stored_same same_hash) (auto simp: wf_at_def wf_node_simps k)
      ultimately show ?thesis using hashNode m k stored_hash [of db h m k v n'] by (auto simp: resolveHash_Some)
    next
      case (fullNode cs fl)
      with Suc.prems(1,2) obtain i k' where k': "k = i # k'" "unat i < 17" "length cs = 17" "wf_at db (cs ! unat i) k'" "keyp k'"
        using wf_at_full by blast
      have "weight (cs ! unat i) k' < fuel" using Suc.prems(3) fullNode k'(1) weight_le [of "cs ! unat i" k'] by simp
      with Suc.IH [of "cs ! unat i" k' "p @ [i]"] k'
      obtain dirty n' where "insert_node fuel db (cs ! unat i) (p @ [i]) k' (valueNode v) = Some (Done (dirty, n', None))"
          "stored db (cs ! unat i) k' v n'" "\<not> dirty \<longrightarrow> holds db (cs ! unat i) k' v" by blast
      then show ?thesis using fullNode k' keep stored_full [of db cs fl i k' v n' newFlag] Suc.prems(1,2)
        by (auto simp: go_index_def)
    next
      case (shortNode nk c fl)
      have wf: "wf_node db (shortNode nk c fl)" "hexkey k" using Suc.prems(1,2) shortNode k by (auto simp: wf_at_def keyp_def)
      obtain q a b where q: "k = q @ a" "nk = q @ b" "prefixLen k nk = length q" "a = [] \<or> b = [] \<or> hd a \<noteq> hd b"
        using prefixLen_split by blast
      show ?thesis
      proof (cases "b = []")
        case True
        with wf_at_short [of db nk c fl a] Suc.prems(1,2) shortNode q have c: "wf_at db c a" "keyp a" "nk \<noteq> []" by auto
        then have "weight c a < fuel" using Suc.prems(3) shortNode q True weight_le [of c a] by (cases nk) auto
        with Suc.IH [of c a "p @ nk"] c obtain dirty n' where
          "insert_node fuel db c (p @ nk) a (valueNode v) = Some (Done (dirty, n', None))" "stored db c a v n'"
          "\<not> dirty \<longrightarrow> holds db c a v" by blast
        then show ?thesis using shortNode q True k keep stored_short [of db nk c fl a v n' newFlag] Suc.prems(1,2) by auto
      next
        case False
        have "a \<noteq> []" using wf q False hexkey_prefix [of q b] hexkey_not_nibbles [of q b] by (auto simp: wf_node_simps)
        with False q obtain x a' y b' where xy: "a = x # a'" "b = y # b'" "x \<noteq> y" by (cases a; cases b) auto
        have lt: "unat x < 17" "unat y < 17"
          using hexkey_appendD [of q a] hexkey_appendD [of q b] wf q xy
          by (auto simp: hexkey_Cons wf_node_simps nibbles_def word_less_nat_alt split: if_splits)
        have "0 < fuel" using Suc.prems(3) q xy shortNode by simp
        then have "insert_node (Suc fuel) db n p k (valueNode v) =
            Some (Done (True, attach q (fork y (attach b' c) x (attach a' (valueNode v))), None))"
          using shortNode q xy lt by (auto simp: go_index_def set_child_def insert_attach fork_def attach_def [of q])
        then show ?thesis using stored_split [of db q y b' c fl x a' v] shortNode q xy Suc.prems(1,2) by auto
      qed
    qed
  qed
qed simp

section \<open>Deleting\<close>

text \<open>\<open>n'\<close> is what \<open>n\<close> becomes when \<open>k\<close> is removed. A branch becomes a branch or a short node.\<close>

definition cut :: "nodeDb \<Rightarrow> node \<Rightarrow> bytes \<Rightarrow> node \<Rightarrow> bool" where
  "cut db n k n' \<longleftrightarrow> (\<forall>k' w. holds db n' k' w \<longleftrightarrow> k' \<noteq> k \<and> holds db n k' w) \<and> wf_at db n' k \<and>
     (branches db n \<longrightarrow> is_short n' \<or> branches db n')"

lemma cut_same: "(\<And>w. \<not> holds db n k w) \<Longrightarrow> wf_at db n k \<Longrightarrow> same db n n' \<Longrightarrow> cut db n k n'"
  using same_wf_at [of db n n' k] by (auto simp: cut_def same_def)

lemma cut_hash:
  assumes "db (BytesToHash h) = Some m" "cut db m k n'"
  shows "cut db (hashNode h) k n'"
  using assms by (auto simp: cut_def branches_def)

text \<open>A short node above a shortened child.\<close>

definition join_short :: "bytes \<Rightarrow> node \<Rightarrow> node" where
  "join_short nk c = (case c of shortNode ck cv _ \<Rightarrow> shortNode (nk @ ck) cv newFlag | _ \<Rightarrow> shortNode nk c newFlag)"

lemma holds_join_short: "holds db (join_short nk c) k w \<longleftrightarrow> holds db (shortNode nk c newFlag) k w"
  by (cases c) (auto simp: join_short_def)

lemma wf_join_short:
  assumes "nibbles nk" "nk \<noteq> []" "wf_node db c" "is_short c \<or> branches db c"
  shows "wf_node db (join_short nk c)"
proof (cases "is_short c")
  case True
  then obtain ck cv fl where c: "c = shortNode ck cv fl" by (cases c) auto
  from assms(3) [unfolded c] show ?thesis
    by cases (use assms(1,2) c in \<open>auto simp: join_short_def nibbles_def intro!: wf_ext wf_leaf hexkey_append [unfolded nibbles_def]\<close>)
next
  case False
  then show ?thesis using assms by (cases c) (auto simp: join_short_def intro!: wf_ext)
qed

lemma cut_short:
  assumes "wf_at db (shortNode nk c fl) (nk @ k)" "keyp (nk @ k)" "k \<noteq> []" "cut db c k c'"
  shows "cut db (shortNode nk c fl) (nk @ k) (join_short nk c')"
proof -
  have wf: "wf_node db (shortNode nk c fl)" "hexkey (nk @ k)" using assms(1-3) by (auto simp: wf_at_def keyp_def split: if_splits)
  then have "nibbles nk" "nk \<noteq> []" "branches db c" using hexkey_prefix [of nk k] assms(3) by (auto simp: wf_node_simps)
  moreover from this(3) have "wf_node db c'" "is_short c' \<or> branches db c'"
    using assms(3,4) by (auto simp: cut_def wf_at_def)
  ultimately have "wf_node db (join_short nk c')" by (intro wf_join_short)
  then show ?thesis using assms(3,4) by (auto simp: cut_def wf_at_def holds_join_short)
qed

lemma only_child_found: "pos \<noteq> - 1 \<Longrightarrow> only_child cs i pos = (if \<forall>c \<in> set cs. c = nilNode then pos else - 2)"
  by (induction cs arbitrary: i) auto

lemma only_child_none: "\<forall>c \<in> set cs. c = nilNode \<Longrightarrow> only_child cs i pos = pos"
  by (induction cs arbitrary: i) auto

lemma only_child_split:
  "\<forall>c \<in> set xs. c = nilNode \<Longrightarrow> c \<noteq> nilNode \<Longrightarrow>
   only_child (xs @ c # ys) i (- 1) = (if \<forall>c \<in> set ys. c = nilNode then int (i + length xs) else - 2)"
  by (induction xs arbitrary: i) (auto simp: only_child_found)

lemma only_child_cases:
  assumes "c \<in> set cs" "c \<noteq> nilNode"
  obtains (one) j where "j < length cs" "cs ! j \<noteq> nilNode" "\<And>j'. j' < length cs \<Longrightarrow> j' \<noteq> j \<Longrightarrow> cs ! j' = nilNode"
      "only_child cs 0 (- 1) = int j"
    | (many) a b where "a < length cs" "b < length cs" "a \<noteq> b" "cs ! a \<noteq> nilNode" "cs ! b \<noteq> nilNode" "only_child cs 0 (- 1) = - 2"
proof -
  from assms obtain xs d ys where cs: "cs = xs @ d # ys" "d \<noteq> nilNode" "\<forall>c \<in> set xs. c = nilNode"
    using split_list_first_prop [of cs "\<lambda>c. c \<noteq> nilNode"] by metis
  show ?thesis
  proof (cases "\<forall>c \<in> set ys. c = nilNode")
    case True
    with cs show ?thesis by (intro one [of "length xs"]) (auto simp: only_child_split nth_append nth_Cons split: nat.splits if_splits)
  next
    case False
    then obtain j where "j < length ys" "ys ! j \<noteq> nilNode" by (auto simp: in_set_conv_nth)
    with cs False show ?thesis
      by (intro many [of "length xs" "length xs + Suc j"]) (auto simp: only_child_split nth_append)
  qed
qed

lemma holds_only_child:
  assumes "length cs = 17" "j < 17" "\<And>j'. j' < length cs \<Longrightarrow> j' \<noteq> j \<Longrightarrow> cs ! j' = nilNode"
  shows "holds db (fullNode cs fl) k w \<longleftrightarrow> holds db (shortNode [word_of_int (int j)] (cs ! j) fl') k w"
proof -
  have j: "unat (word_of_int (int j) :: byte) = j" using assms(2) by (simp add: unat_of_nat)
  have "i = word_of_int (int j)" if "unat i < 17" "holds db (cs ! unat i) k' w" for i :: byte and k'
    using that assms(1,3) j unat_byte_eq [of i "word_of_int (int j)"] by (cases "unat i = j") auto
  with j assms(1,2) show ?thesis by auto
qed

text \<open>The child that is left, loaded when it is a short node.\<close>

lemma resolve_wf:
  assumes "wf_node db c"
  obtains c' where "resolve db c p = Inr c'" "is_short c' \<Longrightarrow> wf_node db c' \<and> (\<forall>k w. holds db c' k w \<longleftrightarrow> holds db c k w)"
    "\<not> is_short c' \<Longrightarrow> \<not> is_short c \<and> branches db c"
  using assms by (cases c) (auto simp: resolve_def resolveHash_def wf_node_simps)

lemma reduce_full_ok:
  assumes cs: "length cs = 17" "c \<in> set cs" "c \<noteq> nilNode"
    and slots: "\<And>i. i < 17 \<Longrightarrow> cs ! i = nilNode \<or> i = 16 \<and> is_value (cs ! i) \<or> i \<noteq> 16 \<and> wf_node db (cs ! i)"
  shows "\<exists>n. reduce_full db cs p = Some (Done (True, n, None)) \<and> wf_node db n \<and> (is_short n \<or> branches db n) \<and>
    (\<forall>k w. holds db n k w \<longleftrightarrow> holds db (fullNode cs newFlag) k w)"
  using cs(2,3)
proof (cases rule: only_child_cases)
  case (many a b)
  then have "wf_node db (fullNode cs newFlag)" using cs(1) slots by (intro wf_full [of _ _ a b]) auto
  then show ?thesis using many by (auto simp: reduce_full_def)
next
  case (one j)
  let ?i = "word_of_int (int j) :: byte"
  have j: "j < 17" using one(1) cs(1) by simp
  note holds = holds_only_child [where fl = newFlag and fl' = newFlag, OF cs(1) j one(3)]
  show ?thesis
  proof (cases "j = 16")
    case True
    with slots [of 16] one obtain v where "cs ! j = valueNode v" by (cases "cs ! j") (auto simp: wf_node_simps)
    then have "wf_node db (shortNode [?i] (cs ! j) newFlag)" using True by (auto intro!: wf_leaf simp: hexkey_Cons)
    then show ?thesis using one(4) True holds by (auto simp: reduce_full_def simp del: holds_simps)
  next
    case False
    with slots [OF j] one(2) have wf: "wf_node db (cs ! j)" by auto
    obtain c' where c': "resolve db (cs ! j) p = Inr c'"
        "is_short c' \<Longrightarrow> wf_node db c' \<and> (\<forall>k w. holds db c' k w \<longleftrightarrow> holds db (cs ! j) k w)"
        "\<not> is_short c' \<Longrightarrow> \<not> is_short (cs ! j) \<and> branches db (cs ! j)" using resolve_wf [OF wf] by metis
    define d where "d = (if is_short c' then c' else cs ! j)"
    have "reduce_full db cs p = Some (Done (True, join_short [?i] d, None))"
      using one(4) False c' unfolding reduce_full_def d_def by (cases c'; cases "cs ! j") (auto simp: join_short_def)
    moreover have "nibbles [?i]" using j False by (simp add: nibbles_def word_less_nat_alt unat_of_nat)
    then have "wf_node db (join_short [?i] d)" using wf c'(2,3) by (intro wf_join_short) (auto simp: d_def)
    moreover have "is_short (join_short [?i] d)" by (simp add: join_short_def split: node.splits)
    moreover have "holds db (join_short [?i] d) k w \<longleftrightarrow> holds db (fullNode cs newFlag) k w" for k w
      using c'(2) holds [of db k w] by (auto simp: holds_join_short d_def simp del: holds_simps(4))
    ultimately show ?thesis by blast
  qed
qed

lemma cut_full:
  assumes "wf_at db (fullNode cs fl) (i # k)" "keyp (i # k)" "cut db (cs ! unat i) k c"
  shows "\<exists>n. reduce_full db (cs[unat i := c]) p = Some (Done (True, n, None)) \<and> cut db (fullNode cs fl) (i # k) n"
proof -
  have wf: "wf_node db (fullNode cs fl)" using assms(1) by (simp add: wf_at_def)
  obtain lt: "unat i < 17" using wf_at_full [OF assms(1,2)] by (metis list.inject)
  have i: "i = 16 \<and> k = [] \<or> i < 16 \<and> k \<noteq> []" using assms(2) by (auto simp: keyp_def hexkey_Cons split: if_splits)
  from wf obtain a b where cs: "length cs = 17" "a < 17" "b < 17" "a \<noteq> b" "cs ! a \<noteq> nilNode" "cs ! b \<noteq> nilNode"
      "\<And>j. j < 17 \<Longrightarrow> cs ! j = nilNode \<or> j = 16 \<and> is_value (cs ! j) \<or> j \<noteq> 16 \<and> wf_node db (cs ! j)"
    by (auto simp: wf_node_simps)
  then obtain d where d: "d < 17" "d \<noteq> unat i" "cs ! d \<noteq> nilNode" by metis
  have "cs[unat i := c] ! j = nilNode \<or> j = 16 \<and> is_value (cs[unat i := c] ! j) \<or> j \<noteq> 16 \<and> wf_node db (cs[unat i := c] ! j)"
    if "j < 17" for j
    using i cs(1) cs(7) [OF that] assms(3) that by (auto simp: nth_list_update cut_def wf_at_def word_less_nat_alt split: if_splits)
  moreover have "cs ! d \<in> set (cs[unat i := c])" using d cs(1) by (metis length_list_update nth_list_update_neq nth_mem)
  ultimately obtain n where n: "reduce_full db (cs[unat i := c]) p = Some (Done (True, n, None))" "wf_node db n" "is_short n \<or> branches db n"
      "\<forall>k w. holds db n k w \<longleftrightarrow> holds db (fullNode (cs[unat i := c]) newFlag) k w"
    using reduce_full_ok [of "cs[unat i := c]" "cs ! d" db p] d(3) cs(1) by auto
  have "holds db (fullNode cs fl) (j # k') w \<longleftrightarrow> unat j < length cs \<and> holds db (cs ! unat j) k' w" for j k' w by auto
  with n assms(3) lt cs(1) have "cut db (fullNode cs fl) (i # k) n"
    by (auto simp: cut_def wf_at_def holds_full_update [where fl = fl] neq_Nil_conv simp del: holds_simps(4))
  with n show ?thesis by blast
qed

lemma delete_node_ok:
  assumes "wf_at db n k" "keyp k" "weight n k < fuel"
  shows "\<exists>dirty n'. delete_node fuel db n p k = Some (Done (dirty, n', None)) \<and> cut db n k n' \<and>
    (\<not> dirty \<longrightarrow> (\<forall>w. \<not> holds db n k w))"
  using assms
proof (induction fuel arbitrary: n p k)
  case (Suc fuel)
  have keep: "cut db n k n" if "\<And>w. \<not> holds db n k w" using that Suc.prems(1) by (intro cut_same) auto
  show ?case
  proof (cases n)
    case nilNode
    then show ?thesis using keep by auto
  next
    case (valueNode w)
    then show ?thesis using Suc.prems(1) by (auto simp: wf_at_def wf_node_simps cut_def split: if_splits)
  next
    case (hashNode h)
    with Suc.prems(1) obtain m where m: "db (BytesToHash h) = Some m" "is_short m \<or> is_full m" "wf_at db m k"
      using wf_at_hash by blast
    have "weight m k < fuel" using Suc.prems(3) hashNode m(2) weight_loaded by auto
    with Suc.IH [of m k p] m Suc.prems
    obtain dirty n' where IH: "delete_node fuel db m p k = Some (Done (dirty, n', None))" "cut db m k n'"
        "\<not> dirty \<longrightarrow> (\<forall>w. \<not> holds db m k w)" by blast
    moreover have "cut db (hashNode h) k m" if "\<forall>w. \<not> holds db m k w"
      using that m Suc.prems(1) hashNode by (intro cut_same same_hash) auto
    ultimately show ?thesis using hashNode m cut_hash [of db h m k n'] by (auto simp: resolveHash_Some)
  next
    case (fullNode cs fl)
    with Suc.prems(1,2) obtain i k' where k': "k = i # k'" "unat i < 17" "length cs = 17" "wf_at db (cs ! unat i) k'" "keyp k'"
      using wf_at_full by blast
    have "weight (cs ! unat i) k' < fuel" using Suc.prems(3) fullNode k'(1) weight_le [of "cs ! unat i" k'] by simp
    with Suc.IH [of "cs ! unat i" k' "p @ [i]"] k'
    obtain dirty c where IH: "delete_node fuel db (cs ! unat i) (p @ [i]) k' = Some (Done (dirty, c, None))"
        "cut db (cs ! unat i) k' c" "\<not> dirty \<longrightarrow> (\<forall>w. \<not> holds db (cs ! unat i) k' w)" by blast
    obtain n' where n': "reduce_full db (cs[unat i := c]) p = Some (Done (True, n', None))" "cut db (fullNode cs fl) (i # k') n'"
      using cut_full [of db cs fl i k' c p] IH(2) Suc.prems(1,2) k'(1) fullNode by auto
    show ?thesis
    proof (cases dirty)
      case True
      with IH n' k' fullNode show ?thesis by (auto simp: go_index_def)
    next
      case False
      with IH have "\<And>w. \<not> holds db n k w" using k' fullNode by auto
      with False IH k' fullNode keep show ?thesis by (auto simp: go_index_def)
    qed
  next
    case (shortNode nk c fl)
    obtain q a b where q: "k = q @ a" "nk = q @ b" "prefixLen k nk = length q" "a = [] \<or> b = [] \<or> hd a \<noteq> hd b"
      using prefixLen_split by blast
    consider "b \<noteq> []" | "b = []" "a = []" | "b = []" "a \<noteq> []" by blast
    then show ?thesis
    proof cases
      case 1
      then have "\<not> holds db n k w" for w using shortNode q by auto
      with 1 q shortNode keep show ?thesis by auto
    next
      case 2
      with wf_at_short [of db nk c fl "[]"] Suc.prems(1,2) shortNode q have "wf_at db c []" by auto
      then have "c = nilNode \<or> (\<exists>v. c = valueNode v)" by (simp add: wf_at_Nil)
      then have "cut db n k nilNode" using shortNode q 2 by (auto simp: cut_def wf_at_def)
      with 2 q shortNode show ?thesis by auto
    next
      case 3
      with wf_at_short [of db nk c fl a] Suc.prems(1,2) shortNode q have c: "wf_at db c a" "keyp a" "nk \<noteq> []" by auto
      then have "weight c a < fuel" using Suc.prems(3) shortNode q 3 weight_le [of c a] by (cases nk) auto
      with Suc.IH [of c a "p @ nk"] c obtain dirty n' where IH:
        "delete_node fuel db c (p @ nk) a = Some (Done (dirty, n', None))" "cut db c a n'"
        "\<not> dirty \<longrightarrow> (\<forall>w. \<not> holds db c a w)" by blast
      have "cut db (shortNode nk c fl) (nk @ a) (join_short nk n')"
        using cut_short [OF _ _ 3(2) IH(2)] Suc.prems(1,2) shortNode q 3 by auto
      then show ?thesis using IH shortNode q 3 keep by (auto simp: join_short_def split: node.splits)
    qed
  qed
qed simp

section \<open>Stores\<close>

text \<open>
  The contract of a store whose state represents a map: reads return what the map has and keep it, and
  a write replaces one entry (the empty value removes it). Neither fails.
\<close>

fun stores :: "('s \<Rightarrow> bytes \<Rightarrow> bytes \<Rightarrow> 's option) \<Rightarrow> 's \<Rightarrow> (bytes \<times> bytes) list \<Rightarrow> 's option" where
  "stores store s [] = Some s"
| "stores store s ((k, v) # kvs) = do { s \<leftarrow> store s k v; stores store s kvs }"

fun applied :: "(bytes \<rightharpoonup> bytes) \<Rightarrow> (bytes \<times> bytes) list \<Rightarrow> (bytes \<rightharpoonup> bytes)" where
  "applied m [] = m"
| "applied m ((k, v) # kvs) = applied (m(k := if v = [] then None else Some v)) kvs"

locale keyed_store =
  fixes repr :: "'s \<Rightarrow> (bytes \<rightharpoonup> bytes) \<Rightarrow> bool"
    and fetch :: "'s \<Rightarrow> bytes \<Rightarrow> (bytes option \<times> 's) option"
    and store :: "'s \<Rightarrow> bytes \<Rightarrow> bytes \<Rightarrow> 's option"
  assumes fetch_ok: "repr s m \<Longrightarrow> \<exists>s'. fetch s k = Some (m k, s') \<and> repr s' m"
    and store_ok: "repr s m \<Longrightarrow> \<exists>s'. store s k v = Some s' \<and> repr s' (m(k := if v = [] then None else Some v))"
begin

lemma stores_ok: "repr s m \<Longrightarrow> \<exists>s'. stores store s kvs = Some s' \<and> repr s' (applied m kvs)"
proof (induction kvs arbitrary: s m)
  case (Cons kv kvs)
  obtain k v where kv: "kv = (k, v)" by force
  from store_ok [OF Cons.prems, of k v] Cons.IH show ?case unfolding kv by fastforce
qed simp

lemma fetch_stores:
  assumes "repr s m"
  shows "\<exists>s' s''. stores store s kvs = Some s' \<and> fetch s' k = Some (applied m kvs k, s'') \<and> repr s'' (applied m kvs)"
  using stores_ok [OF assms, of kvs] fetch_ok by blast

end

section \<open>The map a trie represents\<close>

definition represents :: "nodeDb \<Rightarrow> node \<Rightarrow> (bytes \<rightharpoonup> bytes) \<Rightarrow> bool" where
  "represents db n m \<longleftrightarrow> (n = nilNode \<or> wf_node db n) \<and>
     (\<forall>hk v. holds db n hk v \<longleftrightarrow> (\<exists>k. hk = keybytesToHex k \<and> m k = Some v))"

text \<open>Enough fuel for a key: two nodes for each of its nibbles and for its terminator.\<close>

definition key_fuel :: "bytes \<Rightarrow> nat" where
  "key_fuel key = 4 * length key + 4"

lemma length_keybytesToHex: "length (keybytesToHex key) = 2 * length key + 1"
  by (induction key) (simp_all add: keybytesToHex_def)

lemma keyp_keybytesToHex: "keyp (keybytesToHex key)" "keybytesToHex key \<noteq> []"
  using hexkey_keybytesToHex by (auto simp: keyp_def keybytesToHex_def)

lemma represents_wf_at: "represents db n m \<Longrightarrow> wf_at db n (keybytesToHex key)"
  by (auto simp: represents_def wf_at_def keyp_keybytesToHex)

lemma represents_holds: "represents db n m \<Longrightarrow> holds db n (keybytesToHex key) v \<longleftrightarrow> m key = Some v"
  by (auto simp: represents_def dest: keybytesToHex_inj)

lemma weight_fuel: "key_fuel key \<le> fuel \<Longrightarrow> weight n (keybytesToHex key) < fuel"
  using weight_le [of n "keybytesToHex key"] by (simp add: key_fuel_def length_keybytesToHex)

lemma represents_empty: "represents db nilNode Map.empty"
  by (simp add: represents_def)

lemma TryGet_represents:
  assumes "represents db root m" "key_fuel key \<le> fuel"
  shows "\<exists>root'. TryGet fuel db root key = Some (Done (m key, None, root')) \<and> represents db root' m"
proof -
  obtain v n' r where r: "tryGet fuel db root (keybytesToHex key) 0 = Some (Done (v, n', r, None))" "same db root n'"
      "\<forall>w. v = Some w \<longleftrightarrow> holds db root (keybytesToHex key) w"
    using tryGet_ok [of db root 0 "keybytesToHex key" fuel] represents_wf_at [OF assms(1)] weight_fuel [OF assms(2)]
      keyp_keybytesToHex by auto
  have "v = m key" using r(3) represents_holds [OF assms(1)] by (metis not_Some_eq)
  moreover have "represents db n' m" using assms(1) r(2) by (auto simp: represents_def same_def)
  ultimately show ?thesis using r(1) assms(1) by (auto simp: TryGet_def)
qed

lemma insert_represents:
  assumes "represents db root m" "key_fuel key \<le> fuel"
  shows "\<exists>dirty root'. insert_node fuel db root [] (keybytesToHex key) (valueNode v) = Some (Done (dirty, root', None)) \<and>
    represents db root' (m(key \<mapsto> v))"
proof -
  obtain dirty n' where n': "insert_node fuel db root [] (keybytesToHex key) (valueNode v) = Some (Done (dirty, n', None))"
      "stored db root (keybytesToHex key) v n'"
    using insert_node_ok [OF represents_wf_at [OF assms(1)] keyp_keybytesToHex(1) weight_fuel [OF assms(2)]] by blast
  have "represents db n' (m(key \<mapsto> v))"
    using n'(2) assms(1) keyp_keybytesToHex(2) [of key] unfolding represents_def stored_def wf_at_def
    by (auto dest: keybytesToHex_inj split: if_splits)
  with n'(1) show ?thesis by blast
qed

lemma delete_represents:
  assumes "represents db root m" "key_fuel key \<le> fuel"
  shows "\<exists>dirty root'. delete_node fuel db root [] (keybytesToHex key) = Some (Done (dirty, root', None)) \<and>
    represents db root' (m(key := None))"
proof -
  obtain dirty n' where n': "delete_node fuel db root [] (keybytesToHex key) = Some (Done (dirty, n', None))"
      "cut db root (keybytesToHex key) n'"
    using delete_node_ok [OF represents_wf_at [OF assms(1)] keyp_keybytesToHex(1) weight_fuel [OF assms(2)]] by blast
  have "represents db n' (m(key := None))"
    using n'(2) assms(1) keyp_keybytesToHex(2) [of key] unfolding represents_def cut_def wf_at_def
    by (auto dest: keybytesToHex_inj split: if_splits)
  with n'(1) show ?thesis by blast
qed

lemma TryUpdate_represents:
  assumes "represents db root m" "key_fuel key \<le> fuel"
  shows "\<exists>root'. TryUpdate fuel db root key v = Some (Done (None, root')) \<and>
    represents db root' (m(key := if v = [] then None else Some v))"
  using insert_represents [OF assms, of v] delete_represents [OF assms] by (auto simp: TryUpdate_def)

lemma TryDelete_represents:
  assumes "represents db root m" "key_fuel key \<le> fuel"
  shows "\<exists>root'. TryDelete fuel db root key = Some (Done (None, root')) \<and> represents db root' (m(key := None))"
  using delete_represents [OF assms] by (auto simp: TryDelete_def)

section \<open>The shape of a trie is determined by its contents\<close>

text \<open>A node without hash nodes, caches put aside.\<close>

fun loaded :: "node \<Rightarrow> bool" where
  "loaded nilNode = True"
| "loaded (valueNode v) = True"
| "loaded (shortNode k c fl) \<longleftrightarrow> fl = newFlag \<and> loaded c"
| "loaded (fullNode cs fl) \<longleftrightarrow> fl = newFlag \<and> (\<forall>c \<in> set cs. loaded c)"
| "loaded (hashNode h) = False"

text \<open>\<open>t\<close> is \<open>n\<close> with everything loaded.\<close>

inductive loads :: "nodeDb \<Rightarrow> node \<Rightarrow> node \<Rightarrow> bool" for db where
  "loads db nilNode nilNode"
| "loads db (valueNode v) (valueNode v)"
| "loads db c t \<Longrightarrow> loads db (shortNode k c fl) (shortNode k t newFlag)"
| "list_all2 (loads db) cs ts \<Longrightarrow> loads db (fullNode cs fl) (fullNode ts newFlag)"
| "db (BytesToHash h) = Some n \<Longrightarrow> loads db n t \<Longrightarrow> loads db (hashNode h) t"

inductive_simps loads_simps [simp]:
  "loads db nilNode t" "loads db (valueNode v) t" "loads db (shortNode k c fl) t" "loads db (fullNode cs fl) t"
  "loads db (hashNode h) t"

lemma loads_loaded: "loads db n t \<Longrightarrow> loaded t"
  by (induction rule: loads.induct) (auto simp: list_all2_conv_all_nth in_set_conv_nth)

lemma loads_holds: "loads db n t \<Longrightarrow> holds db' t k v \<longleftrightarrow> holds db n k v"
proof (induction arbitrary: k rule: loads.induct)
  case (4 cs ts fl)
  then show ?case by (auto simp: list_all2_conv_all_nth)
qed auto

lemma loads_nil: "loads db n t \<Longrightarrow> wf_node db n \<or> is_value n \<Longrightarrow> t \<noteq> nilNode"
  by (induction rule: loads.induct) (auto simp: wf_node_simps)

lemma loads_kind: "loads db n t \<Longrightarrow> (is_full n \<longrightarrow> is_full t) \<and> (is_value n \<longrightarrow> is_value t) \<and> (branches db n \<longrightarrow> is_full t)"
  by (induction rule: loads.induct) (auto simp: branches_def is_full_def)

lemma loads_wf: "wf_node db n \<Longrightarrow> loads db n t \<Longrightarrow> wf_node db' t"
proof (induction arbitrary: t rule: wf_node.induct)
  case (wf_leaf nk v fl)
  then show ?case by (auto intro: wf_node.wf_leaf)
next
  case (wf_ext nk c fl)
  then obtain u where u: "t = shortNode nk u newFlag" "loads db c u" by auto
  moreover have "is_full u" using loads_kind [OF u(2)] wf_ext.hyps by blast
  ultimately show ?case using wf_ext by (auto simp: branches_def intro!: wf_node.wf_ext)
next
  case (wf_full cs i j fl)
  then obtain ts where ts: "t = fullNode ts newFlag" "list_all2 (loads db) cs ts" by auto
  then have len: "length ts = 17" using wf_full.hyps(1) by (auto dest: list_all2_lengthD)
  have l: "loads db (cs ! k) (ts ! k)" if "k < 17" for k using that ts(2) wf_full.hyps(1) by (simp add: list_all2_nthD)
  have "ts ! i \<noteq> nilNode" "ts ! j \<noteq> nilNode"
    using loads_nil [OF l] wf_full.IH [of i] wf_full.IH [of j] wf_full.hyps(2-6) by blast+
  moreover have "ts ! k = nilNode \<or> k = 16 \<and> is_value (ts ! k) \<or> k \<noteq> 16 \<and> wf_node db' (ts ! k)" if "k < 17" for k
    using wf_full.IH [OF that] l [OF that] loads_kind [OF l [OF that]] by auto
  ultimately show ?case unfolding ts(1) using len wf_full.hyps(2-4) by (intro wf_node.wf_full [of ts _ i j])
next
  case (wf_hash h n)
  then show ?case by auto
qed

lemma loads_ex: "wf_node db n \<Longrightarrow> \<exists>t. loads db n t"
proof (induction rule: wf_node.induct)
  case (wf_full cs i j fl)
  have "\<exists>t. loads db (cs ! k) t" if "k < length cs" for k
    using wf_full.IH [of k] wf_full.hyps(1) that by (cases "cs ! k") (auto simp del: loads_simps(3-5))
  then obtain f where "\<And>k. k < length cs \<Longrightarrow> loads db (cs ! k) (f k)" by metis
  then have "list_all2 (loads db) cs (map f [0..<length cs])" by (simp add: list_all2_conv_all_nth)
  then show ?case by auto
qed auto

lemma slot_holds:
  assumes "i < 17" "length cs = 17" "cs ! i \<noteq> nilNode" "is_value (cs ! i) \<or> (\<exists>k v. holds db (cs ! i) k v)"
  shows "\<exists>k v. holds db (fullNode cs fl) (word_of_nat i # k) v"
proof -
  have "unat (word_of_nat i :: byte) = i" using assms(1) by (simp add: unat_of_nat)
  moreover have "\<exists>k v. holds db (cs ! i) k v" using assms(4) by (cases "cs ! i") auto
  ultimately show ?thesis using assms(1,2) by auto
qed

lemma wf_holds_some: "wf_node db n \<Longrightarrow> \<exists>k v. holds db n k v"
proof (induction rule: wf_node.induct)
  case (wf_full cs i j fl)
  then show ?case using slot_holds [of i cs db fl] by blast
qed auto

lemma wf_full_two:
  assumes "wf_node db (fullNode cs fl)"
  obtains x a v y b w where "x \<noteq> y" "holds db (fullNode cs fl) (x # a) v" "holds db (fullNode cs fl) (y # b) w"
  using assms
proof cases
  case (wf_full i j)
  then obtain a v b w where "holds db (fullNode cs fl) (word_of_nat i # a) v" "holds db (fullNode cs fl) (word_of_nat j # b) w"
    using slot_holds [of i cs db fl] slot_holds [of j cs db fl] wf_holds_some by meson
  moreover have "(word_of_nat i :: byte) \<noteq> word_of_nat j"
    using wf_full(3-5) by (simp add: word_unat_eq_iff unat_of_nat)
  ultimately show ?thesis using that by blast
qed

text \<open>What lies above a branch is the longest common prefix of its keys.\<close>

lemma branch_prefix:
  assumes "x \<noteq> y" "p @ x # a = q @ a'" "p @ y # b = q @ b'"
  shows "length q \<le> length p"
proof (rule ccontr)
  assume "\<not> length q \<le> length p"
  then have "q ! length p = x" "q ! length p = y"
    using assms(2,3) by (metis not_le nth_append nth_append_length)+
  with assms(1) show False by simp
qed

text \<open>The three shapes of a loaded node, told apart by the keys below them.\<close>

lemma loaded_cases:
  assumes "wf_node db t" "loaded t"
  obtains (leaf) nk v where "t = shortNode nk (valueNode v) newFlag" "nk \<noteq> []"
    | (ext) nk cs where "t = shortNode nk (fullNode cs newFlag) newFlag" "nk \<noteq> []" "wf_node db (fullNode cs newFlag)"
    | (full) cs where "t = fullNode cs newFlag" "length cs = 17"
  using assms
proof cases
  case (wf_ext nk c fl)
  then show ?thesis using ext assms(2) by (cases c) auto
qed (auto intro: that)

lemma holds_ext_two:
  assumes "wf_node db (fullNode cs fl)"
  obtains x a v y b w where "x \<noteq> y" "holds db (shortNode nk (fullNode cs fl) fl') (nk @ x # a) v"
    "holds db (shortNode nk (fullNode cs fl) fl') (nk @ y # b) w"
  using wf_full_two [OF assms] by (metis holds_short)

lemma leaf_not_ext:
  assumes "wf_node db (fullNode cs fl)"
    "\<And>k v. holds db' (shortNode nk (valueNode u) fl1) k v \<longleftrightarrow> holds db (shortNode nk' (fullNode cs fl) fl2) k v"
  shows False
  using assms(2) holds_ext_two [OF assms(1), of nk' fl2] by (metis append_self_conv holds_simps(2,3) list.inject same_append_eq)

lemma short_not_full:
  assumes "wf_node db (fullNode cs fl)" "nk \<noteq> []"
    "\<And>k v. holds db' (shortNode nk c fl1) k v \<longleftrightarrow> holds db (fullNode cs fl) k v"
  shows False
proof -
  obtain x a v y b w where "x \<noteq> y" "holds db (fullNode cs fl) (x # a) v" "holds db (fullNode cs fl) (y # b) w"
    using wf_full_two [OF assms(1)] .
  then obtain r s where "x # a = nk @ r" "y # b = nk @ s" "x \<noteq> y" using assms(3) by (metis holds_simps(3))
  then show False using assms(2) by (cases nk) auto
qed

lemma ext_same_prefix:
  assumes "wf_node db (fullNode cs fl)" "wf_node db' (fullNode cs' fl')"
    "\<And>k v. holds db (shortNode nk (fullNode cs fl) fl1) k v \<longleftrightarrow> holds db' (shortNode nk' (fullNode cs' fl') fl2) k v"
  shows "nk = nk'"
proof -
  obtain x a v y b w where xy: "x \<noteq> y" "holds db (shortNode nk (fullNode cs fl) fl1) (nk @ x # a) v"
    "holds db (shortNode nk (fullNode cs fl) fl1) (nk @ y # b) w" using holds_ext_two [OF assms(1)] .
  obtain x' a' v' y' b' w' where xy': "x' \<noteq> y'" "holds db' (shortNode nk' (fullNode cs' fl') fl2) (nk' @ x' # a') v'"
    "holds db' (shortNode nk' (fullNode cs' fl') fl2) (nk' @ y' # b') w'" using holds_ext_two [OF assms(2)] .
  obtain r s where rs: "nk @ x # a = nk' @ r" "nk @ y # b = nk' @ s" using xy(2,3) assms(3) by (metis holds_simps(3))
  obtain r' s' where "nk' @ x' # a' = nk @ r'" "nk' @ y' # b' = nk @ s'" using xy'(2,3) assms(3) by (metis holds_simps(3))
  with rs xy(1) xy'(1) have "length nk = length nk'" by (meson branch_prefix le_antisym)
  with rs(1) show ?thesis by simp
qed

lemma slot_some: "n = nilNode \<or> is_value n \<or> wf_node db n \<Longrightarrow> (\<exists>k v. holds db n k v) \<longleftrightarrow> n \<noteq> nilNode"
proof (cases "is_value n")
  case True
  then show ?thesis by (cases n) auto
qed (use wf_holds_some wf_not_nil in auto)

lemma loaded_full_canonical:
  assumes "wf_node db (fullNode cs newFlag)" "wf_node db' (fullNode cs' newFlag)"
    "\<And>k v. holds db (fullNode cs newFlag) k v \<longleftrightarrow> holds db' (fullNode cs' newFlag) k v"
    "loaded (fullNode cs newFlag)" "loaded (fullNode cs' newFlag)"
    and IH: "\<And>t t'. t \<in> set cs \<Longrightarrow> wf_node db t \<Longrightarrow> wf_node db' t' \<Longrightarrow> loaded t \<Longrightarrow> loaded t' \<Longrightarrow>
      (\<And>k v. holds db t k v \<longleftrightarrow> holds db' t' k v) \<Longrightarrow> t = t'"
  shows "cs = cs'"
proof (rule nth_equalityI)
  from assms(1,2) have len: "length cs = 17" "length cs' = 17" by (auto simp: wf_node_simps)
  then show "length cs = length cs'" by simp
  fix i assume "i < length cs"
  then have i: "i < 17" using len by simp
  have slots: "cs ! i = nilNode \<or> i = 16 \<and> is_value (cs ! i) \<or> i \<noteq> 16 \<and> wf_node db (cs ! i)"
      "cs' ! i = nilNode \<or> i = 16 \<and> is_value (cs' ! i) \<or> i \<noteq> 16 \<and> wf_node db' (cs' ! i)"
    using assms(1,2) i by (auto simp: wf_node_simps)
  have u: "unat (word_of_nat i :: byte) = i" using i by (simp add: unat_of_nat)
  have eq: "holds db (cs ! i) k v \<longleftrightarrow> holds db' (cs' ! i) k v" for k v
    using assms(3) [of "word_of_nat i # k" v] i len u by auto
  have some: "(\<exists>k v. holds db (cs ! i) k v) \<longleftrightarrow> cs ! i \<noteq> nilNode" "(\<exists>k v. holds db' (cs' ! i) k v) \<longleftrightarrow> cs' ! i \<noteq> nilNode"
    using slot_some slots by blast+
  have mem: "cs ! i \<in> set cs" "cs' ! i \<in> set cs'" using i len by simp_all
  consider "cs ! i = nilNode" "cs' ! i = nilNode" | "is_value (cs ! i)" "is_value (cs' ! i)" | "wf_node db (cs ! i)" "wf_node db' (cs' ! i)"
    using slots some eq by blast
  then show "cs ! i = cs' ! i"
  proof cases
    case 2
    then show ?thesis using eq by (cases "cs ! i"; cases "cs' ! i") auto
  next
    case 3
    then show ?thesis using IH [OF mem(1)] assms(4,5) mem eq by simp
  qed simp
qed

lemma loaded_canonical:
  assumes "wf_node db t" "wf_node db' t'" "loaded t" "loaded t'" "\<And>k v. holds db t k v \<longleftrightarrow> holds db' t' k v"
  shows "t = t'"
  using assms
proof (induction t arbitrary: t' rule: node.induct)
  case (shortNode nk c fl)
  note eq = shortNode.prems(5)
  from shortNode.prems(2,4) show ?case
  proof (cases rule: loaded_cases)
    case t': (full cs')
    have "nk \<noteq> []" using shortNode.prems(1) by (auto simp: wf_node_simps)
    with t' show ?thesis using shortNode.prems(2) eq short_not_full [of db' cs' newFlag nk db c fl] by blast
  next
    case t': (leaf nk' v')
    from shortNode.prems(1,3) show ?thesis
    proof (cases rule: loaded_cases)
      case (leaf nk1 v)
      then show ?thesis using eq [of nk v] t' by auto
    next
      case (ext nk1 cs)
      then show ?thesis using eq t' leaf_not_ext [of db cs newFlag db' nk' v' newFlag nk fl] by auto
    qed auto
  next
    case t': (ext nk' cs')
    from shortNode.prems(1,3) show ?thesis
    proof (cases rule: loaded_cases)
      case (leaf nk1 v)
      then show ?thesis using eq t' leaf_not_ext [of db' cs' newFlag db nk v fl nk' newFlag] by auto
    next
      case (ext nk1 cs)
      then have c: "c = fullNode cs newFlag" "fl = newFlag" "wf_node db c" by auto
      have "nk = nk'" using ext_same_prefix [of db cs newFlag db' cs' newFlag nk newFlag nk' newFlag] eq t' c by simp
      moreover have "holds db c k v \<longleftrightarrow> holds db' (fullNode cs' newFlag) k v" for k v
        using eq [of "nk @ k" v] t'(1) calculation by (simp only: holds_simps(3) same_append_eq simp_thms)
      then have "c = fullNode cs' newFlag" using shortNode.IH [of "fullNode cs' newFlag"] c(3) t' shortNode.prems(3,4) by auto
      ultimately show ?thesis using t' c by simp
    qed auto
  qed
next
  case (fullNode cs fl)
  then have wf: "wf_node db (fullNode cs newFlag)" "fl = newFlag" by auto
  note eq = fullNode.prems(5) [unfolded wf(2)]
  from fullNode.prems(2,4) show ?case
  proof (cases rule: loaded_cases)
    case (leaf nk' v')
    then show ?thesis using short_not_full [OF wf(1)] eq by metis
  next
    case (ext nk' cs')
    then show ?thesis using short_not_full [OF wf(1)] eq by metis
  next
    case (full cs')
    have "cs = cs'"
    proof (rule loaded_full_canonical [OF wf(1)])
      show "wf_node db' (fullNode cs' newFlag)" "loaded (fullNode cs newFlag)" "loaded (fullNode cs' newFlag)"
        using fullNode.prems full(1) wf(2) by auto
      show "holds db (fullNode cs newFlag) k v \<longleftrightarrow> holds db' (fullNode cs' newFlag) k v" for k v using eq full(1) by simp
      show "u = u'" if "u \<in> set cs" "wf_node db u" "wf_node db' u'" "loaded u" "loaded u'" "\<And>k v. holds db u k v \<longleftrightarrow> holds db' u' k v" for u u'
        using fullNode.IH [OF that(1-5)] that(6) by blast
    qed
    with full(1) wf(2) show ?thesis by simp
  qed
qed (auto simp: wf_node_simps)

section \<open>The trie as a store\<close>

definition trie_fetch :: "nodeDb \<Rightarrow> node \<Rightarrow> bytes \<Rightarrow> (bytes option \<times> node) option" where
  "trie_fetch db root key =
     (case TryGet (key_fuel key) db root key of Some (Done (v, None, root')) \<Rightarrow> Some (v, root') | _ \<Rightarrow> None)"

definition trie_store :: "nodeDb \<Rightarrow> node \<Rightarrow> bytes \<Rightarrow> bytes \<Rightarrow> node option" where
  "trie_store db root key v =
     (case TryUpdate (key_fuel key) db root key v of Some (Done (None, root')) \<Rightarrow> Some root' | _ \<Rightarrow> None)"

interpretation mpt: keyed_store "represents db" "trie_fetch db" "trie_store db" for db
proof unfold_locales
  fix s m k
  assume "represents db s m"
  from TryGet_represents [OF this order_refl, of k] show "\<exists>s'. trie_fetch db s k = Some (m k, s') \<and> represents db s' m"
    by (auto simp: trie_fetch_def)
next
  fix s m k v
  assume "represents db s m"
  from TryUpdate_represents [OF this order_refl, of k v]
  show "\<exists>s'. trie_store db s k v = Some s' \<and> represents db s' (m(k := if v = [] then None else Some v))"
    by (auto simp: trie_store_def)
qed

text \<open>
  (C8) The trie implements a map. On a well-formed trie that represents the map \<open>m\<close>, whose missing parts are in the
  database, \<^verbatim>\<open>TryGet\<close> returns the entry of \<open>m\<close>, \<^verbatim>\<open>TryUpdate\<close> stores a value, or removes the entry when the
  value is empty, and \<^verbatim>\<open>TryDelete\<close> removes it; all of them return, without an error and without a panic, and leave a
  well-formed trie that represents the new map.
\<close>

theorem trie_refines_map:
  assumes "represents db root m" "4 * length key + 4 \<le> fuel"
  shows "(\<exists>root'. TryGet fuel db root key = Some (Done (m key, None, root')) \<and> represents db root' m) \<and>
    (\<exists>root'. TryUpdate fuel db root key v = Some (Done (None, root')) \<and>
       represents db root' (m(key := if v = [] then None else Some v))) \<and>
    (\<exists>root'. TryDelete fuel db root key = Some (Done (None, root')) \<and> represents db root' (m(key := None)))"
  using TryGet_represents [OF assms(1)] TryUpdate_represents [OF assms(1)] TryDelete_represents [OF assms(1)] assms(2)
  by (simp add: key_fuel_def)

text \<open>A branch whose two leaves are loaded from a database, under the keys 10 and 20 (hexadecimal).\<close>

definition sample_leaf :: node where
  "sample_leaf = shortNode [0, 16] (valueNode [7]) \<lparr>fl_hash = Some zeroHash, fl_dirty = False\<rparr>"

definition sample_nodes :: nodeDb where
  "sample_nodes h = (if h = zeroHash then Some sample_leaf else None)"

definition sample_children :: "node list" where
  "sample_children = (replicate 17 nilNode)[1 := hashNode zeroHash, 2 := hashNode zeroHash]"

definition sample_trie :: node where
  "sample_trie = fullNode sample_children newFlag"

definition sample_map :: "bytes \<rightharpoonup> bytes" where
  "sample_map = [[0x10] \<mapsto> [7], [0x20] \<mapsto> [7]]"

lemma sample_slot:
  "length sample_children = 17" "j < 17 \<Longrightarrow> sample_children ! j = (if j = 1 \<or> j = 2 then hashNode zeroHash else nilNode)"
  by (auto simp: sample_children_def nth_list_update)

lemma sample_node: "sample_nodes (BytesToHash zeroHash) = Some sample_leaf"
  by (simp add: sample_nodes_def BytesToHash_id)

lemma sample_hash_holds: "holds sample_nodes (hashNode zeroHash) k v \<longleftrightarrow> k = [0, 16] \<and> v = [7]"
  unfolding holds_simps(5) sample_node by (auto simp: sample_leaf_def)

lemma sample_holds: "holds sample_nodes sample_trie hk v \<longleftrightarrow> hk \<in> {[1, 0, 16], [2, 0, 16]} \<and> v = [7]"
proof -
  have "unat i = 1 \<longleftrightarrow> i = 1" "unat i = 2 \<longleftrightarrow> i = 2" for i :: byte by (auto simp: word_unat_eq_iff)
  then have "holds sample_nodes (sample_children ! unat i) k v \<longleftrightarrow> (i = 1 \<or> i = 2) \<and> k = [0, 16] \<and> v = [7]" if "unat i < 17" for i :: byte and k
    using that by (auto simp: sample_slot(2) sample_hash_holds simp del: holds_simps(5))
  moreover have "unat (1 :: byte) < 17" "unat (2 :: byte) < 17" by simp_all
  ultimately show ?thesis unfolding sample_trie_def holds_simps(4) sample_slot(1) by blast
qed

lemma sample_wf: "wf_node sample_nodes sample_trie"
proof -
  have "wf_node sample_nodes sample_leaf" unfolding sample_leaf_def by (rule wf_leaf) (simp add: hexkey_Cons)
  then have "wf_node sample_nodes (hashNode zeroHash)" using sample_node by (rule wf_hash [rotated 2]) (simp add: sample_leaf_def)
  then show ?thesis unfolding sample_trie_def by (intro wf_full [of _ _ 1 2]) (simp_all add: sample_slot)
qed

lemma sample_keys: "keybytesToHex [0x10] = [1, 0, 16]" "keybytesToHex [0x20] = [2, 0, 16]"
  by (simp_all add: keybytesToHex_def)

lemma sample_map_Some: "sample_map k = Some v \<longleftrightarrow> (k = [0x10] \<or> k = [0x20]) \<and> v = [7]"
  by (simp add: sample_map_def) blast

lemma sample_trie_represents: "represents sample_nodes sample_trie sample_map"
proof -
  have "(\<exists>k. hk = keybytesToHex k \<and> sample_map k = Some v) \<longleftrightarrow> hk = keybytesToHex [0x10] \<and> v = [7] \<or> hk = keybytesToHex [0x20] \<and> v = [7]" for hk v
    unfolding sample_map_Some by blast
  then have "(\<exists>k. hk = keybytesToHex k \<and> sample_map k = Some v) \<longleftrightarrow> holds sample_nodes sample_trie hk v" for hk v
    unfolding sample_keys sample_holds by simp blast
  with sample_wf show ?thesis unfolding represents_def by simp
qed

theorem trie_refines_map_witness:
  "\<exists>root'. TryDelete 8 sample_nodes sample_trie [0x10] = Some (Done (None, root')) \<and>
     represents sample_nodes root' (sample_map([0x10] := None)) \<and> sample_map [0x20] = Some [7]"
  using trie_refines_map [OF sample_trie_represents, of "[0x10]" 8 "[]"] by (simp add: sample_map_def)

text \<open>Two tries that represent the same map are the same tree once all their nodes are loaded.\<close>

lemma represents_canonical:
  assumes "represents db n m" "represents db' n' m"
  shows "\<exists>t. loads db n t \<and> loads db' n' t"
proof (cases "n = nilNode \<or> n' = nilNode")
  case True
  then have "m = Map.empty" using assms represents_holds by (metis holds_simps(1) not_Some_eq)
  then have "\<not> holds db n hk v" "\<not> holds db' n' hk v" for hk v using assms by (auto simp: represents_def)
  then have "n = nilNode" "n' = nilNode" using assms wf_holds_some unfolding represents_def by meson+
  then show ?thesis by simp
next
  case False
  then have wf: "wf_node db n" "wf_node db' n'" using assms by (auto simp: represents_def)
  then obtain t t' where t: "loads db n t" "loads db' n' t'" using loads_ex by meson
  have "t = t'"
  proof (rule loaded_canonical)
    show "wf_node db t" "wf_node db' t'" "loaded t" "loaded t'" using wf t loads_wf loads_loaded by blast+
    show "holds db t k v \<longleftrightarrow> holds db' t' k v" for k v
      using assms loads_holds [OF t(1)] loads_holds [OF t(2)] by (simp add: represents_def)
  qed
  with t show ?thesis by blast
qed

text \<open>
  (C9) History independence: start from two tries, whichever of their nodes are loaded and whatever databases they are over, and apply to each a
  sequence of \<^verbatim>\<open>TryUpdate\<close> calls (an empty value deletes). All the calls succeed, and if the maps that result are the same,
  then so are the trees, once all their nodes are loaded: the shape of a trie depends on its contents only, not on
  the order of the updates or on keys that came and went.
\<close>

theorem trie_canonical:
  assumes "represents db n m" "represents db' n' m'" "applied m kvs = applied m' kvs'"
  shows "\<exists>r r' t. stores (trie_store db) n kvs = Some r \<and> stores (trie_store db') n' kvs' = Some r' \<and>
    loads db r t \<and> loads db' r' t"
  using mpt.stores_ok [OF assms(1), of kvs] mpt.stores_ok [OF assms(2), of kvs'] represents_canonical assms(3) by metis

theorem trie_canonical_witness:
  "\<exists>r r' t. stores (trie_store Map.empty) nilNode [([0x10], [7]), ([0x20], [8])] = Some r \<and>
     stores (trie_store Map.empty) nilNode [([0x20], [8]), ([0x12], [9]), ([0x10], [7]), ([0x12], [])] = Some r' \<and>
     loads Map.empty r t \<and> loads Map.empty r' t"
  by (rule trie_canonical [OF represents_empty represents_empty]) (simp add: fun_eq_iff)

end
