(* ===== verification/Trie_Keys.thy ===== *)
theory Trie_Keys
  imports Trie_Props
begin

text \<open>
  The three encodings of the keys of a trie (\<^verbatim>\<open>Out/trie/encoding.go\<close>): key bytes, nibbles with an optional terminator (hex), and the compact form
  of the nodes on disk.
\<close>

section \<open>Round trips of the key encodings\<close>

fun pack :: "bytes \<Rightarrow> bytes" where
  "pack (x # y # ns) = (push_bit 4 x OR y) # pack ns"
| "pack _ = []"

lemma decodeNibbles_pack:
  "even (length ns) \<Longrightarrow> bi + length ns div 2 = length buf \<Longrightarrow> decodeNibbles ns buf bi = Some (take bi buf @ pack ns)"
proof (induction ns buf bi rule: decodeNibbles.induct)
  case (3 x y ns buf bi)
  then show ?case by (auto simp: take_Suc_conv_app_nth)
qed auto

lemma nibble_bits:
  assumes "x < 16" "y < (16 :: byte)"
  shows "(push_bit 4 x OR y) div 16 = x" "(push_bit 4 x OR y) mod 16 = y"
proof -
  have "take_bit 4 x = x" "take_bit 4 y = y" using assms by (simp_all add: take_bit_eq_mod word_mod_def word_less_def)
  then have x: "bit x i \<Longrightarrow> i < 4" and y: "bit y i \<Longrightarrow> i < 4" for i by (metis bit_take_bit_iff)+
  have "drop_bit 4 (push_bit 4 x OR y) = x"
    by (rule bit_word_eqI) (auto simp: bit_simps dest: x y)
  then show "(push_bit 4 x OR y) div 16 = x" by (simp add: drop_bit_eq_div)
  have "take_bit 4 (push_bit 4 x OR y) = y"
    by (rule bit_word_eqI) (auto simp: bit_simps dest: y)
  then show "(push_bit 4 x OR y) mod 16 = y" by (simp add: take_bit_eq_mod)
qed

lemma unpack_pack:
  "nibbles ns \<Longrightarrow> even (length ns) \<Longrightarrow> concat (map (\<lambda>b. [b div 16, b mod 16]) (pack ns)) = ns"
  by (induction ns rule: pack.induct) (auto simp: nibbles_def nibble_bits)

lemma pack_unpack: "pack (concat (map (\<lambda>b. [b div 16, b mod 16]) k)) = k"
  by (induction k) (auto simp: nibble_pair)

lemma hexToKeybytes_keybytesToHex: "hexToKeybytes (keybytesToHex k) = Some k"
proof -
  let ?u = "concat (map (\<lambda>b. [b div 16, b mod 16]) k)"
  have len: "length ?u = 2 * length k" by (induction k) auto
  have "hasTerm (keybytesToHex k)" by (simp add: hasTerm_def keybytesToHex_def nth_append)
  moreover have "take (length (keybytesToHex k) - 1) (keybytesToHex k) = ?u" by (simp add: keybytesToHex_def)
  ultimately show ?thesis using len decodeNibbles_pack [of ?u 0 "replicate (length k) 0"]
    by (simp add: hexToKeybytes_def pack_unpack)
qed

lemma unpack_first:
  assumes "nibbles ns" "even (length ns)" "f < 16" "x < 16"
  shows "keybytesToHex ((push_bit 4 f OR x) # pack ns) = f # x # ns @ [16]"
  using assms by (simp add: keybytesToHex_def nibble_bits unpack_pack)

lemma compactToHex_pack:
  assumes "nibbles ns" "even (length ns)" "x < 16"
  shows "compactToHex ((push_bit 4 0 OR x) # pack ns) = Some ns" "compactToHex ((push_bit 4 1 OR x) # pack ns) = Some (x # ns)"
    "compactToHex ((push_bit 4 2 OR x) # pack ns) = Some (ns @ [16])"
    "compactToHex ((push_bit 4 3 OR x) # pack ns) = Some (x # ns @ [16])"
  using assms unpack_first [of ns 0 x] unpack_first [of ns 1 x] unpack_first [of ns 2 x] unpack_first [of ns 3 x]
  by (simp_all add: compactToHex_def go_slice_def Let_def)

lemma hasTerm_snoc: "hasTerm (ns @ [16])" "nibbles ns \<Longrightarrow> \<not> hasTerm ns"
proof -
  assume "nibbles ns"
  then have "ns ! i < 16" if "i < length ns" for i using that by (simp add: nibbles_def list_all_length)
  from this [of "length ns - 1"] show "\<not> hasTerm ns" by (auto simp: hasTerm_def)
qed (simp add: hasTerm_def)

lemma hexToCompact_pack:
  assumes "nibbles ns"
  shows "hexToCompact (ns @ (if t then [16] else [])) =
    Some (if odd (length ns) then (push_bit 4 (if t then 3 else 1) OR hd ns) # pack (tl ns)
      else (push_bit 4 (if t then 2 else 0) OR 0) # pack ns)"
proof (cases "odd (length ns)")
  case True
  then obtain x xs where ns: "ns = x # xs" "even (length xs)" by (cases ns) auto
  show ?thesis using assms ns decodeNibbles_pack [of xs 1]
    by (cases t) (simp_all add: hexToCompact_def hasTerm_snoc [of "x # xs", simplified] hasTerm_snoc Let_def flip: or.assoc)
next
  case False
  then show ?thesis using assms decodeNibbles_pack [of ns 1]
    by (cases t) (simp_all add: hexToCompact_def hasTerm_snoc Let_def)
qed

lemma length_pack: "length (pack ns) = length ns div 2"
  by (induction ns rule: pack.induct) auto

lemma nibbles_parts: "nibbles (x # xs) \<longleftrightarrow> x < 16 \<and> nibbles xs"
  by (simp add: nibbles_def)

lemma compact_roundtrip:
  assumes "nibbles ns"
  shows "\<exists>c. hexToCompact (ns @ (if t then [16] else [])) = Some c \<and> length c = length ns div 2 + 1 \<and>
    compactToHex c = Some (ns @ (if t then [16] else []))"
proof (cases "odd (length ns)")
  case True
  then obtain x xs where ns: "ns = x # xs" "even (length xs)" by (cases ns) auto
  then show ?thesis unfolding hexToCompact_pack [OF assms] using assms compactToHex_pack(2) [of xs x] compactToHex_pack(4) [of xs x]
    by (simp add: length_pack nibbles_parts)
next
  case False
  then show ?thesis using assms compactToHex_pack(1,3) [of ns 0]
    by (simp add: hexToCompact_pack length_pack)
qed

text \<open>
  (C15) The encodings of keys lose nothing. Key bytes turned into nibbles are recovered by \<^verbatim>\<open>hexToKeybytes\<close>. A list of nibbles, even
  or odd in number, with or without the terminator, is turned by \<^verbatim>\<open>hexToCompact\<close>, without a panic, into a flag byte and one byte for every
  two nibbles, from which \<^verbatim>\<open>compactToHex\<close> recovers it.
\<close>

theorem key_encodings_roundtrip:
  "hexToKeybytes (keybytesToHex k) = Some k \<and>
   (nibbles ns \<longrightarrow> (\<exists>c. hexToCompact (ns @ (if t then [16] else [])) = Some c \<and> length c = length ns div 2 + 1 \<and>
      compactToHex c = Some (ns @ (if t then [16] else []))))"
  using hexToKeybytes_keybytesToHex compact_roundtrip by blast

theorem key_encodings_roundtrip_witness:
  "hexToKeybytes (keybytesToHex [0xab]) = Some [0xab] \<and>
   (\<exists>c. hexToCompact [1, 15, 3, 16] = Some c \<and> length c = 2 \<and> compactToHex c = Some [1, 15, 3, 16])"
  using key_encodings_roundtrip [of "[0xab]" "[1, 15, 3]" True] by (simp add: nibbles_def flip: numeral_2_eq_2)

end
