(* ===== verification/Spec2Isabelle.thy ===== *)
theory Spec2Isabelle
  imports Go_Math Go_Common Params Chain_Configs Opcodes Stack Memory Analysis Rlp Crypto Contract State
    State_Revert Vm_Types Gas_Table Instructions Jump_Table Precompiles Interpreter Machine Machine_Calls Evm_Props
    Word_Refinement Gas_Props Machine_Fuel Stack_Safety Flow_Safety Static_Safety Cancel_Liveness Stack_Types Trie Trie_Props Trie_Keys
begin

text \<open>A verification of CuteEVM, an Ethereum Virtual Machine in Go.\<close>

end
